(* ===== verification/Prelude.thy ===== *)
theory Prelude
  imports Main "HOL-Library.AList" "HOL-Library.Char_ord" "HOL-Library.List_Lexorder"
    "HOL-Library.Product_Lexorder" "HOL-Library.Option_ord" "HOL-Library.Word"
begin

text \<open>
  What the component theories share: the fixed-width integers, the model of Rust's hash maps
  (association lists, whose order stands for the unspecified iteration order), the sequencing of
  fallible steps (the question-mark operator), \<open>std::cmp::Reverse\<close>, and the general lemmas on
  stable sorting that every selection by \<open>sort_by_key\<close> rests on.
\<close>

named_theorems result_simps "facts that take a successful fallible computation apart"

section \<open>Integers and maps\<close>

type_synonym u8 = "8 word"
type_synonym u16 = "16 word"
type_synonym u32 = "32 word"
type_synonym u64 = "64 word"
type_synonym i64 = "64 word" \<comment> \<open>two's complement, read with \<open>sint\<close>\<close>

lemma unat_u8_le: "unat (x :: u8) \<le> 255"
  using unsigned_less [of x, where ?'a = nat] by simp

lemma unat_u16_le: "unat (x :: u16) \<le> 65535"
  using unsigned_less [of x, where ?'a = nat] by simp

type_synonym ('k, 'v) hashmap = "('k \<times> 'v) list"

abbreviation hm_get :: "('k, 'v) hashmap \<Rightarrow> 'k \<Rightarrow> 'v option" where
  "hm_get m k \<equiv> map_of m k"

abbreviation hm_insert :: "'k \<Rightarrow> 'v \<Rightarrow> ('k, 'v) hashmap \<Rightarrow> ('k, 'v) hashmap" where
  "hm_insert \<equiv> AList.update"

abbreviation hm_remove :: "'k \<Rightarrow> ('k, 'v) hashmap \<Rightarrow> ('k, 'v) hashmap" where
  "hm_remove \<equiv> AList.delete"

abbreviation hm_keys :: "('k, 'v) hashmap \<Rightarrow> 'k list" where
  "hm_keys m \<equiv> map fst m"

abbreviation hm_wf :: "('k, 'v) hashmap \<Rightarrow> bool" where
  "hm_wf m \<equiv> distinct (map fst m)"

declare map_of_eq_Some_iff [simp del]

lemma hm_get_insert [simp]:
  "hm_get (hm_insert k v m) k' = (if k' = k then Some v else hm_get m k')"
  by (simp add: update_conv')

lemma hm_get_remove [simp]:
  "hm_get (hm_remove k m) k' = (if k' = k then None else hm_get m k')"
  by (simp add: delete_conv')

lemma hm_wf_insert [simp]: "hm_wf m \<Longrightarrow> hm_wf (hm_insert k v m)"
  by (rule distinct_update)

lemma hm_wf_remove [simp]: "hm_wf m \<Longrightarrow> hm_wf (hm_remove k m)"
  by (rule distinct_delete)

lemma hm_get_in_set: "hm_wf m \<Longrightarrow> (k, v) \<in> set m \<longleftrightarrow> hm_get m k = Some v"
  by (simp add: map_of_eq_Some_iff)

lemma hm_insert_length:
  "length (hm_insert k v m) = (if k \<in> set (hm_keys m) then length m else Suc (length m))"
  by (induction m) auto

lemma nth_update_all: "xs[i := x] ! j = (if i = j \<and> j < length xs then x else xs ! j)"
  by (cases "i = j"; cases "i < length xs") (auto simp: list_update_beyond)

lemma list_all_update: "list_all P xs \<Longrightarrow> P x \<Longrightarrow> list_all P (xs[i := x])"
  by (auto simp: list_all_length nth_update_all)

section \<open>Fallible steps\<close>

text \<open>\<open>and_then r f\<close> is \<open>f(r?)\<close>: an error returns early.\<close>

fun and_then :: "'e + 'a \<Rightarrow> ('a \<Rightarrow> 'e + 'b) \<Rightarrow> 'e + 'b" where
  "and_then (Inl e) f = Inl e"
| "and_then (Inr x) f = f x"

lemma and_then_Inr_iff [result_simps]:
  "and_then r f = Inr y \<longleftrightarrow> (\<exists>x. r = Inr x \<and> f x = Inr y)"
  by (cases r) auto

lemma and_then_Inl_iff:
  "and_then r f = Inl e \<longleftrightarrow> r = Inl e \<or> (\<exists>x. r = Inr x \<and> f x = Inl e)"
  by (cases r) auto

lemma and_then_cong [fundef_cong]:
  "r = r' \<Longrightarrow> (\<And>x. r' = Inr x \<Longrightarrow> f x = g x) \<Longrightarrow> and_then r f = and_then r' g"
  by (cases r') auto

text \<open>\<open>ok_or e x\<close> is \<open>x.ok_or(e)\<close>, also \<open>x.context(e)\<close> on an option.\<close>

fun ok_or :: "'e \<Rightarrow> 'a option \<Rightarrow> 'e + 'a" where
  "ok_or e None = Inl e"
| "ok_or e (Some x) = Inr x"

lemma ok_or_Inr_iff [result_simps]: "ok_or e m = Inr x \<longleftrightarrow> m = Some x"
  by (cases m) auto

lemma ok_or_Inl_iff: "ok_or e m = Inl e' \<longleftrightarrow> m = None \<and> e' = e"
  by (cases m) auto

text \<open>\<open>ensure b e\<close> is \<open>anyhow::ensure!\<close>.\<close>

definition ensure :: "bool \<Rightarrow> 'e \<Rightarrow> 'e + unit" where
  "ensure b e = (if b then Inr () else Inl e)"

lemma ensure_Inr_iff [result_simps]: "ensure b e = Inr u \<longleftrightarrow> b"
  by (simp add: ensure_def)

lemma ensure_Inl_iff: "ensure b e = Inl e' \<longleftrightarrow> \<not> b \<and> e' = e"
  by (auto simp: ensure_def)

lemma ensure_simps [simp]: "ensure True e = Inr ()" "ensure False e = Inl e"
  by (simp_all add: ensure_def)

text \<open>A loop that stops at the first error, collecting the results.\<close>

fun try_map :: "('a \<Rightarrow> 'e + 'b) \<Rightarrow> 'a list \<Rightarrow> 'e + 'b list" where
  "try_map f [] = Inr []"
| "try_map f (x # xs) = and_then (f x) (\<lambda>y. and_then (try_map f xs) (\<lambda>ys. Inr (y # ys)))"

text \<open>A filter whose predicate may fail.\<close>

fun try_filter :: "('a \<Rightarrow> 'e + bool) \<Rightarrow> 'a list \<Rightarrow> 'e + 'a list" where
  "try_filter p [] = Inr []"
| "try_filter p (x # xs) = and_then (p x) (\<lambda>b. and_then (try_filter p xs)
     (\<lambda>ys. Inr (if b then x # ys else ys)))"

lemma try_filter_Inr:
  "try_filter p xs = Inr ys \<Longrightarrow> ys = filter (\<lambda>x. p x = Inr True) xs"
  by (induction xs arbitrary: ys) (auto simp: result_simps split: if_splits)

lemma try_map_Inr_set:
  "try_map f xs = Inr ys \<Longrightarrow> y \<in> set ys \<Longrightarrow> \<exists>x\<in>set xs. f x = Inr y"
  by (induction xs arbitrary: ys) (auto simp: result_simps)

lemma sum_case_Some_iff [result_simps]:
  "(case r of Inl _ \<Rightarrow> None | Inr x \<Rightarrow> f x) = Some y \<longleftrightarrow> (\<exists>x. r = Inr x \<and> f x = Some y)"
  by (cases r) auto

section \<open>Reversed orders\<close>

text \<open>\<open>std::cmp::Reverse\<close>, the wrapper the code sorts with where more is better.\<close>

datatype 'a reverse = Reverse 'a

instantiation reverse :: (linorder) linorder
begin

fun less_eq_reverse :: "'a reverse \<Rightarrow> 'a reverse \<Rightarrow> bool" where
  "less_eq_reverse (Reverse a) (Reverse b) \<longleftrightarrow> b \<le> a"

fun less_reverse :: "'a reverse \<Rightarrow> 'a reverse \<Rightarrow> bool" where
  "less_reverse (Reverse a) (Reverse b) \<longleftrightarrow> b < a"

instance
proof
  fix x y z :: "'a reverse"
  show "x < y \<longleftrightarrow> x \<le> y \<and> \<not> y \<le> x" by (cases x; cases y) auto
  show "x \<le> x" by (cases x) auto
  show "x \<le> y \<Longrightarrow> y \<le> z \<Longrightarrow> x \<le> z" by (cases x; cases y; cases z) auto
  show "x \<le> y \<Longrightarrow> y \<le> x \<Longrightarrow> x = y" by (cases x; cases y) auto
  show "x \<le> y \<or> y \<le> x" by (cases x; cases y) auto
qed

end

section \<open>Choosing the first element of a stable sort\<close>

text \<open>
  The code picks a backend by sorting the eligible ones and taking the first. The contract of such
  a choice: the pick is eligible, no eligible element has a smaller key, and among equals the
  sort's stability keeps the earliest.
\<close>

lemma sort_key_hd_nonempty [simp]: "sort_key f xs = [] \<longleftrightarrow> xs = []"
  by (metis length_0_conv length_sort)

lemma sort_key_hd_in: "xs \<noteq> [] \<Longrightarrow> hd (sort_key f xs) \<in> set xs"
  using hd_in_set [of "sort_key f xs"] by simp

lemma sort_key_hd_le:
  fixes f :: "'a \<Rightarrow> 'k :: linorder"
  assumes "x \<in> set xs"
  shows "f (hd (sort_key f xs)) \<le> f x"
proof -
  have "x \<in> set (sort_key f xs)" and srt: "sorted (map f (sort_key f xs))"
    using assms by simp_all
  then show ?thesis by (cases "sort_key f xs") auto
qed

lemma sort_key_hd_first:
  fixes f :: "'a \<Rightarrow> 'k :: linorder"
  assumes "xs \<noteq> []"
  shows "hd (sort_key f xs) = hd (filter (\<lambda>x. f x = f (hd (sort_key f xs))) xs)"
proof -
  obtain h t where s: "sort_key f xs = h # t"
    using assms sort_key_hd_nonempty by (meson neq_Nil_conv)
  have "filter (\<lambda>x. f x = f h) (sort_key f xs) = filter (\<lambda>x. f x = f h) xs"
    by (rule sort_key_stable)
  then have "filter (\<lambda>x. f x = f h) xs = h # filter (\<lambda>x. f x = f h) t"
    using s by simp
  then show ?thesis using s by simp
qed

lemma find_hd_filter: "filter P xs \<noteq> [] \<Longrightarrow> find P xs = Some (hd (filter P xs))"
  by (induction xs) auto

text \<open>Sorting a list that is not empty and taking the element at index 0.\<close>

definition first_least :: "('a \<Rightarrow> 'k :: linorder) \<Rightarrow> 'a list \<Rightarrow> 'a option" where
  "first_least key xs = (case sort_key key xs of [] \<Rightarrow> None | x # _ \<Rightarrow> Some x)"

lemma first_least_None_iff [simp]: "first_least key xs = None \<longleftrightarrow> xs = []"
  using sort_key_hd_nonempty [of key xs] by (auto simp: first_least_def split: list.splits)

lemma first_least_Some_hd: "first_least key xs = Some x \<Longrightarrow> xs \<noteq> [] \<and> x = hd (sort_key key xs)"
  by (auto simp: first_least_def split: list.splits)

section \<open>Filtering maps\<close>

lemma set_map_filter: "y \<in> set (List.map_filter f xs) \<longleftrightarrow> (\<exists>x\<in>set xs. f x = Some y)"
  by (induction xs) (auto simp: List.map_filter_def split: option.splits)

lemma map_filter_split:
  "List.map_filter f xs = pre @ y # post \<Longrightarrow>
     \<exists>xs1 x xs2. xs = xs1 @ x # xs2 \<and> f x = Some y \<and> List.map_filter f xs1 = pre"
proof (induction xs arbitrary: pre)
  case (Cons a xs)
  consider (none) "f a = None" | (hd) b where "f a = Some b" "pre = []"
    | (tl) b pre' where "f a = Some b" "pre = b # pre'"
    using Cons.prems by (cases "f a"; cases pre) (auto simp: List.map_filter_def)
  then show ?case
  proof cases
    case none
    with Cons obtain xs1 x xs2 where "xs = xs1 @ x # xs2" "f x = Some y" "List.map_filter f xs1 = pre"
      by (fastforce simp: List.map_filter_def)
    with none show ?thesis by (intro exI [of _ "a # xs1"]) (auto simp: List.map_filter_def)
  next
    case hd
    with Cons.prems show ?thesis by (intro exI [of _ "[]"]) (auto simp: List.map_filter_def)
  next
    case tl
    with Cons obtain xs1 x xs2 where "xs = xs1 @ x # xs2" "f x = Some y" "List.map_filter f xs1 = pre'"
      by (fastforce simp: List.map_filter_def)
    with tl show ?thesis by (intro exI [of _ "a # xs1"]) (auto simp: List.map_filter_def)
  qed
qed (simp add: List.map_filter_def)

end
