(* ===== verification/RustText.thy ===== *)
theory RustText
  imports Prelude
begin

text \<open>
  What the program uses of Rust's \<open>str\<close>: a string is its UTF-8 bytes (a \<open>char\<close> is a byte),
  \<open>split\<close>, \<open>find\<close>, \<open>strip_prefix\<close>, byte slicing with its panics, decimal printing and the
  integer parsers \<open>parse::<usize>\<close> and \<open>parse::<i64>\<close>. The lemmas relate printing and parsing.
\<close>

section \<open>Splitting, searching and slicing\<close>

fun split_on :: "char \<Rightarrow> string \<Rightarrow> string list" where
  "split_on c [] = [[]]"
| "split_on c (x # xs) =
     (if x = c then [] # split_on c xs
      else (case split_on c xs of [] \<Rightarrow> [[x]] | p # ps \<Rightarrow> (x # p) # ps))"

fun join :: "string \<Rightarrow> string list \<Rightarrow> string" where
  "join sep [] = []"
| "join sep [p] = p"
| "join sep (p # q # ps) = p @ sep @ join sep (q # ps)"

fun find_char :: "char \<Rightarrow> string \<Rightarrow> nat option" where
  "find_char c [] = None"
| "find_char c (x # xs) = (if x = c then Some 0 else map_option Suc (find_char c xs))"

fun strip_prefix :: "string \<Rightarrow> string \<Rightarrow> string option" where
  "strip_prefix [] s = Some s"
| "strip_prefix (p # ps) [] = None"
| "strip_prefix (p # ps) (x # xs) = (if x = p then strip_prefix ps xs else None)"

text \<open>
  \<open>&s[a..b]\<close> panics (\<open>None\<close>) when the range is reversed or outside the string, or when an end lies
  inside a multi-byte character, that is, on a UTF-8 continuation byte.
\<close>

definition is_char_boundary :: "string \<Rightarrow> nat \<Rightarrow> bool" where
  "is_char_boundary s i \<longleftrightarrow>
     i = 0 \<or> i = length s \<or> (i < length s \<and> \<not> (128 \<le> (of_char (s ! i) :: nat) \<and> (of_char (s ! i) :: nat) < 192))"

definition slice :: "string \<Rightarrow> nat \<Rightarrow> nat \<Rightarrow> string option" where
  "slice s a b =
     (if a \<le> b \<and> is_char_boundary s a \<and> is_char_boundary s b
      then Some (take (b - a) (drop a s)) else None)"

lemma split_on_nonempty [simp]: "split_on c s \<noteq> []"
  by (induction s) (auto split: list.splits)

lemma join_Cons: "ps \<noteq> [] \<Longrightarrow> join sep (p # ps) = p @ sep @ join sep ps"
  by (cases ps) auto

lemma join_split_on: "join [c] (split_on c s) = s"
proof (induction s)
  case (Cons x xs)
  show ?case
  proof (cases "x = c")
    case True
    with Cons show ?thesis by (simp add: join_Cons)
  next
    case False
    obtain p ps where "split_on c xs = p # ps" by (cases "split_on c xs") auto
    with Cons False show ?thesis by (cases ps) auto
  qed
qed simp

lemma set_split_on: "p \<in> set (split_on c s) \<Longrightarrow> set p \<subseteq> set s"
  by (induction s arbitrary: p) (fastforce split: if_splits list.splits)+

lemma strip_prefix_Some_iff: "strip_prefix p s = Some r \<longleftrightarrow> s = p @ r"
  by (induction p s rule: strip_prefix.induct) auto

lemma strip_prefix_append [simp]: "strip_prefix p (p @ r) = Some r"
  by (simp add: strip_prefix_Some_iff)

lemma find_char_Some:
  "find_char c s = Some i \<Longrightarrow> i < length s \<and> s ! i = c \<and> c \<notin> set (take i s)"
  by (induction s arbitrary: i) (auto split: if_splits)

lemma find_char_None_iff: "find_char c s = None \<longleftrightarrow> c \<notin> set s"
  by (induction s) auto

section \<open>Decimal numbers\<close>

definition digit_char :: "nat \<Rightarrow> char" where
  "digit_char d = char_of (48 + d)"

definition digit_value :: "char \<Rightarrow> nat" where
  "digit_value c = of_char c - 48"

definition is_ascii_digit :: "char \<Rightarrow> bool" where
  "is_ascii_digit c \<longleftrightarrow> 48 \<le> (of_char c :: nat) \<and> (of_char c :: nat) \<le> 57"

fun show_nat :: "nat \<Rightarrow> string" where
  "show_nat n = (if n < 10 then [digit_char n] else show_nat (n div 10) @ [digit_char (n mod 10)])"

declare show_nat.simps [simp del]

definition show_int :: "int \<Rightarrow> string" where
  "show_int i = (if i < 0 then CHR ''-'' # show_nat (nat (- i)) else show_nat (nat i))"

definition digits_value :: "string \<Rightarrow> nat" where
  "digits_value ds = foldl (\<lambda>n c. 10 * n + digit_value c) 0 ds"

text \<open>\<open>str::parse\<close> of an unsigned type with largest value \<open>hi\<close>: an optional plus sign, then digits.\<close>

definition parse_unsigned :: "nat \<Rightarrow> string \<Rightarrow> nat option" where
  "parse_unsigned hi s =
     (let ds = (case s of c # cs \<Rightarrow> if c = CHR ''+'' then cs else s | [] \<Rightarrow> s)
      in if ds \<noteq> [] \<and> list_all is_ascii_digit ds \<and> digits_value ds \<le> hi
         then Some (digits_value ds) else None)"

abbreviation parse_usize :: "string \<Rightarrow> nat option" where
  "parse_usize \<equiv> parse_unsigned (2 ^ 64 - 1)"

text \<open>\<open>str::parse::<i64>\<close>: an optional sign, digits, and the value in range.\<close>

definition parse_i64 :: "string \<Rightarrow> int option" where
  "parse_i64 s =
     (case s of
        CHR ''-'' # ds \<Rightarrow>
          if ds \<noteq> [] \<and> list_all is_ascii_digit ds \<and> digits_value ds \<le> 2 ^ 63
          then Some (- int (digits_value ds)) else None
      | _ \<Rightarrow> map_option int (parse_unsigned (2 ^ 63 - 1) s))"

lemma digit_value_char [simp]: "d < 10 \<Longrightarrow> digit_value (digit_char d) = d"
  by (simp add: digit_value_def digit_char_def)

lemma is_ascii_digit_char [simp]: "d < 10 \<Longrightarrow> is_ascii_digit (digit_char d)"
  by (simp add: is_ascii_digit_def digit_char_def)

lemma digits_value_append [simp]:
  "digits_value (ds @ [c]) = 10 * digits_value ds + digit_value c"
  by (simp add: digits_value_def)

lemma digits_value_single [simp]: "digits_value [c] = digit_value c"
  by (simp add: digits_value_def)

lemma show_nat_digits: "list_all is_ascii_digit (show_nat n)"
  by (induction n rule: show_nat.induct) (subst show_nat.simps, auto)

lemma show_nat_nonempty [simp]: "show_nat n \<noteq> []"
  by (subst show_nat.simps) simp

lemma show_nat_value [simp]: "digits_value (show_nat n) = n"
proof (induction n rule: show_nat.induct)
  case (1 n)
  show ?case by (subst show_nat.simps) (use 1 in \<open>auto simp: show_nat.simps\<close>)
qed

lemma show_nat_no_char: "\<not> is_ascii_digit c \<Longrightarrow> c \<notin> set (show_nat n)"
  using show_nat_digits [of n] by (auto simp: list_all_iff)

lemma show_nat_hd_zero: "hd (show_nat n) = CHR ''0'' \<Longrightarrow> n = 0"
proof (induction n rule: show_nat.induct)
  case (1 n)
  show ?case
  proof (cases "n < 10")
    case True
    with 1(2) have "digit_value (digit_char n) = digit_value (CHR ''0'')"
      by (subst (asm) show_nat.simps) simp
    with True show ?thesis by (simp add: digit_value_def [of "CHR ''0''"])
  next
    case False
    with 1(2) have "hd (show_nat (n div 10)) = CHR ''0''"
      by (subst (asm) show_nat.simps) (simp add: hd_append)
    with 1(1) False show ?thesis by simp
  qed
qed

lemma show_nat_length: "n < 10 ^ k \<Longrightarrow> 0 < k \<Longrightarrow> length (show_nat n) \<le> k"
proof (induction n arbitrary: k rule: show_nat.induct)
  case (1 n)
  show ?case
  proof (cases "n < 10")
    case True
    with 1(3) show ?thesis by (subst show_nat.simps) simp
  next
    case False
    with 1(2,3) obtain j where k: "k = Suc j" "0 < j" by (cases k; cases "k - 1") auto
    with 1(2) have "n div 10 < 10 ^ j" by (auto simp: mult.commute intro: less_mult_imp_div_less)
    with 1(1) False k have "length (show_nat (n div 10)) \<le> j" by simp
    with False k show ?thesis by (subst show_nat.simps) simp
  qed
qed

lemma parse_show_unsigned [simp]: "n \<le> hi \<Longrightarrow> parse_unsigned hi (show_nat n) = Some n"
proof -
  assume n: "n \<le> hi"
  obtain c cs where s: "show_nat n = c # cs" by (cases "show_nat n") auto
  have "is_ascii_digit c" using show_nat_digits [of n] s by simp
  then have "c \<noteq> CHR ''+''" by (auto simp: is_ascii_digit_def)
  with s have "(case show_nat n of c # cs \<Rightarrow> if c = CHR ''+'' then cs else show_nat n | [] \<Rightarrow> show_nat n)
    = show_nat n" by simp
  then show ?thesis using n show_nat_digits [of n] by (simp add: parse_unsigned_def)
qed

lemma parse_unsigned_le: "parse_unsigned hi s = Some n \<Longrightarrow> n \<le> hi"
  by (auto simp: parse_unsigned_def Let_def split: if_splits)

lemma parse_i64_range: "parse_i64 s = Some i \<Longrightarrow> - (2 ^ 63) \<le> i \<and> i < 2 ^ 63"
  by (auto simp: parse_i64_def split: list.splits if_splits char.splits bool.splits
      dest!: parse_unsigned_le)

lemma parse_i64_show_nat: "n < 2 ^ 63 \<Longrightarrow> parse_i64 (show_nat n) = Some (int n)"
proof -
  assume n: "n < 2 ^ 63"
  obtain c cs where s: "show_nat n = c # cs" by (cases "show_nat n") auto
  have "is_ascii_digit c" using show_nat_digits [of n] s by simp
  then have "c \<noteq> CHR ''-''" by (auto simp: is_ascii_digit_def)
  moreover have "parse_unsigned (2 ^ 63 - 1) (c # cs) = Some n"
    using parse_show_unsigned [of n "2 ^ 63 - 1"] n s by simp
  ultimately show ?thesis using s
    by (auto simp: parse_i64_def split: char.splits bool.splits)
qed

end
