(* ===== verification/Config.thy ===== *)
theory Config
  imports RustText
begin

text \<open>
  \<open>src/config.rs\<close>, with \<open>valid_character_id\<close> of \<open>src/characters.rs\<close> and the strategy types of
  \<open>src/load_balancer.rs\<close> that the configuration holds: the configuration records, their defaults,
  loading and validation, and the accessors the other components call. Reading the file, the YAML
  parser and \<open>hyper::Uri\<close> are parameters of \<open>load\<close> and \<open>validate\<close>.
\<close>

section \<open>Identifiers\<close>

definition is_ascii_alphanumeric :: "char \<Rightarrow> bool" where
  "is_ascii_alphanumeric c \<longleftrightarrow>
     (let n = of_char c :: nat
      in (48 \<le> n \<and> n \<le> 57) \<or> (65 \<le> n \<and> n \<le> 90) \<or> (97 \<le> n \<and> n \<le> 122))"

definition valid_character_id :: "string \<Rightarrow> bool" where
  "valid_character_id cid \<longleftrightarrow>
     cid \<noteq> [] \<and> length cid \<le> 63
     \<and> is_ascii_alphanumeric (cid ! 0)
     \<and> is_ascii_alphanumeric (cid ! (length cid - 1))
     \<and> list_all (\<lambda>c. is_ascii_alphanumeric c \<or> c \<in> set ''-_.'') cid"

lemma valid_character_id_no_sep: "valid_character_id cid \<Longrightarrow> CHR ''/'' \<notin> set cid"
  by (auto simp: valid_character_id_def list_all_iff is_ascii_alphanumeric_def Let_def)

section \<open>The configuration records\<close>

datatype protocol = Udp | Tcp

fun show_protocol :: "protocol \<Rightarrow> string" where
  "show_protocol Udp = ''udp''"
| "show_protocol Tcp = ''tcp''"

record data_port_config =
  dp_port :: u16
  dp_protocol :: protocol
  dp_name :: string

datatype load_balancing_strategy =
    LeastSessions
  | LabelArithmetic (current_label: string) (max_label: string) (overlap: i64)

record load_balancing_config =
  lb_strategy :: load_balancing_strategy

definition default_load_balancing :: load_balancing_config where
  "default_load_balancing = \<lparr>lb_strategy = LeastSessions\<rparr>"

record capacity_demand_config =
  cd_endpoint :: string
  cd_backend_groups :: "(string, string) hashmap"
  cd_boot_timeout_seconds :: u64

record status_query_config =
  sq_json_path :: string
  sq_expected_values :: "string list"

record default_endpoint =
  de_resource_type :: string
  de_namespace :: string
  de_label_selector :: "(string, string) hashmap option"
  de_annotation_selector :: "(string, string) hashmap option"
  de_status_query :: "status_query_config option"

record port_mapping =
  pm_name :: string
  pm_port_name :: "string option"
  pm_port_path :: "string option"

record resource_mapping =
  rm_group :: string
  rm_version :: string
  rm_resource :: string
  rm_service_selector_label :: "string option"
  rm_service_target_port_name :: "string option"
  rm_address_path :: "string option"
  rm_address_type :: "string option"
  rm_port_path :: "string option"
  rm_port_name :: "string option"
  rm_ports :: "port_mapping list option"

record config =
  cfg_query_port :: u16
  cfg_map_label :: string
  cfg_max_characters_per_server :: nat
  cfg_character_label_prefix :: string
  cfg_disconnect_annotation :: string
  cfg_capacity_demand :: "capacity_demand_config option"
  cfg_data_port :: "u16 option"
  cfg_data_ports :: "data_port_config list option"
  cfg_default_endpoint :: default_endpoint
  cfg_session_timeout_seconds :: u64
  cfg_resource_query_mapping :: "(string, resource_mapping) hashmap"
  cfg_load_balancing :: "load_balancing_config option"

text \<open>The values serde fills in where the YAML leaves a field out.\<close>

definition default_map_label :: string where
  "default_map_label = ''map''"

definition default_capacity :: nat where
  "default_capacity = 128"

definition default_character_label_prefix :: string where
  "default_character_label_prefix = ''characters.udp-director.io''"

definition default_disconnect_annotation :: string where
  "default_disconnect_annotation = ''udp-director.io/disconnected-at''"

definition default_boot_timeout :: u64 where
  "default_boot_timeout = 300"

section \<open>Accessors\<close>

definition get_data_ports :: "config \<Rightarrow> data_port_config list" where
  "get_data_ports cfg =
     (case cfg_data_ports cfg of
        Some ports \<Rightarrow> ports
      | None \<Rightarrow> (case cfg_data_port cfg of
          Some port \<Rightarrow> [\<lparr>dp_port = port, dp_protocol = Udp, dp_name = ''default''\<rparr>]
        | None \<Rightarrow> [\<lparr>dp_port = 7777, dp_protocol = Udp, dp_name = ''default''\<rparr>]))"

definition get_default_endpoint :: "config \<Rightarrow> default_endpoint" where
  "get_default_endpoint cfg = cfg_default_endpoint cfg"

definition get_load_balancing :: "config \<Rightarrow> load_balancing_config" where
  "get_load_balancing cfg =
     (case cfg_load_balancing cfg of Some lb \<Rightarrow> lb | None \<Rightarrow> default_load_balancing)"

section \<open>Validation and loading\<close>

record uri =
  uri_scheme :: "string option"
  uri_authority :: "string option"

datatype config_error =
    ReadFailed | ParseFailed
  | InvalidEndpoint | EndpointNotHttp | ZeroBootTimeout | InvalidGroup
  | DemandNeedsMapping | DemandNeedsPods
  | ZeroQueryPort | NoDataPort | ZeroDataPort string | EmptyPortName
  | EmptyResourceType | EmptyNamespace | EmptyMapping

fun validate_groups :: "(string \<times> string) list \<Rightarrow> config_error + unit" where
  "validate_groups [] = Inr ()"
| "validate_groups ((m, g) # rest) =
     and_then (ensure (valid_character_id m \<and> valid_character_id g) InvalidGroup)
       (\<lambda>_. validate_groups rest)"

definition validate_demand ::
  "(string \<Rightarrow> uri option) \<Rightarrow> config \<Rightarrow> capacity_demand_config \<Rightarrow> config_error + unit" where
  "validate_demand parse_uri cfg demand =
     and_then (ok_or InvalidEndpoint (parse_uri (cd_endpoint demand))) (\<lambda>uri.
     and_then (ensure (uri_scheme uri = Some ''http'' \<and> uri_authority uri \<noteq> None) EndpointNotHttp) (\<lambda>_.
     and_then (ensure (cd_boot_timeout_seconds demand > 0) ZeroBootTimeout) (\<lambda>_.
     and_then (validate_groups (cd_backend_groups demand)) (\<lambda>_.
     and_then (ok_or DemandNeedsMapping
       (hm_get (cfg_resource_query_mapping cfg) (de_resource_type (cfg_default_endpoint cfg)))) (\<lambda>mapping.
     ensure (rm_group mapping = [] \<and> rm_resource mapping = ''pods'') DemandNeedsPods)))))"

fun validate_ports :: "data_port_config list \<Rightarrow> config_error + unit" where
  "validate_ports [] = Inr ()"
| "validate_ports (p # ps) =
     (if dp_port p = 0 then Inl (ZeroDataPort (dp_name p))
      else if dp_name p = [] then Inl EmptyPortName
      else validate_ports ps)"

definition validate :: "(string \<Rightarrow> uri option) \<Rightarrow> config \<Rightarrow> config_error + unit" where
  "validate parse_uri cfg =
     and_then (case cfg_capacity_demand cfg of
         Some demand \<Rightarrow> validate_demand parse_uri cfg demand
       | None \<Rightarrow> Inr ()) (\<lambda>_.
     if cfg_query_port cfg = 0 then Inl ZeroQueryPort
     else let data_ports = get_data_ports cfg in
       if data_ports = [] then Inl NoDataPort
       else and_then (validate_ports data_ports) (\<lambda>_.
         if de_resource_type (cfg_default_endpoint cfg) = [] then Inl EmptyResourceType
         else if de_namespace (cfg_default_endpoint cfg) = [] then Inl EmptyNamespace
         else if cfg_resource_query_mapping cfg = [] then Inl EmptyMapping
         else Inr ()))"

definition config_path :: "string option \<Rightarrow> string" where
  "config_path env = (case env of Some p \<Rightarrow> p | None \<Rightarrow> ''/etc/udp-director/config.yaml'')"

definition load ::
  "(string \<Rightarrow> uri option) \<Rightarrow> (string \<Rightarrow> string option) \<Rightarrow> (string \<Rightarrow> config option)
   \<Rightarrow> string option \<Rightarrow> config_error + config" where
  "load parse_uri read_file parse_yaml env =
     and_then (ok_or ReadFailed (read_file (config_path env))) (\<lambda>content.
     and_then (ok_or ParseFailed (parse_yaml content)) (\<lambda>cfg.
     and_then (validate parse_uri cfg) (\<lambda>_. Inr cfg)))"

section \<open>What validation guarantees\<close>

lemma validate_groups_Inr_iff [result_simps]:
  "validate_groups gs = Inr u \<longleftrightarrow>
     (\<forall>(m, g)\<in>set gs. valid_character_id m \<and> valid_character_id g)"
  by (induction gs) (auto simp: result_simps)

lemma validate_ports_Inr_iff [result_simps]:
  "validate_ports ps = Inr u \<longleftrightarrow> (\<forall>p\<in>set ps. dp_port p \<noteq> 0 \<and> dp_name p \<noteq> [])"
  by (induction ps) auto

text \<open>The configurations that pass: the postcondition every component starts from.\<close>

definition demand_ok :: "(string \<Rightarrow> uri option) \<Rightarrow> config \<Rightarrow> capacity_demand_config \<Rightarrow> bool" where
  "demand_ok parse_uri cfg d \<longleftrightarrow>
     (\<exists>uri. parse_uri (cd_endpoint d) = Some uri \<and> uri_scheme uri = Some ''http''
        \<and> uri_authority uri \<noteq> None)
     \<and> cd_boot_timeout_seconds d > 0
     \<and> (\<forall>(m, g)\<in>set (cd_backend_groups d). valid_character_id m \<and> valid_character_id g)
     \<and> (\<exists>rm. hm_get (cfg_resource_query_mapping cfg) (de_resource_type (cfg_default_endpoint cfg))
          = Some rm \<and> rm_group rm = [] \<and> rm_resource rm = ''pods'')"

definition config_ok :: "(string \<Rightarrow> uri option) \<Rightarrow> config \<Rightarrow> bool" where
  "config_ok parse_uri cfg \<longleftrightarrow>
     (\<forall>d. cfg_capacity_demand cfg = Some d \<longrightarrow> demand_ok parse_uri cfg d)
     \<and> cfg_query_port cfg \<noteq> 0
     \<and> get_data_ports cfg \<noteq> []
     \<and> (\<forall>p\<in>set (get_data_ports cfg). dp_port p \<noteq> 0 \<and> dp_name p \<noteq> [])
     \<and> de_resource_type (cfg_default_endpoint cfg) \<noteq> []
     \<and> de_namespace (cfg_default_endpoint cfg) \<noteq> []
     \<and> cfg_resource_query_mapping cfg \<noteq> []"

lemma validate_demand_Inr_iff:
  "validate_demand parse_uri cfg d = Inr () \<longleftrightarrow> demand_ok parse_uri cfg d"
  by (auto simp: validate_demand_def demand_ok_def result_simps)

text \<open>
  Configuration validation accepts exactly the configurations that meet the stated conditions:
  a non-zero query port, at least one data port, every data port non-zero and named, a resource type,
  a namespace and a mapping, and, where capacity demand is configured, an absolute http endpoint, a
  positive startup timeout, valid map and group identifiers and a core Pod mapping.
\<close>

theorem validate_iff:
  "validate parse_uri cfg = Inr () \<longleftrightarrow> config_ok parse_uri cfg"
  unfolding validate_def config_ok_def
  by (cases "cfg_capacity_demand cfg")
     (auto simp: result_simps validate_demand_Inr_iff Let_def split: if_splits)

text \<open>
  The configuration the witnesses of the later theories use: one UDP data port, capacity demand for
  one map, Pods as the default resource.
\<close>

definition sample_default_endpoint :: default_endpoint where
  "sample_default_endpoint =
     \<lparr>de_resource_type = ''pod'', de_namespace = ''games'', de_label_selector = None,
      de_annotation_selector = None, de_status_query = None\<rparr>"

definition sample_pod_mapping :: resource_mapping where
  "sample_pod_mapping =
     \<lparr>rm_group = [], rm_version = ''v1'', rm_resource = ''pods'', rm_service_selector_label = None,
      rm_service_target_port_name = None, rm_address_path = Some ''status.podIP'',
      rm_address_type = None, rm_port_path = None, rm_port_name = Some ''game'', rm_ports = None\<rparr>"

definition sample_config :: config where
  "sample_config =
     \<lparr>cfg_query_port = 9000, cfg_map_label = default_map_label, cfg_max_characters_per_server = 2,
      cfg_character_label_prefix = ''c'', cfg_disconnect_annotation = ''d'',
      cfg_capacity_demand = Some \<lparr>cd_endpoint = ''http://demand'',
        cd_backend_groups = [(''tutorial'', ''g'')], cd_boot_timeout_seconds = 300\<rparr>,
      cfg_data_port = Some 7777, cfg_data_ports = None,
      cfg_default_endpoint = sample_default_endpoint, cfg_session_timeout_seconds = 300,
      cfg_resource_query_mapping = [(''pod'', sample_pod_mapping)],
      cfg_load_balancing = None\<rparr>"

lemmas sample_config_defs =
  sample_config_def sample_default_endpoint_def sample_pod_mapping_def default_map_label_def

end
