(* ===== verification/Json.thy ===== *)
theory Json
  imports RustText
begin

text \<open>
  \<open>serde_json::Value\<close> and the accessors the program uses of it, and the reference semantics of a
  JSON path: a list of field and index steps. An object is an association list, an array a list; a
  floating point number carries the text it prints as.
\<close>

datatype json_number = PosInt u64 | NegInt u64 | Float string

datatype json =
    JNull
  | JBool bool
  | JNumber json_number
  | JString string
  | JArray "json list"
  | JObject "(string \<times> json) list"

fun get_field :: "json \<Rightarrow> string \<Rightarrow> json option" where
  "get_field (JObject m) k = map_of m k"
| "get_field _ k = None"

fun get_index :: "json \<Rightarrow> nat \<Rightarrow> json option" where
  "get_index (JArray xs) i = (if i < length xs then Some (xs ! i) else None)"
| "get_index _ i = None"

fun as_u64 :: "json_number \<Rightarrow> u64 option" where
  "as_u64 (PosInt n) = Some n"
| "as_u64 _ = None"

text \<open>A negative integer is stored as its two's complement 64-bit value.\<close>

fun show_number :: "json_number \<Rightarrow> string" where
  "show_number (PosInt n) = show_nat (unat n)"
| "show_number (NegInt n) = show_int (sint n)"
| "show_number (Float t) = t"

fun show_bool :: "bool \<Rightarrow> string" where
  "show_bool True = ''true''"
| "show_bool False = ''false''"

section \<open>Reference semantics of a path\<close>

datatype path_step = Field string | Elem string nat

fun json_at :: "json \<Rightarrow> path_step list \<Rightarrow> json option" where
  "json_at j [] = Some j"
| "json_at j (Field f # ps) = (case get_field j f of None \<Rightarrow> None | Some j' \<Rightarrow> json_at j' ps)"
| "json_at j (Elem f i # ps) = (case get_field j f of None \<Rightarrow> None | Some a \<Rightarrow>
     (case get_index a i of None \<Rightarrow> None | Some j' \<Rightarrow> json_at j' ps))"

fun show_step :: "path_step \<Rightarrow> string" where
  "show_step (Field f) = f"
| "show_step (Elem f i) = f @ ''['' @ show_nat i @ '']''"

definition show_path :: "path_step list \<Rightarrow> string" where
  "show_path ps = join ''.'' (map show_step ps)"

text \<open>Field names a path text can express, and indices that fit a \<open>usize\<close>.\<close>

fun plain_step :: "path_step \<Rightarrow> bool" where
  "plain_step (Field f) \<longleftrightarrow> CHR ''.'' \<notin> set f \<and> CHR ''['' \<notin> set f"
| "plain_step (Elem f i) \<longleftrightarrow> CHR ''.'' \<notin> set f \<and> CHR ''['' \<notin> set f \<and> i < 2 ^ 64"

lemma json_at_append:
  "json_at j (ps @ qs) = (case json_at j ps of None \<Rightarrow> None | Some j' \<Rightarrow> json_at j' qs)"
  by (induction j ps rule: json_at.induct) (auto split: option.splits)

lemma show_step_no_dot: "plain_step p \<Longrightarrow> CHR ''.'' \<notin> set (show_step p)"
  using show_nat_no_char [of "CHR ''.''"] by (cases p) (auto simp: is_ascii_digit_def)

lemma split_on_no_sep: "c \<notin> set s \<Longrightarrow> split_on c s = [s]"
  by (induction s) auto

lemma split_on_append_sep: "c \<notin> set s \<Longrightarrow> split_on c (s @ c # t) = s # split_on c t"
  by (induction s) auto

lemma split_show_path:
  "ps \<noteq> [] \<Longrightarrow> list_all plain_step ps \<Longrightarrow> split_on CHR ''.'' (show_path ps) = map show_step ps"
proof (induction ps)
  case (Cons p ps)
  then show ?case
    by (cases ps) (auto simp: show_path_def show_step_no_dot split_on_no_sep split_on_append_sep)
qed simp

end
