(* ===== verification/Errors.thy ===== *)
theory Errors
  imports Prelude
begin

text \<open>
  The errors of the program: \<open>DemandError\<close> of \<open>src/demand.rs\<close>, the errors of the Kubernetes client
  library as the code tells them apart, and one constructor for every place that raises an
  \<open>anyhow\<close> error. \<open>Panic\<close> is a panic of the running task.
\<close>

datatype demand_error = UnknownGroup | Maintenance | Unavailable | Timeout | Cancelled

fun show_demand_error :: "demand_error \<Rightarrow> string" where
  "show_demand_error UnknownGroup = ''Unknown backend group''"
| "show_demand_error Maintenance = ''Backend group is under maintenance''"
| "show_demand_error Unavailable = ''Capacity demand unavailable''"
| "show_demand_error Timeout = ''Server startup timed out''"
| "show_demand_error Cancelled = ''Query disconnected''"

datatype kube_error = ApiError nat | TransportError

datatype error =
    Panic
  | DemandFailed demand_error
  | KubeFailed kube_error
  | ListFailed kube_error
  | ServiceListFailed kube_error
  | WatchFailed nat
  | NoListVersion
  | PodDraining | PodHasNoName | PodHasNoVersion
  | SerializeFailed
  | PathNotFound string
  | AddressTypeNotFound string | AddressNotArray string | AddressNotString string
  | PortOutOfRange | PortNameNotFound string | PortNotNumber string | NoPortSpec
  | NoResources | NoValidBackends | NoCapacity nat
  | UnknownResourceType string | NoDefaultResources | AddressPathRequired
  | PortUnsupported u16
  | SelectorLabelRequired | TargetPortNameRequired | NoService
  | SessionNotFound | NoPortMapping u16 | InvalidSocketAddr string | IoError
  | SessionNotEstablished
  | MissingServerMapping | NotPodMapping | PodDecodeFailed | MissingServerIdentity
  | MissingCharacterId | MissingPodName | InvalidBackendPorts | InvalidBackendPort
  | MissingBackendPort | NoDataPorts
  | IncompleteRequest | RequestTooLarge | InvalidRequest string | RequestReadFailed string
  | PeerUnknown
  | BindFailed u16

end
