(* ===== verification/K8sClient.thy ===== *)
theory K8sClient
  imports Config Json Errors
begin

text \<open>
  \<open>src/k8s_client.rs\<close>: the Kubernetes objects the program looks at, the readiness and drain tests,
  the guarded label write, the filtered list, the watch loop, the JSON-path extraction of addresses
  and ports, and the service lookup. The API server is a parameter, a record of the calls the
  program makes (\<open>k8s_api\<close>); serialisation of an object to JSON is a field of the object.
\<close>

section \<open>Objects\<close>

record object_meta =
  om_name :: "string option"
  om_uid :: "string option"
  om_resource_version :: "string option"
  om_labels :: "(string, string) hashmap option"
  om_annotations :: "(string, string) hashmap option"
  om_deletion_timestamp :: "string option"

record pod_condition =
  pc_type :: string
  pc_status :: string

record pod_status =
  ps_phase :: "string option"
  ps_pod_ip :: "string option"
  ps_conditions :: "pod_condition list option"

record pod =
  pod_metadata :: object_meta
  pod_status_of :: "pod_status option"

record dynamic_object =
  do_metadata :: object_meta
  do_json :: "json option"

record service_port =
  sp_name :: "string option"
  sp_port :: u32

record service_spec =
  ss_cluster_ip :: "string option"
  ss_ports :: "service_port list option"

record service =
  svc_labels :: "(string, string) hashmap option"
  svc_spec :: "service_spec option"

record status_query =
  json_path :: string
  expected_values :: "string list"

record list_request =
  lr_namespace :: string
  lr_group :: string
  lr_version :: string
  lr_api_version :: string
  lr_plural :: string
  lr_label_selector :: "string option"

record list_response =
  lresp_items :: "dynamic_object list"
  lresp_version :: "string option"

record patch_request =
  pr_namespace :: string
  pr_pod :: string
  pr_resource_version :: string
  pr_label :: string
  pr_value :: string

record k8s_api =
  api_list :: "list_request \<Rightarrow> kube_error + list_response"
  api_services :: "string \<Rightarrow> kube_error + service list"
  api_patch :: "patch_request \<Rightarrow> kube_error + unit"

section \<open>Readiness, draining and the label write\<close>

definition DRAIN_LABEL :: string where
  "DRAIN_LABEL = ''udp-director.io/draining''"

definition pod_draining :: "pod \<Rightarrow> bool" where
  "pod_draining p =
     (case om_labels (pod_metadata p) of
        None \<Rightarrow> False
      | Some labels \<Rightarrow> hm_get labels DRAIN_LABEL = Some ''true'')"

definition pod_ready :: "pod \<Rightarrow> bool" where
  "pod_ready p =
     (om_deletion_timestamp (pod_metadata p) = None
      \<and> (case pod_status_of p of
           None \<Rightarrow> False
         | Some s \<Rightarrow> ps_phase s = Some ''Running'' \<and> ps_pod_ip s \<noteq> None
             \<and> list_ex (\<lambda>c. pc_type c = ''Ready'' \<and> pc_status c = ''True'')
                 (case ps_conditions s of None \<Rightarrow> [] | Some cs \<Rightarrow> cs)))"

definition allocate_request :: "string \<Rightarrow> pod \<Rightarrow> string \<Rightarrow> error + patch_request" where
  "allocate_request namespace p key =
     and_then (ensure (\<not> pod_draining p) PodDraining) (\<lambda>_.
     and_then (ok_or PodHasNoName (om_name (pod_metadata p))) (\<lambda>name.
     and_then (ok_or PodHasNoVersion (om_resource_version (pod_metadata p))) (\<lambda>version.
     Inr \<lparr>pr_namespace = namespace, pr_pod = name, pr_resource_version = version,
          pr_label = key, pr_value = ''Allocated''\<rparr>)))"

definition send_patch :: "k8s_api \<Rightarrow> patch_request \<Rightarrow> error + unit" where
  "send_patch api req = (case api_patch api req of Inl e \<Rightarrow> Inl (KubeFailed e) | Inr _ \<Rightarrow> Inr ())"

definition allocate_character :: "k8s_api \<Rightarrow> string \<Rightarrow> pod \<Rightarrow> string \<Rightarrow> error + unit" where
  "allocate_character api namespace p key =
     and_then (allocate_request namespace p key) (send_patch api)"

section \<open>JSON paths\<close>

text \<open>
  One dot-separated part of a path. A bracket makes it an array access: the text between the first
  bracket and the last byte of the part is the index; slicing it panics where that range is empty
  backwards (the bracket is the last byte) or ends inside a character.
\<close>

definition path_part :: "json \<Rightarrow> string \<Rightarrow> error + json option" where
  "path_part current part =
     (case find_char CHR ''['' part of
        Some bracket_pos \<Rightarrow>
          and_then (ok_or Panic (slice part 0 bracket_pos)) (\<lambda>field_name.
          and_then (ok_or Panic (slice part (bracket_pos + 1) (length part - 1))) (\<lambda>index_str.
          Inr (case get_field current field_name of
                 None \<Rightarrow> None
               | Some a \<Rightarrow> (case parse_usize index_str of
                   None \<Rightarrow> None
                 | Some index \<Rightarrow> get_index a index))))
      | None \<Rightarrow> Inr (get_field current part))"

fun walk_path :: "json \<Rightarrow> string list \<Rightarrow> error + json option" where
  "walk_path current [] = Inr (Some current)"
| "walk_path current (part # parts) =
     and_then (path_part current part) (\<lambda>next.
       case next of None \<Rightarrow> Inr None | Some j \<Rightarrow> walk_path j parts)"

definition extract_json_path :: "json \<Rightarrow> string \<Rightarrow> error + json option" where
  "extract_json_path json path = walk_path json (split_on CHR ''.'' path)"

section \<open>Addresses and ports\<close>

fun find_address :: "string \<Rightarrow> json list \<Rightarrow> string option" where
  "find_address addr_type [] = None"
| "find_address addr_type (entry # rest) =
     (case (get_field entry ''type'', get_field entry ''address'') of
        (Some (JString t), Some (JString a)) \<Rightarrow>
          if t = addr_type then Some a else find_address addr_type rest
      | _ \<Rightarrow> find_address addr_type rest)"

definition extract_address ::
  "dynamic_object \<Rightarrow> string \<Rightarrow> string option \<Rightarrow> error + string" where
  "extract_address resource address_path address_type =
     and_then (ok_or SerializeFailed (do_json resource)) (\<lambda>resource_json.
     and_then (extract_json_path resource_json address_path) (\<lambda>found.
     and_then (ok_or (PathNotFound address_path) found) (\<lambda>value.
     case address_type of
       Some addr_type \<Rightarrow>
         (case value of
            JArray addresses \<Rightarrow>
              ok_or (AddressTypeNotFound addr_type) (find_address addr_type addresses)
          | _ \<Rightarrow> Inl (AddressNotArray address_path))
     | None \<Rightarrow>
         (case value of JString s \<Rightarrow> Inr s | _ \<Rightarrow> Inl (AddressNotString address_path)))))"

fun port_of_number :: "json_number \<Rightarrow> error + u16" where
  "port_of_number n =
     ok_or PortOutOfRange
       (case as_u64 n of
          None \<Rightarrow> None
        | Some v \<Rightarrow> if unat v \<le> 65535 then Some (ucast v) else None)"

text \<open>The first port entry of that name whose number field is a number.\<close>

fun find_named_port :: "string \<Rightarrow> string \<Rightarrow> json list \<Rightarrow> json_number option" where
  "find_named_port name field [] = None"
| "find_named_port name field (p # ps) =
     (case (get_field p ''name'', get_field p field) of
        (Some (JString n), Some (JNumber num)) \<Rightarrow>
          if n = name then Some num else find_named_port name field ps
      | _ \<Rightarrow> find_named_port name field ps)"

definition status_ports :: "json \<Rightarrow> json list" where
  "status_ports j =
     (case get_field j ''status'' of
        Some (JObject status) \<Rightarrow>
          (case map_of status ''ports'' of Some (JArray ports) \<Rightarrow> ports | _ \<Rightarrow> [])
      | _ \<Rightarrow> [])"

definition container_ports :: "json \<Rightarrow> json list" where
  "container_ports j =
     (case get_field j ''spec'' of
        Some (JObject spec) \<Rightarrow>
          (case map_of spec ''containers'' of
             Some (JArray containers) \<Rightarrow>
               concat (map (\<lambda>c. case get_field c ''ports'' of Some (JArray ports) \<Rightarrow> ports | _ \<Rightarrow> [])
                 containers)
           | _ \<Rightarrow> [])
      | _ \<Rightarrow> [])"

definition extract_port ::
  "dynamic_object \<Rightarrow> string option \<Rightarrow> string option \<Rightarrow> error + u16" where
  "extract_port resource port_path port_name =
     and_then (ok_or SerializeFailed (do_json resource)) (\<lambda>resource_json.
     case port_name of
       Some name \<Rightarrow>
         (case find_named_port name ''port'' (status_ports resource_json) of
            Some num \<Rightarrow> port_of_number num
          | None \<Rightarrow>
            (case find_named_port name ''containerPort'' (container_ports resource_json) of
               Some num \<Rightarrow> port_of_number num
             | None \<Rightarrow> Inl (PortNameNotFound name)))
     | None \<Rightarrow>
         (case port_path of
            Some path \<Rightarrow>
              and_then (extract_json_path resource_json path) (\<lambda>found.
              and_then (ok_or (PathNotFound path) found) (\<lambda>value.
              case value of
                JNumber n \<Rightarrow> port_of_number n
              | _ \<Rightarrow> Inl (PortNotNumber path)))
          | None \<Rightarrow> Inl NoPortSpec))"

fun collect_ports ::
  "dynamic_object \<Rightarrow> (string, u16) hashmap \<Rightarrow> port_mapping list
   \<Rightarrow> error + (string, u16) hashmap" where
  "collect_ports resource ports [] = Inr ports"
| "collect_ports resource ports (m # ms) =
     and_then (extract_port resource (pm_port_path m) (pm_port_name m)) (\<lambda>port.
       collect_ports resource (hm_insert (pm_name m) port ports) ms)"

definition extract_ports ::
  "dynamic_object \<Rightarrow> port_mapping list \<Rightarrow> error + (string, u16) hashmap" where
  "extract_ports resource port_mappings = collect_ports resource [] port_mappings"

section \<open>Listing and filtering\<close>

definition label_selector_text :: "(string, string) hashmap \<Rightarrow> string" where
  "label_selector_text labels = join '','' (map (\<lambda>(k, v). k @ ''='' @ v) labels)"

definition matches_status_query :: "dynamic_object \<Rightarrow> status_query \<Rightarrow> error + bool" where
  "matches_status_query resource query =
     (case do_json resource of
        None \<Rightarrow> Inr False
      | Some resource_json \<Rightarrow>
          and_then (extract_json_path resource_json (json_path query)) (\<lambda>value.
            Inr (case value of
                   Some (JString s) \<Rightarrow> s \<in> set (expected_values query)
                 | Some (JNumber n) \<Rightarrow> show_number n \<in> set (expected_values query)
                 | Some (JBool b) \<Rightarrow> show_bool b \<in> set (expected_values query)
                 | _ \<Rightarrow> False)))"

definition matches_annotation_selector ::
  "dynamic_object \<Rightarrow> (string, string) hashmap \<Rightarrow> bool" where
  "matches_annotation_selector resource selector =
     (case om_annotations (do_metadata resource) of
        None \<Rightarrow> False
      | Some annotations \<Rightarrow> list_all (\<lambda>(k, v). hm_get annotations k = Some v) selector)"

definition list_request_of ::
  "string \<Rightarrow> resource_mapping \<Rightarrow> (string, string) hashmap option \<Rightarrow> list_request" where
  "list_request_of namespace mapping label_selector =
     \<lparr>lr_namespace = namespace, lr_group = rm_group mapping, lr_version = rm_version mapping,
      lr_api_version =
        (if rm_group mapping = [] then rm_version mapping
         else rm_group mapping @ ''/'' @ rm_version mapping),
      lr_plural = rm_resource mapping,
      lr_label_selector = map_option label_selector_text label_selector\<rparr>"

definition query_resources_snapshot ::
  "k8s_api \<Rightarrow> string \<Rightarrow> resource_mapping \<Rightarrow> status_query option
   \<Rightarrow> (string, string) hashmap option \<Rightarrow> (string, string) hashmap option
   \<Rightarrow> error + (dynamic_object list \<times> string)" where
  "query_resources_snapshot api namespace mapping status_query label_selector annotation_selector =
     (case api_list api (list_request_of namespace mapping label_selector) of
        Inl e \<Rightarrow> Inl (ListFailed e)
      | Inr resp \<Rightarrow>
          let version = (case lresp_version resp of None \<Rightarrow> [] | Some v \<Rightarrow> v) in
          and_then
            (case status_query of
               Some query \<Rightarrow> try_filter (\<lambda>r. matches_status_query r query) (lresp_items resp)
             | None \<Rightarrow> Inr (lresp_items resp))
            (\<lambda>filtered. Inr
              ((case annotation_selector of
                  Some annotations \<Rightarrow> filter (\<lambda>r. matches_annotation_selector r annotations) filtered
                | None \<Rightarrow> filtered), version)))"

definition query_resources ::
  "k8s_api \<Rightarrow> string \<Rightarrow> resource_mapping \<Rightarrow> status_query option
   \<Rightarrow> (string, string) hashmap option \<Rightarrow> (string, string) hashmap option
   \<Rightarrow> error + dynamic_object list" where
  "query_resources api namespace mapping status_query label_selector annotation_selector =
     and_then (query_resources_snapshot api namespace mapping status_query label_selector
       annotation_selector) (\<lambda>(items, _). Inr items)"

section \<open>Watching\<close>

datatype watch_event = Bookmark | WatchError nat | OtherEvent

text \<open>
  A watch as the program sees it: the call's own outcome and then the stream, each element an
  event or a transport error; the end of the list is the end of the stream.
\<close>

fun watch_stream :: "(kube_error + watch_event) list \<Rightarrow> error + unit" where
  "watch_stream [] = Inr ()"
| "watch_stream (Inl e # _) = Inl (KubeFailed e)"
| "watch_stream (Inr Bookmark # rest) = watch_stream rest"
| "watch_stream (Inr (WatchError code) # _) =
     (if code \<noteq> 410 then Inl (WatchFailed code) else Inr ())"
| "watch_stream (Inr OtherEvent # _) = Inr ()"

definition wait_for_pod_change ::
  "string \<Rightarrow> kube_error + (kube_error + watch_event) list \<Rightarrow> error + unit" where
  "wait_for_pod_change version watch =
     and_then (ensure (version \<noteq> []) NoListVersion) (\<lambda>_.
     case watch of
       Inl (ApiError code) \<Rightarrow> if code = 410 then Inr () else Inl (KubeFailed (ApiError code))
     | Inl e \<Rightarrow> Inl (KubeFailed e)
     | Inr stream \<Rightarrow> watch_stream stream)"

section \<open>Services\<close>

fun find_service_port :: "string \<Rightarrow> service_port list \<Rightarrow> u32 option" where
  "find_service_port port_name [] = None"
| "find_service_port port_name (p # ps) =
     (if sp_name p = Some port_name then Some (sp_port p) else find_service_port port_name ps)"

definition service_endpoint :: "string \<Rightarrow> service_spec \<Rightarrow> (string \<times> u16) option" where
  "service_endpoint port_name spec =
     (case (case ss_ports spec of None \<Rightarrow> None | Some ports \<Rightarrow> find_service_port port_name ports) of
        None \<Rightarrow> None
      | Some port_number \<Rightarrow>
          Some (case ss_cluster_ip spec of None \<Rightarrow> [] | Some ip \<Rightarrow> ip, ucast port_number))"

fun find_service :: "string \<Rightarrow> string \<Rightarrow> string \<Rightarrow> service list \<Rightarrow> (string \<times> u16) option" where
  "find_service resource_name selector_label port_name [] = None"
| "find_service resource_name selector_label port_name (s # ss) =
     (case (svc_labels s, svc_spec s) of
        (Some labels, Some spec) \<Rightarrow>
          (case (if hm_get labels selector_label = Some resource_name
                 then service_endpoint port_name spec else None) of
             Some endpoint \<Rightarrow> Some endpoint
           | None \<Rightarrow> find_service resource_name selector_label port_name ss)
      | _ \<Rightarrow> find_service resource_name selector_label port_name ss)"

definition find_service_for_resource ::
  "k8s_api \<Rightarrow> string \<Rightarrow> string \<Rightarrow> string \<Rightarrow> string \<Rightarrow> error + (string \<times> u16) option" where
  "find_service_for_resource api namespace resource_name selector_label port_name =
     (case api_services api namespace of
        Inl e \<Rightarrow> Inl (ServiceListFailed e)
      | Inr services \<Rightarrow> Inr (find_service resource_name selector_label port_name services))"

section \<open>Facts about paths\<close>

lemma find_char_append: "c \<notin> set f \<Longrightarrow> find_char c (f @ c # r) = Some (length f)"
  by (induction f) auto

lemma ascii_boundary: "i < length s \<Longrightarrow> (of_char (s ! i) :: nat) < 128 \<Longrightarrow> is_char_boundary s i"
  by (auto simp: is_char_boundary_def)

lemma is_ascii_digit_lt: "is_ascii_digit c \<Longrightarrow> (of_char c :: nat) < 128"
  by (auto simp: is_ascii_digit_def)

text \<open>The index text of an array access that is written correctly.\<close>

lemma index_slices:
  assumes part: "part = f @ CHR ''['' # ds @ [c]"
    and ds: "list_all is_ascii_digit ds" "ds \<noteq> []" and c: "(of_char c :: nat) < 128"
  shows "slice part 0 (length f) = Some f"
    and "slice part (length f + 1) (length part - 1) = Some ds"
proof -
  have "(of_char (part ! length f) :: nat) < 128" by (simp add: part)
  then have b1: "is_char_boundary part (length f)" by (intro ascii_boundary) (simp_all add: part)
  have "part ! Suc (length f) = hd ds" using ds(2) by (simp add: part nth_append hd_conv_nth)
  then have b2: "is_char_boundary part (Suc (length f))"
    using ds by (intro ascii_boundary) (auto simp: part is_ascii_digit_lt neq_Nil_conv)
  have "part ! (length part - 1) = c" by (simp add: part nth_append)
  then have b3: "is_char_boundary part (length part - 1)"
    using c by (intro ascii_boundary) (auto simp: part)
  have b0: "is_char_boundary part 0" by (simp add: is_char_boundary_def)
  show "slice part (length f + 1) (length part - 1) = Some ds"
    using b2 b3 by (simp add: slice_def part)
  show "slice part 0 (length f) = Some f"
    using b0 b1 by (simp add: slice_def part)
qed

lemma path_part_field: "CHR ''['' \<notin> set part \<Longrightarrow> path_part j part = Inr (get_field j part)"
  by (simp add: path_part_def find_char_None_iff [THEN iffD2])

lemma path_part_elem:
  assumes f: "CHR ''['' \<notin> set f" and i: "i < 2 ^ 64" and c: "(of_char c :: nat) < 128"
  shows "path_part j (f @ CHR ''['' # show_nat i @ [c]) =
    Inr (case get_field j f of None \<Rightarrow> None | Some a \<Rightarrow> get_index a i)"
proof -
  let ?part = "f @ CHR ''['' # show_nat i @ [c]"
  have "slice ?part 0 (length f) = Some f"
    "slice ?part (length f + 1) (length ?part - 1) = Some (show_nat i)"
    using index_slices [OF refl show_nat_digits show_nat_nonempty c] by auto
  moreover have "find_char CHR ''['' ?part = Some (length f)" using f by (rule find_char_append)
  moreover have "parse_usize (show_nat i) = Some i" by (rule parse_show_unsigned) (use i in simp)
  ultimately show ?thesis by (auto simp: path_part_def split: option.split)
qed

lemma path_part_show:
  "plain_step p \<Longrightarrow> path_part j (show_step p) = Inr (json_at j [p])"
  by (cases p) (auto simp: path_part_field path_part_elem split: option.split)

lemma walk_path_show:
  "list_all plain_step ps \<Longrightarrow> walk_path j (map show_step ps) = Inr (json_at j ps)"
proof (induction ps arbitrary: j)
  case (Cons p ps)
  then show ?case
    by (simp add: path_part_show json_at_append [of j "[p]" ps, simplified] split: option.split)
qed simp

text \<open>
  Over ASCII text, a part makes the slicing panic exactly when its first bracket is its last byte.
\<close>

abbreviation is_ascii :: "string \<Rightarrow> bool" where
  "is_ascii s \<equiv> list_all (\<lambda>c. (of_char c :: nat) < 128) s"

definition dangling_bracket :: "string \<Rightarrow> bool" where
  "dangling_bracket part \<longleftrightarrow> (\<exists>f. part = f @ ''['' \<and> CHR ''['' \<notin> set f)"

lemma is_ascii_boundary: "is_ascii s \<Longrightarrow> i \<le> length s \<Longrightarrow> is_char_boundary s i"
  by (cases "i < length s") (auto simp: list_all_length is_char_boundary_def)

lemma path_part_panic_iff:
  assumes "is_ascii part"
  shows "path_part j part = Inl Panic \<longleftrightarrow> dangling_bracket part"
proof (cases "find_char CHR ''['' part")
  case None
  then have "CHR ''['' \<notin> set part" by (simp add: find_char_None_iff)
  then show ?thesis by (auto simp: path_part_field dangling_bracket_def)
next
  case (Some b)
  note b = find_char_Some [OF Some]
  have s1: "slice part 0 b = Some (take b part)"
    using b assms by (simp add: slice_def is_ascii_boundary)
  have s2: "slice part (b + 1) (length part - 1) = None \<longleftrightarrow> length part = b + 1"
    using b is_ascii_boundary [OF assms] by (auto simp: slice_def)
  have "path_part j part = Inl Panic \<longleftrightarrow> length part = b + 1"
    unfolding s2 [symmetric] using Some s1
    by (cases "slice part (b + 1) (length part - 1)") (auto simp: path_part_def)
  also have "\<dots> \<longleftrightarrow> dangling_bracket part"
  proof
    assume "length part = b + 1"
    with b have "part = take b part @ ''[''" using take_Suc_conv_app_nth [of b part] by simp
    with b show "dangling_bracket part" unfolding dangling_bracket_def by blast
  next
    assume "dangling_bracket part"
    then show "length part = b + 1" using Some find_char_append
      by (auto simp: dangling_bracket_def)
  qed
  finally show ?thesis .
qed

lemma path_part_no_other_error: "path_part j part = Inl e \<Longrightarrow> e = Panic"
  by (auto simp: path_part_def and_then_Inl_iff ok_or_Inl_iff split: option.splits)

lemma walk_path_panic:
  "walk_path j parts = Inl e \<Longrightarrow> \<exists>j' part. part \<in> set parts \<and> path_part j' part = Inl e"
  by (induction j parts rule: walk_path.induct) (fastforce simp: and_then_Inl_iff split: option.splits)+

section \<open>Facts about addresses, ports and lists\<close>

definition address_entry :: "string \<Rightarrow> json \<Rightarrow> string option" where
  "address_entry t e =
     (case (get_field e ''type'', get_field e ''address'') of
        (Some (JString t'), Some (JString a)) \<Rightarrow> if t' = t then Some a else None
      | _ \<Rightarrow> None)"

lemma find_address_Cons:
  "find_address t (e # es) =
     (case address_entry t e of Some a \<Rightarrow> Some a | None \<Rightarrow> find_address t es)"
  by (auto simp: address_entry_def split: option.splits json.splits)

declare find_address.simps(2) [simp del]

lemma find_address_find:
  "find_address t es = Option.bind (find (\<lambda>e. address_entry t e \<noteq> None) es) (address_entry t)"
  by (induction es) (auto simp: find_address_Cons split: option.splits)

lemma find_address_Some:
  "find_address t es = Some a \<Longrightarrow>
     \<exists>i<length es. address_entry t (es ! i) = Some a \<and> (\<forall>k<i. address_entry t (es ! k) = None)"
  by (auto simp: find_address_find bind_eq_Some_conv find_Some_iff)

lemma port_of_number_Inr_iff:
  "port_of_number n = Inr p \<longleftrightarrow> (\<exists>v. n = PosInt v \<and> unat v \<le> 65535 \<and> p = ucast v)"
  by (cases n) (auto simp: ok_or_Inr_iff)

lemma unat_ucast_u16: "unat (v :: u64) \<le> 65535 \<Longrightarrow> unat (ucast v :: u16) = unat v"
  by (simp add: unsigned_ucast_eq take_bit_nat_eq_self)

lemma query_resources_snapshot_Inr:
  "query_resources_snapshot api ns m sq ls an = Inr (items, version) \<Longrightarrow>
     \<exists>resp. api_list api (list_request_of ns m ls) = Inr resp
       \<and> items = filter (\<lambda>r. (case sq of None \<Rightarrow> True | Some q \<Rightarrow> matches_status_query r q = Inr True)
           \<and> (case an of None \<Rightarrow> True | Some a \<Rightarrow> matches_annotation_selector r a)) (lresp_items resp)
       \<and> version = (case lresp_version resp of None \<Rightarrow> [] | Some v \<Rightarrow> v)"
  by (cases sq; cases an)
     (auto simp: query_resources_snapshot_def result_simps Let_def split: sum.splits
        dest!: try_filter_Inr)

lemma watch_stream_Inr_iff:
  "watch_stream es = Inr () \<longleftrightarrow>
     (case dropWhile (\<lambda>e. e = Inr Bookmark) es of
        [] \<Rightarrow> True | e # _ \<Rightarrow> e = Inr OtherEvent \<or> e = Inr (WatchError 410))"
  by (induction es rule: watch_stream.induct) auto

section \<open>Sample objects\<close>

text \<open>Small concrete objects on which the witnesses evaluate the model.\<close>

definition sample_meta :: "string \<Rightarrow> (string, string) hashmap \<Rightarrow> object_meta" where
  "sample_meta n labels =
     \<lparr>om_name = Some n, om_uid = Some n, om_resource_version = Some ''1'', om_labels = Some labels,
      om_annotations = None, om_deletion_timestamp = None\<rparr>"

definition sample_resource :: "string \<Rightarrow> string \<Rightarrow> (string, string) hashmap \<Rightarrow> dynamic_object" where
  "sample_resource n addr labels =
     \<lparr>do_metadata = sample_meta n labels,
      do_json = Some (JObject
        [(''status'', JObject [(''podIP'', JString addr)]),
         (''spec'', JObject [(''containers'', JArray [JObject [(''ports'', JArray
            [JObject [(''name'', JString ''game''), (''containerPort'', JNumber (PosInt 7777))]])]])])])\<rparr>"

lemma sample_resource_address [simp]:
  "extract_address (sample_resource n addr labels) ''status.podIP'' None = Inr addr"
  by (simp add: sample_resource_def extract_address_def extract_json_path_def path_part_def)

lemma sample_resource_labels: "om_labels (do_metadata (sample_resource n addr labels)) = Some labels"
  by (simp add: sample_resource_def sample_meta_def)

lemma sample_resource_port [simp]:
  "extract_port (sample_resource n addr labels) path (Some ''game'') = Inr 7777"
  by (simp add: sample_resource_def extract_port_def status_ports_def container_ports_def)

section \<open>Properties\<close>

text \<open>
  C40. JSON-path extraction agrees with the reference semantics: for every path made of field and
  array-element steps whose names hold no dot and no bracket, walking the printed path text reaches
  exactly the value the steps denote, absent where a field, an array or an index is missing.
\<close>

theorem extract_json_path_correct:
  assumes "ps \<noteq> []" and "list_all plain_step ps"
  shows "extract_json_path j (show_path ps) = Inr (json_at j ps)"
  using assms by (simp add: extract_json_path_def split_show_path walk_path_show)

lemma extract_json_path_correct_witness:
  "extract_json_path
     (JObject [(''spec'', JObject [(''containers'', JArray [JObject [(''name'', JString ''game'')]])])])
     (show_path [Field ''spec'', Elem ''containers'' 0, Field ''name''])
   = Inr (Some (JString ''game''))"
  by (subst extract_json_path_correct) simp_all

text \<open>
  The only failure of a path walk is a panic of the slicing, and for an ASCII path it needs a
  part whose first opening bracket is its last byte; every other path yields a value or nothing.
\<close>

theorem extract_json_path_failure:
  assumes "is_ascii path" and "extract_json_path j path = Inl e"
  shows "e = Panic \<and> (\<exists>part\<in>set (split_on CHR ''.'' path). dangling_bracket part)"
proof -
  obtain j' part where part: "part \<in> set (split_on CHR ''.'' path)" "path_part j' part = Inl e"
    using assms(2) walk_path_panic unfolding extract_json_path_def by blast
  have "is_ascii part"
    using assms(1) part(1) set_split_on by (fastforce simp: list_all_iff)
  then show ?thesis
    using part path_part_no_other_error path_part_panic_iff by blast
qed

lemma extract_json_path_failure_witness:
  "\<exists>part\<in>set (split_on CHR ''.'' ''status.ports[''). dangling_bracket part"
proof -
  have "extract_json_path (JObject [(''status'', JNull)]) ''status.ports['' = Inl Panic"
    by (simp add: extract_json_path_def path_part_def slice_def is_char_boundary_def)
  then show ?thesis using extract_json_path_failure [of "''status.ports[''"] by fastforce
qed

text \<open>
  A path text that ends in an opening bracket with no index makes the extraction panic,
  whatever the resource holds.
\<close>

theorem extract_json_path_dangling_panics:
  assumes "CHR ''['' \<notin> set f" and "CHR ''.'' \<notin> set f"
  shows "extract_json_path j (f @ ''['') = Inl Panic"
proof -
  have "slice (f @ ''['') (length f + 1) (length f) = None" by (simp add: slice_def)
  moreover have "slice (f @ ''['') 0 (length f) \<noteq> None"
    by (simp add: slice_def is_char_boundary_def)
  ultimately have "path_part j (f @ ''['') = Inl Panic"
    using assms(1) by (auto simp: path_part_def find_char_append)
  then show ?thesis
    using assms(2) by (simp add: extract_json_path_def split_on_no_sep)
qed

lemma extract_json_path_dangling_panics_witness:
  "extract_json_path JNull ''ports['' = Inl Panic"
  using extract_json_path_dangling_panics [of "''ports''" JNull] by simp

text \<open>
  With an address type configured, the extracted address is that of the first entry of the
  addresses array that has this type and a textual address; every earlier entry is of another type
  or has none.
\<close>

theorem extract_address_typed:
  assumes "extract_address r path (Some t) = Inr a"
  shows "\<exists>j entries i. do_json r = Some j \<and> extract_json_path j path = Inr (Some (JArray entries))
    \<and> i < length entries \<and> address_entry t (entries ! i) = Some a
    \<and> (\<forall>k<i. address_entry t (entries ! k) = None)"
proof -
  obtain j val where j: "do_json r = Some j" "extract_json_path j path = Inr (Some val)"
    and v: "(case val of
            JArray addresses \<Rightarrow> ok_or (AddressTypeNotFound t) (find_address t addresses)
          | _ \<Rightarrow> Inl (AddressNotArray path)) = Inr a"
    using assms by (auto simp: extract_address_def result_simps)
  from v obtain entries where "val = JArray entries" "find_address t entries = Some a"
    by (cases val) (auto simp: result_simps)
  with j show ?thesis using find_address_Some by blast
qed

lemma extract_address_typed_witness:
  "\<exists>i<2. address_entry ''PodIP''
      ([JObject [(''type'', JString ''Hostname''), (''address'', JString ''n'')],
        JObject [(''type'', JString ''PodIP''), (''address'', JString ''10.0.0.1'')]] ! i)
      = Some ''10.0.0.1''"
proof -
  let ?es = "[JObject [(''type'', JString ''Hostname''), (''address'', JString ''n'')],
        JObject [(''type'', JString ''PodIP''), (''address'', JString ''10.0.0.1'')]]"
  let ?m = "\<lparr>om_name = None, om_uid = None, om_resource_version = None, om_labels = None,
     om_annotations = None, om_deletion_timestamp = None\<rparr>"
  let ?r = "\<lparr>do_metadata = ?m, do_json = Some (JObject [(''addresses'', JArray ?es)])\<rparr>"
  have path: "extract_json_path (JObject [(''addresses'', JArray ?es)]) ''addresses'' = Inr (Some (JArray ?es))"
    by (simp add: extract_json_path_def path_part_def)
  then have "extract_address ?r ''addresses'' (Some ''PodIP'') = Inr ''10.0.0.1''"
    by (simp add: extract_address_def find_address_Cons address_entry_def)
  from extract_address_typed [OF this] path
  obtain i where "i < length ?es" "address_entry ''PodIP'' (?es ! i) = Some ''10.0.0.1''"
    by auto
  then show ?thesis by (intro exI [of _ i]) simp
qed

text \<open>
  A port looked up by name is the number of the first matching entry of the status ports, and
  only when none matches there, of the container ports; the number lies between 0 and 65535, so
  nothing is truncated.
\<close>

theorem extract_port_named:
  assumes "extract_port r path (Some name) = Inr p"
  shows "\<exists>j v. do_json r = Some j \<and> unat (v :: u64) = unat p \<and>
    (find_named_port name ''port'' (status_ports j) = Some (PosInt v)
     \<or> find_named_port name ''port'' (status_ports j) = None
       \<and> find_named_port name ''containerPort'' (container_ports j) = Some (PosInt v))"
proof -
  obtain j where j: "do_json r = Some j"
    using assms by (auto simp: extract_port_def result_simps)
  show ?thesis
  proof (cases "find_named_port name ''port'' (status_ports j)")
    case None
    with assms j show ?thesis
      by (auto simp: extract_port_def port_of_number_Inr_iff unat_ucast_u16 simp del: port_of_number.simps
          split: option.splits)
  next
    case (Some num)
    with assms j show ?thesis
      by (auto simp: extract_port_def port_of_number_Inr_iff unat_ucast_u16 simp del: port_of_number.simps)
  qed
qed

lemma extract_port_named_witness:
  "\<exists>v. unat (v :: u64) = unat (7777 :: u16) \<and>
     find_named_port ''game'' ''containerPort''
       [JObject [(''name'', JString ''game''), (''containerPort'', JNumber (PosInt 7777))]] = Some (PosInt v)"
proof -
  let ?ps = "[JObject [(''name'', JString ''game''), (''containerPort'', JNumber (PosInt 7777))]]"
  let ?m = "\<lparr>om_name = None, om_uid = None, om_resource_version = None, om_labels = None,
     om_annotations = None, om_deletion_timestamp = None\<rparr>"
  let ?j = "JObject [(''spec'', JObject [(''containers'', JArray [JObject [(''ports'', JArray ?ps)]])])]"
  let ?r = "\<lparr>do_metadata = ?m, do_json = Some ?j\<rparr>"
  have "extract_port ?r None (Some ''game'') = Inr 7777"
    by (simp add: extract_port_def status_ports_def container_ports_def)
  then show ?thesis using extract_port_named [of ?r None "''game''" 7777]
    by (simp add: status_ports_def container_ports_def)
qed

text \<open>
  Waiting for a Pod change reports a change, rather than an error, exactly when the list had a
  version and either the watch call or the first event that is not a bookmark says that the version
  expired (410), or that event is a real change, or the stream ends; bookmarks never end the wait.
\<close>

theorem wait_for_pod_change_iff:
  "wait_for_pod_change version watch = Inr () \<longleftrightarrow>
     version \<noteq> [] \<and>
     (case watch of
        Inl e \<Rightarrow> e = ApiError 410
      | Inr es \<Rightarrow> (case dropWhile (\<lambda>e. e = Inr Bookmark) es of
          [] \<Rightarrow> True | e # _ \<Rightarrow> e = Inr OtherEvent \<or> e = Inr (WatchError 410)))"
  by (auto simp: wait_for_pod_change_def result_simps watch_stream_Inr_iff
      split: sum.splits kube_error.splits if_splits)

end
