(* ===== verification/Characters.thy ===== *)
theory Characters
  imports K8sClient
begin

text \<open>
  \<open>src/characters.rs\<close>: which characters a Pod's labels show at a time. Instants are nanoseconds on
  the time line (\<open>OffsetDateTime\<close> compares instants); the RFC 3339 parser of the \<open>time\<close> package and
  the JSON parser for the annotation are parameters (\<open>codecs\<close>). The lemmas say when a label is
  visible, that the list is strictly sorted by identifier, and that a request filters it.
\<close>

section \<open>Model\<close>

datatype character_status = Allocated | Used | Disconnected

record character =
  ch_id :: string
  ch_status :: character_status
  ch_disconnected_at :: "string option"

record character_server =
  cs_server :: string
  cs_characters :: "character list"

record codecs =
  parse_rfc3339 :: "string \<Rightarrow> int option"
  parse_string_map :: "string \<Rightarrow> (string, string) hashmap option"

definition RECONNECT_SECONDS :: int where
  "RECONNECT_SECONDS = 120"

abbreviation seconds :: "int \<Rightarrow> int" where
  "seconds s \<equiv> s * 1000000000"

definition status_of_label :: "string \<Rightarrow> character_status option" where
  "status_of_label val =
     (if val = ''Allocated'' then Some Allocated
      else if val = ''Used'' then Some Used
      else if val = ''Disconnected'' then Some Disconnected
      else None)"

definition disconnect_times :: "codecs \<Rightarrow> config \<Rightarrow> pod \<Rightarrow> (string, string) hashmap" where
  "disconnect_times cd cfg p =
     (case om_annotations (pod_metadata p) of
        None \<Rightarrow> []
      | Some a \<Rightarrow> (case hm_get a (cfg_disconnect_annotation cfg) of
          None \<Rightarrow> []
        | Some val \<Rightarrow> (case parse_string_map cd val of None \<Rightarrow> [] | Some m \<Rightarrow> m)))"

definition character_prefix :: "config \<Rightarrow> string" where
  "character_prefix cfg = cfg_character_label_prefix cfg @ ''/''"

text \<open>One iteration of the loop over the labels; \<open>None\<close> is its \<open>continue\<close>.\<close>

definition character_of_label ::
  "codecs \<Rightarrow> config \<Rightarrow> (string, string) hashmap \<Rightarrow> string list \<Rightarrow> int \<Rightarrow> string \<times> string
   \<Rightarrow> character option" where
  "character_of_label cd cfg disconnected requested now entry =
     (case strip_prefix (character_prefix cfg) (fst entry) of
        None \<Rightarrow> None
      | Some cid \<Rightarrow>
          if \<not> valid_character_id cid \<or> (requested \<noteq> [] \<and> \<not> list_ex (\<lambda>r. r = cid) requested)
          then None
          else (case status_of_label (snd entry) of
              None \<Rightarrow> None
            | Some status \<Rightarrow>
                if status = Disconnected
                then (case hm_get disconnected cid of
                    None \<Rightarrow> None
                  | Some raw \<Rightarrow> (case parse_rfc3339 cd raw of
                      None \<Rightarrow> None
                    | Some at \<Rightarrow>
                        if now < at \<or> now \<ge> at + seconds RECONNECT_SECONDS then None
                        else Some \<lparr>ch_id = cid, ch_status = status, ch_disconnected_at = Some raw\<rparr>))
                else Some \<lparr>ch_id = cid, ch_status = status, ch_disconnected_at = None\<rparr>))"

definition characters_on_pod ::
  "codecs \<Rightarrow> config \<Rightarrow> pod \<Rightarrow> string list \<Rightarrow> int \<Rightarrow> character list" where
  "characters_on_pod cd cfg p requested now =
     sort_key ch_id
       (List.map_filter (character_of_label cd cfg (disconnect_times cd cfg p) requested now)
         (case om_labels (pod_metadata p) of None \<Rightarrow> [] | Some labels \<Rightarrow> labels))"

section \<open>Visibility\<close>

abbreviation pod_labels :: "pod \<Rightarrow> (string, string) hashmap" where
  "pod_labels p \<equiv> (case om_labels (pod_metadata p) of None \<Rightarrow> [] | Some labels \<Rightarrow> labels)"

definition pod_wf :: "pod \<Rightarrow> bool" where
  "pod_wf p \<longleftrightarrow> hm_wf (pod_labels p)"

text \<open>
  What a label with this status value shows at a time: the rule the occupancy controller and the
  director share.
\<close>

definition label_shows ::
  "codecs \<Rightarrow> (string, string) hashmap \<Rightarrow> int \<Rightarrow> string \<Rightarrow> string \<Rightarrow> character_status
   \<Rightarrow> string option \<Rightarrow> bool" where
  "label_shows cd disconnected now cid val status since \<longleftrightarrow>
     (val = ''Allocated'' \<and> status = Allocated \<and> since = None)
     \<or> (val = ''Used'' \<and> status = Used \<and> since = None)
     \<or> (val = ''Disconnected'' \<and> status = Disconnected
        \<and> (\<exists>raw at. hm_get disconnected cid = Some raw \<and> since = Some raw
             \<and> parse_rfc3339 cd raw = Some at
             \<and> at \<le> now \<and> now < at + seconds RECONNECT_SECONDS))"

lemma character_of_label_Some:
  "character_of_label cd cfg disc req now (key, val) = Some c \<longleftrightarrow>
     key = character_prefix cfg @ ch_id c \<and> valid_character_id (ch_id c)
     \<and> (req = [] \<or> ch_id c \<in> set req)
     \<and> label_shows cd disc now (ch_id c) val (ch_status c) (ch_disconnected_at c)"
proof (cases "strip_prefix (character_prefix cfg) key")
  case None
  then have "key \<noteq> character_prefix cfg @ ch_id c" by auto
  with None show ?thesis by (simp add: character_of_label_def)
next
  case (Some cid)
  then have key: "key = character_prefix cfg @ cid" by (simp add: strip_prefix_Some_iff)
  show ?thesis
    by (cases c)
       (auto simp: character_of_label_def key status_of_label_def label_shows_def list_ex_iff
          split: option.splits if_splits)
qed

lemma characters_on_pod_set:
  "c \<in> set (characters_on_pod cd cfg p req now) \<longleftrightarrow>
     (\<exists>val. (character_prefix cfg @ ch_id c, val) \<in> set (pod_labels p)
        \<and> label_shows cd (disconnect_times cd cfg p) now (ch_id c) val (ch_status c)
            (ch_disconnected_at c))
     \<and> valid_character_id (ch_id c) \<and> (req = [] \<or> ch_id c \<in> set req)"
  by (auto simp: characters_on_pod_def set_map_filter character_of_label_Some)

lemma distinct_map_filter_ids:
  "hm_wf labels \<Longrightarrow>
     distinct (map ch_id (List.map_filter (character_of_label cd cfg disc req now) labels))"
proof (induction labels)
  case (Cons kv labels)
  obtain key val where kv: "kv = (key, val)" by force
  show ?case
  proof (cases "character_of_label cd cfg disc req now kv")
    case None
    with Cons show ?thesis by (simp add: List.map_filter_def)
  next
    case (Some c)
    have "ch_id c \<noteq> ch_id c'" if "c' \<in> set (List.map_filter (character_of_label cd cfg disc req now) labels)" for c'
      using that Some Cons.prems by (force simp: set_map_filter kv character_of_label_Some)
    with Some Cons show ?thesis by (auto simp: List.map_filter_def)
  qed
qed (simp add: List.map_filter_def)

lemma characters_on_pod_distinct:
  "pod_wf p \<Longrightarrow> distinct (map ch_id (characters_on_pod cd cfg p req now))"
  using distinct_map_filter_ids [of "pod_labels p"]
  by (simp add: pod_wf_def characters_on_pod_def distinct_map distinct_sort inj_on_def)

lemma filter_map_filter:
  "(\<And>x. x \<in> set xs \<Longrightarrow> g x = (case f x of Some y \<Rightarrow> if P y then Some y else None | None \<Rightarrow> None)) \<Longrightarrow>
     List.map_filter g xs = filter P (List.map_filter f xs)"
  by (induction xs) (auto simp: List.map_filter_def split: option.splits)

lemma character_of_label_requested:
  "req \<noteq> [] \<Longrightarrow> character_of_label cd cfg disc req now kv =
     (case character_of_label cd cfg disc [] now kv of
        Some c \<Rightarrow> if ch_id c \<in> set req then Some c else None | None \<Rightarrow> None)"
  by (auto simp: character_of_label_def list_ex_iff split: option.splits if_splits)

section \<open>Properties\<close>

text \<open>
  A Pod with one used, one freshly disconnected character and one label that is no character, and a
  parser that reads one time.
\<close>

definition sample_codecs :: codecs where
  "sample_codecs =
     \<lparr>parse_rfc3339 = (\<lambda>t. if t = ''T'' then Some 0 else None),
      parse_string_map = (\<lambda>t. if t = ''M'' then Some [(''b'', ''T'')] else None)\<rparr>"

definition sample_pod :: pod where
  "sample_pod =
     \<lparr>pod_metadata = \<lparr>om_name = Some ''p'', om_uid = Some ''u'', om_resource_version = Some ''1'',
        om_labels = Some [(''c/b'', ''Disconnected''), (''c/a'', ''Used''), (''app'', ''x'')],
        om_annotations = Some [(''d'', ''M'')], om_deletion_timestamp = None\<rparr>,
      pod_status_of = Some \<lparr>ps_phase = Some ''Running'', ps_pod_ip = Some ''10.0.0.1'',
        ps_conditions = Some [\<lparr>pc_type = ''Ready'', pc_status = ''True''\<rparr>]\<rparr>\<rparr>"

definition char_used :: character where
  "char_used = \<lparr>ch_id = ''a'', ch_status = Used, ch_disconnected_at = None\<rparr>"

definition char_away :: character where
  "char_away = \<lparr>ch_id = ''b'', ch_status = Disconnected, ch_disconnected_at = Some ''T''\<rparr>"

lemmas sample_pod_defs = sample_codecs_def sample_pod_def char_used_def char_away_def
  sample_config_defs character_prefix_def disconnect_times_def RECONNECT_SECONDS_def

lemma sample_pod_wf: "pod_wf sample_pod"
  by (simp add: pod_wf_def sample_pod_def)

lemma sample_pod_characters:
  "characters_on_pod sample_codecs sample_config sample_pod req now =
     filter (\<lambda>c. (req = [] \<or> ch_id c \<in> set req)
         \<and> (c = char_used \<or> 0 \<le> now \<and> now < 120000000000)) [char_used, char_away]"
  by (simp add: characters_on_pod_def character_of_label_def List.map_filter_def sample_pod_defs
      valid_character_id_def is_ascii_alphanumeric_def status_of_label_def list_ex_iff)

text \<open>
  C30. A character is listed for a Pod exactly when the Pod carries the label
  \<open>prefix/character-id\<close> with a valid identifier that was asked for (or nothing was asked for), and
  the label's value shows it: Allocated and Used always, Disconnected only from its recorded
  disconnect time until strictly before 120 seconds later, never without a readable time.
\<close>

theorem characters_on_pod_visible:
  assumes "pod_wf p"
  shows "c \<in> set (characters_on_pod cd cfg p req now) \<longleftrightarrow>
     valid_character_id (ch_id c) \<and> (req = [] \<or> ch_id c \<in> set req)
     \<and> (\<exists>val. hm_get (pod_labels p) (character_prefix cfg @ ch_id c) = Some val
        \<and> label_shows cd (disconnect_times cd cfg p) now (ch_id c) val (ch_status c)
            (ch_disconnected_at c))"
  unfolding characters_on_pod_set hm_get_in_set [OF assms [unfolded pod_wf_def]] by blast

lemma characters_on_pod_visible_witness:
  "char_away \<in> set (characters_on_pod sample_codecs sample_config sample_pod [] 119999999999)
   \<and> char_away \<notin> set (characters_on_pod sample_codecs sample_config sample_pod [] 120000000000)"
  unfolding characters_on_pod_visible [OF sample_pod_wf]
  by (simp add: sample_pod_defs label_shows_def valid_character_id_def is_ascii_alphanumeric_def)

text \<open>
  The listed characters are strictly sorted by identifier: no character appears twice on a Pod,
  and the reply order does not depend on the order in which the labels are stored.
\<close>

theorem characters_on_pod_strictly_sorted:
  assumes "pod_wf p"
  shows "sorted_wrt (<) (map ch_id (characters_on_pod cd cfg p req now))"
  using characters_on_pod_distinct [OF assms]
  by (simp add: strict_sorted_iff characters_on_pod_def)

lemma characters_on_pod_strictly_sorted_witness:
  "sorted_wrt (<) (map ch_id (characters_on_pod sample_codecs sample_config sample_pod [] 5))
   \<and> characters_on_pod sample_codecs sample_config sample_pod [] 5 = [char_used, char_away]"
  using characters_on_pod_strictly_sorted [OF sample_pod_wf]
  by (simp only: sample_pod_characters) (simp add: char_used_def char_away_def)

text \<open>
  Asking for particular characters lists exactly those of the full list that were asked for, in
  the same order.
\<close>

theorem characters_on_pod_requested:
  assumes "req \<noteq> []"
  shows "characters_on_pod cd cfg p req now =
    filter (\<lambda>c. ch_id c \<in> set req) (characters_on_pod cd cfg p [] now)"
proof -
  let ?f = "\<lambda>req. List.map_filter (character_of_label cd cfg (disconnect_times cd cfg p) req now) (pod_labels p)"
  have "?f req = filter (\<lambda>c. ch_id c \<in> set req) (?f [])"
    by (rule filter_map_filter) (rule character_of_label_requested [OF assms])
  then show ?thesis by (simp add: characters_on_pod_def filter_sort)
qed

lemma characters_on_pod_requested_witness:
  "characters_on_pod sample_codecs sample_config sample_pod [''b'', ''z''] 5 = [char_away]"
  using characters_on_pod_requested [of "[''b'', ''z'']" sample_codecs sample_config sample_pod 5]
  by (simp only: sample_pod_characters) (simp add: char_used_def char_away_def)

end
