(* ===== verification/Selection.thy ===== *)
theory Selection
  imports Prelude
begin

text \<open>
  The contract of every selection in the program (the two load-balancing strategies and the choice
  of the server for an access query): from a list of candidates, the pick is the first of those with
  the least key. The clients' facts are proved from the contract; \<open>first_least\<close>, which sorts and takes
  the head as the code does, provides it.
\<close>

locale selection =
  fixes pick :: "'a list \<Rightarrow> 'a option"
    and key :: "'a \<Rightarrow> 'k :: linorder"
  assumes pick_None: "pick xs = None \<longleftrightarrow> xs = []"
    and pick_in: "pick xs = Some x \<Longrightarrow> x \<in> set xs"
    and pick_least: "pick xs = Some x \<Longrightarrow> y \<in> set xs \<Longrightarrow> key x \<le> key y"
    and pick_first: "pick xs = Some x \<Longrightarrow> find (\<lambda>y. key y = key x) xs = Some x"
begin

lemma pick_exists: "xs \<noteq> [] \<Longrightarrow> \<exists>x. pick xs = Some x"
  using pick_None [of xs] by blast

lemma pick_unique:
  assumes "x \<in> set xs" and least: "\<And>y. y \<in> set xs \<Longrightarrow> key x \<le> key y"
    and first: "find (\<lambda>y. key y = key x) xs = Some x"
  shows "pick xs = Some x"
proof -
  from assms(1) have "xs \<noteq> []" by auto
  then obtain z where z: "pick xs = Some z" using pick_exists by blast
  have "key z = key x"
    using pick_least [OF z assms(1)] least [OF pick_in [OF z]] by simp
  with pick_first [OF z] have "find (\<lambda>y. key y = key x) xs = Some z" by (simp only:)
  with first have "z = x" by (simp only: option.inject)
  with z show ?thesis by (simp only:)
qed

text \<open>A candidate strictly ahead of all others is picked wherever it stands.\<close>

lemma pick_strictly_ahead:
  assumes "x \<in> set xs" and ahead: "\<And>y. y \<in> set xs \<Longrightarrow> y \<noteq> x \<Longrightarrow> key x < key y"
  shows "pick xs = Some x"
proof -
  obtain z where z: "pick xs = Some z" using assms(1) pick_exists by (cases xs) auto
  show ?thesis
  proof (cases "z = x")
    case False
    then have "key x < key z" using ahead pick_in [OF z] by blast
    with pick_least [OF z assms(1)] show ?thesis by simp
  qed (use z in simp)
qed

text \<open>Whatever precedes the pick has a strictly larger key.\<close>

lemma pick_before:
  assumes "pick xs = Some x"
  shows "\<exists>pre post. xs = pre @ x # post \<and> (\<forall>y\<in>set pre. key x < key y)"
proof -
  obtain i where i: "i < length xs" "xs ! i = x" "\<forall>j<i. key (xs ! j) \<noteq> key x"
    using pick_first [OF assms] by (auto simp: find_Some_iff)
  have "key x < key y" if "y \<in> set (take i xs)" for y
  proof -
    obtain j where "j < i" "y = xs ! j" using \<open>y \<in> set (take i xs)\<close> i(1)
      by (auto simp: in_set_conv_nth)
    then show ?thesis using i(1,3) pick_least [OF assms] by (metis nth_mem order_less_trans order_le_less)
  qed
  moreover have "xs = take i xs @ x # drop (Suc i) xs" using i id_take_nth_drop by metis
  ultimately show ?thesis by blast
qed

end

interpretation least: selection "first_least key" key
  for key :: "'a \<Rightarrow> 'k :: linorder"
proof
  fix xs :: "'a list" and x y
  show "first_least key xs = None \<longleftrightarrow> xs = []" by simp
  assume x: "first_least key xs = Some x"
  note hd = first_least_Some_hd [OF x]
  show "x \<in> set xs" using hd sort_key_hd_in [of xs key] by simp
  show "key x \<le> key y" if "y \<in> set xs" using hd sort_key_hd_le [OF that, of key] by simp
  have "filter (\<lambda>z. key z = key x) xs \<noteq> []"
    using hd sort_key_hd_in [of xs key] by (auto simp: filter_empty_conv)
  moreover have "x = hd (filter (\<lambda>z. key z = key x) xs)"
    using hd sort_key_hd_first [of xs key] by simp
  ultimately show "find (\<lambda>y. key y = key x) xs = Some x"
    by (metis find_hd_filter)
qed

end
