(* ===== verification/LoadBalancer.thy ===== *)
theory LoadBalancer
  imports K8sClient Selection "HOL-Library.Multiset"
begin

text \<open>
  \<open>src/load_balancer.rs\<close>: the per-backend session counts and the two selection strategies. Counts are
  \<open>usize\<close> values, modelled as natural numbers (they count live sessions); the capacity arithmetic is
  on 64-bit words, wrapping as the release build does, and compared as signed.
\<close>

section \<open>State and counting\<close>

record load_balancer =
  lb_strategy_of :: load_balancing_strategy
  lb_session_counts :: "(string, nat) hashmap"

definition lb_new :: "load_balancing_strategy \<Rightarrow> load_balancer" where
  "lb_new strategy = \<lparr>lb_strategy_of = strategy, lb_session_counts = []\<rparr>"

definition get_session_count :: "load_balancer \<Rightarrow> string \<Rightarrow> nat" where
  "get_session_count lb addr =
     (case hm_get (lb_session_counts lb) addr of None \<Rightarrow> 0 | Some v \<Rightarrow> v)"

definition increment_session :: "string \<Rightarrow> load_balancer \<Rightarrow> load_balancer" where
  "increment_session addr lb =
     lb\<lparr>lb_session_counts := hm_insert addr
       (Suc (case hm_get (lb_session_counts lb) addr of None \<Rightarrow> 0 | Some v \<Rightarrow> v))
       (lb_session_counts lb)\<rparr>"

definition decrement_session :: "string \<Rightarrow> load_balancer \<Rightarrow> load_balancer" where
  "decrement_session addr lb =
     (case hm_get (lb_session_counts lb) addr of
        Some entry \<Rightarrow>
          if entry > 0
          then lb\<lparr>lb_session_counts := hm_insert addr (entry - 1) (lb_session_counts lb)\<rparr>
          else lb
      | None \<Rightarrow> lb)"

definition get_total_sessions :: "load_balancer \<Rightarrow> nat" where
  "get_total_sessions lb = sum_list (map snd (lb_session_counts lb))"

definition clear_backend :: "string \<Rightarrow> load_balancer \<Rightarrow> load_balancer" where
  "clear_backend addr lb = lb\<lparr>lb_session_counts := hm_remove addr (lb_session_counts lb)\<rparr>"

definition get_all_session_counts :: "load_balancer \<Rightarrow> (string \<times> nat) list" where
  "get_all_session_counts lb = lb_session_counts lb"

section \<open>Least sessions\<close>

text \<open>
  Building the backend list: a resource whose address cannot be extracted is skipped, a panic of the
  extraction is not caught.
\<close>

fun least_backends ::
  "load_balancer \<Rightarrow> string \<Rightarrow> string option \<Rightarrow> dynamic_object list
   \<Rightarrow> error + (dynamic_object \<times> string \<times> nat) list" where
  "least_backends lb path ty [] = Inr []"
| "least_backends lb path ty (r # rs) =
     (case extract_address r path ty of
        Inl Panic \<Rightarrow> Inl Panic
      | Inl _ \<Rightarrow> least_backends lb path ty rs
      | Inr addr \<Rightarrow> and_then (least_backends lb path ty rs) (\<lambda>bs.
          Inr ((r, addr, get_session_count lb addr) # bs)))"

definition select_least_sessions ::
  "load_balancer \<Rightarrow> dynamic_object list \<Rightarrow> string \<Rightarrow> string option \<Rightarrow> error + dynamic_object" where
  "select_least_sessions lb resources path ty =
     and_then (least_backends lb path ty resources) (\<lambda>backends.
       ok_or NoValidBackends (map_option fst (first_least (\<lambda>(_, _, count). count) backends)))"

section \<open>Label arithmetic\<close>

definition current_value :: "string \<Rightarrow> (string, string) hashmap \<Rightarrow> int option" where
  "current_value label labels =
     (case hm_get labels label of Some val \<Rightarrow> parse_i64 val | None \<Rightarrow> Some 0)"

definition max_value :: "string \<Rightarrow> (string, string) hashmap \<Rightarrow> int option" where
  "max_value label labels =
     (case hm_get labels label of Some val \<Rightarrow> parse_i64 val | None \<Rightarrow> None)"

definition available_capacity :: "int \<Rightarrow> int \<Rightarrow> nat \<Rightarrow> i64 \<Rightarrow> i64" where
  "available_capacity mx cur sessions ovl = word_of_int mx - word_of_int cur - of_nat sessions - ovl"

text \<open>A resource that is a candidate: its available capacity and its current load.\<close>

definition arithmetic_candidate ::
  "load_balancer \<Rightarrow> string \<Rightarrow> string \<Rightarrow> i64 \<Rightarrow> dynamic_object \<Rightarrow> string \<Rightarrow> (i64 \<times> int) option" where
  "arithmetic_candidate lb cur_label mx_label ovl r addr =
     (let labels = (case om_labels (do_metadata r) of None \<Rightarrow> [] | Some l \<Rightarrow> l) in
      case current_value cur_label labels of
        None \<Rightarrow> None
      | Some cur \<Rightarrow>
          (case max_value mx_label labels of
             None \<Rightarrow> None
           | Some mx \<Rightarrow>
               let available = available_capacity mx cur (get_session_count lb addr) ovl
               in if sint available > 0 then Some (available, cur) else None))"

fun arithmetic_candidates ::
  "load_balancer \<Rightarrow> string \<Rightarrow> string option \<Rightarrow> string \<Rightarrow> string \<Rightarrow> i64 \<Rightarrow> dynamic_object list
   \<Rightarrow> error + (dynamic_object \<times> string \<times> i64 \<times> int) list" where
  "arithmetic_candidates lb path ty cur_label mx_label ovl [] = Inr []"
| "arithmetic_candidates lb path ty cur_label mx_label ovl (r # rs) =
     (case extract_address r path ty of
        Inl Panic \<Rightarrow> Inl Panic
      | Inl _ \<Rightarrow> arithmetic_candidates lb path ty cur_label mx_label ovl rs
      | Inr addr \<Rightarrow> and_then (arithmetic_candidates lb path ty cur_label mx_label ovl rs) (\<lambda>cs.
          Inr (case arithmetic_candidate lb cur_label mx_label ovl r addr of
                 None \<Rightarrow> cs
               | Some (available, cur) \<Rightarrow> (r, addr, available, cur) # cs)))"

text \<open>More available capacity first, then lower current load.\<close>

definition arithmetic_key :: "dynamic_object \<times> string \<times> i64 \<times> int \<Rightarrow> int reverse \<times> int" where
  "arithmetic_key c = (case c of (_, _, available, cur) \<Rightarrow> (Reverse (sint available), cur))"

definition select_label_arithmetic ::
  "load_balancer \<Rightarrow> dynamic_object list \<Rightarrow> string \<Rightarrow> string option \<Rightarrow> string \<Rightarrow> string \<Rightarrow> i64
   \<Rightarrow> error + dynamic_object" where
  "select_label_arithmetic lb resources path ty cur_label mx_label ovl =
     and_then (arithmetic_candidates lb path ty cur_label mx_label ovl resources) (\<lambda>candidates.
       ok_or (NoCapacity (length resources)) (map_option fst (first_least arithmetic_key candidates)))"

definition select_backend ::
  "load_balancer \<Rightarrow> dynamic_object list \<Rightarrow> string \<Rightarrow> string option \<Rightarrow> error + dynamic_object" where
  "select_backend lb resources path ty =
     (if resources = [] then Inl NoResources
      else case lb_strategy_of lb of
        LeastSessions \<Rightarrow> select_least_sessions lb resources path ty
      | LabelArithmetic cur_label mx_label ovl \<Rightarrow>
          select_label_arithmetic lb resources path ty cur_label mx_label ovl)"

section \<open>The counting contract\<close>

text \<open>
  What a table of per-backend counters promises; the proxy and the cleanup callback use it through
  these laws.
\<close>

locale session_counter =
  fixes inc :: "'k \<Rightarrow> 's \<Rightarrow> 's" and dec :: "'k \<Rightarrow> 's \<Rightarrow> 's" and count :: "'s \<Rightarrow> 'k \<Rightarrow> nat"
  assumes count_inc: "count (inc k s) k' = (if k' = k then Suc (count s k') else count s k')"
    and count_dec: "count (dec k s) k' = (if k' = k then count s k' - 1 else count s k')"
begin

lemma count_fold_inc: "count (fold inc ks s) k = count s k + count_list ks k"
  by (induction ks arbitrary: s) (auto simp: count_inc)

lemma count_fold_dec: "count (fold dec ks s) k = count s k - count_list ks k"
  by (induction ks arbitrary: s) (auto simp: count_dec)

text \<open>Sessions that all end bring the counter back.\<close>

lemma count_all_end:
  "mset ks = mset ks' \<Longrightarrow> count (fold dec ks' (fold inc ks s)) k = count s k"
  using count_mset [of ks k] count_mset [of ks' k] by (simp add: count_fold_dec count_fold_inc)

end

interpretation lbc: session_counter increment_session decrement_session get_session_count
  by unfold_locales
     (auto simp: increment_session_def decrement_session_def get_session_count_def
        split: option.splits)

section \<open>Facts about the selections\<close>

lemma least_backends_Inr:
  "least_backends lb path ty rs = Inr bs \<Longrightarrow>
     bs = List.map_filter (\<lambda>r. case extract_address r path ty of
        Inr addr \<Rightarrow> Some (r, addr, get_session_count lb addr) | Inl _ \<Rightarrow> None) rs"
proof (induction rs arbitrary: bs)
  case (Cons r rs)
  then show ?case
    by (cases "extract_address r path ty")
       (auto simp: List.map_filter_def result_simps split: error.splits)
qed (simp add: List.map_filter_def)

lemma arithmetic_candidates_Inr:
  "arithmetic_candidates lb path ty cl ml ovl rs = Inr cs \<Longrightarrow>
     cs = List.map_filter (\<lambda>r. case extract_address r path ty of
        Inr addr \<Rightarrow> map_option (\<lambda>(av, cur). (r, addr, av, cur)) (arithmetic_candidate lb cl ml ovl r addr)
      | Inl _ \<Rightarrow> None) rs"
proof (induction rs arbitrary: cs)
  case (Cons r rs)
  then show ?case
    by (cases "extract_address r path ty")
       (auto simp: List.map_filter_def result_simps split: error.splits option.splits)
qed (simp add: List.map_filter_def)

text \<open>
  The exact capacity, over the integers. Where it fits a 64-bit signed integer the wrapping
  subtractions compute it, whatever happens in between.
\<close>

definition exact_capacity :: "int \<Rightarrow> int \<Rightarrow> nat \<Rightarrow> i64 \<Rightarrow> int" where
  "exact_capacity mx cur sessions ovl = mx - cur - int sessions - sint ovl"

lemma sint_word_of_int_id: "- (2 ^ 63) \<le> x \<Longrightarrow> x < 2 ^ 63 \<Longrightarrow> sint (word_of_int x :: i64) = x"
  by (simp add: int_word_sint [of x, where ?'a = 64])

lemma available_capacity_wraps:
  "available_capacity mx cur sessions ovl = word_of_int (exact_capacity mx cur sessions ovl)"
proof -
  have "ovl = word_of_int (sint ovl)" by simp
  then show ?thesis
    unfolding available_capacity_def exact_capacity_def by (metis of_int_diff of_int_of_nat_eq)
qed

lemma available_capacity_exact:
  "- (2 ^ 63) \<le> exact_capacity mx cur n ovl \<Longrightarrow> exact_capacity mx cur n ovl < 2 ^ 63 \<Longrightarrow>
     sint (available_capacity mx cur n ovl) = exact_capacity mx cur n ovl"
  unfolding available_capacity_wraps by (rule sint_word_of_int_id)

text \<open>The capacity of a resource, over the integers, where address and labels can be read.\<close>

definition resource_capacity ::
  "load_balancer \<Rightarrow> string \<Rightarrow> string option \<Rightarrow> string \<Rightarrow> string \<Rightarrow> i64 \<Rightarrow> dynamic_object
   \<Rightarrow> (int \<times> int) option" where
  "resource_capacity lb path ty cl ml ovl r =
     (case extract_address r path ty of
        Inl _ \<Rightarrow> None
      | Inr addr \<Rightarrow>
          (let labels = (case om_labels (do_metadata r) of None \<Rightarrow> [] | Some l \<Rightarrow> l) in
           case (current_value cl labels, max_value ml labels) of
             (Some cur, Some mx) \<Rightarrow> Some (exact_capacity mx cur (get_session_count lb addr) ovl, cur)
           | _ \<Rightarrow> None))"

definition capacities_fit ::
  "load_balancer \<Rightarrow> string \<Rightarrow> string option \<Rightarrow> string \<Rightarrow> string \<Rightarrow> i64 \<Rightarrow> dynamic_object list \<Rightarrow> bool" where
  "capacities_fit lb path ty cl ml ovl rs \<longleftrightarrow>
     list_all (\<lambda>r. case resource_capacity lb path ty cl ml ovl r of
        None \<Rightarrow> True | Some (av, _) \<Rightarrow> - (2 ^ 63) \<le> av \<and> av < 2 ^ 63) rs"

definition no_panic :: "string \<Rightarrow> string option \<Rightarrow> dynamic_object list \<Rightarrow> bool" where
  "no_panic path ty rs \<longleftrightarrow> list_all (\<lambda>r. extract_address r path ty \<noteq> Inl Panic) rs"

lemma arithmetic_candidates_total:
  "no_panic path ty rs \<Longrightarrow> \<exists>cs. arithmetic_candidates lb path ty cl ml ovl rs = Inr cs"
proof (induction rs)
  case (Cons r rs)
  then obtain cs where "arithmetic_candidates lb path ty cl ml ovl rs = Inr cs"
    by (auto simp: no_panic_def)
  with Cons.prems show ?case
    by (cases "extract_address r path ty") (auto simp: no_panic_def split: error.splits)
qed simp

text \<open>Under the range condition a candidate is a resource with positive exact capacity.\<close>

lemma arithmetic_candidate_exact:
  assumes "case resource_capacity lb path ty cl ml ovl r of
      None \<Rightarrow> True | Some (av, _) \<Rightarrow> - (2 ^ 63) \<le> av \<and> av < 2 ^ 63"
    and "extract_address r path ty = Inr addr"
  shows "map_option (\<lambda>(av, cur). (sint av, cur)) (arithmetic_candidate lb cl ml ovl r addr) =
    (case resource_capacity lb path ty cl ml ovl r of
       None \<Rightarrow> None | Some (av, cur) \<Rightarrow> if av > 0 then Some (av, cur) else None)"
  using assms
  by (auto simp: resource_capacity_def arithmetic_candidate_def Let_def available_capacity_exact
      split: option.splits)

lemma arithmetic_candidates_set:
  assumes "arithmetic_candidates lb path ty cl ml ovl rs = Inr cs"
    and "capacities_fit lb path ty cl ml ovl rs"
  shows "(\<exists>addr av. (r, addr, av, cur) \<in> set cs \<and> sint av = x) \<longleftrightarrow>
    r \<in> set rs \<and> resource_capacity lb path ty cl ml ovl r = Some (x, cur) \<and> x > 0"
    (is "?L \<longleftrightarrow> ?R")
proof -
  have cs: "cs = List.map_filter (\<lambda>r. case extract_address r path ty of
        Inr addr \<Rightarrow> map_option (\<lambda>(av, cur). (r, addr, av, cur)) (arithmetic_candidate lb cl ml ovl r addr)
      | Inl _ \<Rightarrow> None) rs"
    by (rule arithmetic_candidates_Inr [OF assms(1)])
  have fit: "r \<in> set rs \<Longrightarrow> case resource_capacity lb path ty cl ml ovl r of
      None \<Rightarrow> True | Some (av, _) \<Rightarrow> - (2 ^ 63) \<le> av \<and> av < 2 ^ 63"
    using assms(2) by (auto simp: capacities_fit_def list_all_iff)
  have "?L \<longleftrightarrow> r \<in> set rs \<and> (\<exists>addr av. extract_address r path ty = Inr addr
      \<and> arithmetic_candidate lb cl ml ovl r addr = Some (av, cur) \<and> sint av = x)"
    unfolding cs set_map_filter sum_case_Some_iff by auto
  also have "\<dots> \<longleftrightarrow> ?R"
  proof (cases "r \<in> set rs")
    case True
    show ?thesis
    proof (cases "extract_address r path ty")
      case (Inl e)
      then show ?thesis by (simp add: resource_capacity_def)
    next
      case (Inr addr)
      have "(\<exists>av. arithmetic_candidate lb cl ml ovl r addr = Some (av, cur) \<and> sint av = x) \<longleftrightarrow>
        map_option (\<lambda>(av, cur). (sint av, cur)) (arithmetic_candidate lb cl ml ovl r addr) = Some (x, cur)"
        by auto
      then show ?thesis
        using arithmetic_candidate_exact [OF fit [OF True] Inr] Inr True
        by (auto split: option.splits if_splits)
    qed
  qed simp
  finally show ?thesis .
qed

lemma select_backend_resources: "select_backend lb rs path ty = Inr r \<Longrightarrow> rs \<noteq> []"
  by (auto simp: select_backend_def split: if_splits)

definition sample_backends :: "dynamic_object list" where
  "sample_backends =
     [sample_resource ''a'' ''10.0.0.1'' [(''cur'', ''5''), (''max'', ''10'')],
      sample_resource ''b'' ''10.0.0.2'' [(''cur'', ''2''), (''max'', ''10'')],
      sample_resource ''c'' ''10.0.0.3'' [(''cur'', ''8''), (''max'', ''10'')]]"

definition sample_balancer :: "load_balancing_strategy \<Rightarrow> load_balancer" where
  "sample_balancer strategy = increment_session ''10.0.0.1'' (lb_new strategy)"

section \<open>Properties\<close>

text \<open>
  C32. Under the least-sessions strategy the selected backend is one of the listed resources with a
  readable address, no resource with a readable address has fewer active sessions, and every
  readable resource listed before it has strictly more.
\<close>

theorem select_least_sessions_correct:
  assumes "lb_strategy_of lb = LeastSessions" and "select_backend lb rs path ty = Inr r"
  shows "\<exists>addr pre post. rs = pre @ r # post \<and> extract_address r path ty = Inr addr
    \<and> (\<forall>r'\<in>set rs. \<forall>addr'. extract_address r' path ty = Inr addr' \<longrightarrow>
          get_session_count lb addr \<le> get_session_count lb addr')
    \<and> (\<forall>r'\<in>set pre. \<forall>addr'. extract_address r' path ty = Inr addr' \<longrightarrow>
          get_session_count lb addr < get_session_count lb addr')"
proof -
  let ?f = "\<lambda>r. case extract_address r path ty of
        Inr addr \<Rightarrow> Some (r, addr, get_session_count lb addr) | Inl _ \<Rightarrow> None"
  let ?key = "\<lambda>(_ :: dynamic_object, _ :: string, count :: nat). count"
  obtain bs addr n where bs: "least_backends lb path ty rs = Inr bs"
    and pick: "first_least ?key bs = Some (r, addr, n)"
    using assms by (auto simp: select_backend_def select_least_sessions_def result_simps
        split: if_splits option.splits)
  note bs = least_backends_Inr [OF bs]
  obtain bpre bpost where split: "bs = bpre @ (r, addr, n) # bpost"
    and pre: "\<forall>b\<in>set bpre. ?key (r, addr, n) < ?key b"
    using least.pick_before [OF pick] by blast
  obtain pre post where rs: "rs = pre @ r # post" and r: "extract_address r path ty = Inr addr"
    "n = get_session_count lb addr" and bpre: "List.map_filter ?f pre = bpre"
    using map_filter_split [OF split [unfolded bs]] by (auto simp: result_simps)
  have "get_session_count lb addr \<le> get_session_count lb addr'"
    if "r' \<in> set rs" "extract_address r' path ty = Inr addr'" for r' addr'
  proof -
    have "(r', addr', get_session_count lb addr') \<in> set bs"
      using that unfolding bs by (force simp: set_map_filter)
    from least.pick_least [OF pick this] r show ?thesis by simp
  qed
  moreover have "get_session_count lb addr < get_session_count lb addr'"
    if "r' \<in> set pre" "extract_address r' path ty = Inr addr'" for r' addr'
  proof -
    have "(r', addr', get_session_count lb addr') \<in> set bpre"
      using that unfolding bpre [symmetric] by (force simp: set_map_filter)
    with pre r show ?thesis by fastforce
  qed
  ultimately show ?thesis using rs r by blast
qed

lemma select_least_sessions_correct_witness:
  "\<exists>addr. extract_address (sample_backends ! 1) ''status.podIP'' None = Inr addr
     \<and> get_session_count (sample_balancer LeastSessions) addr
        \<le> get_session_count (sample_balancer LeastSessions) ''10.0.0.1''"
proof -
  let ?lb = "sample_balancer LeastSessions"
  have strategy: "lb_strategy_of ?lb = LeastSessions"
    by (simp add: sample_balancer_def increment_session_def lb_new_def)
  have "select_backend ?lb sample_backends ''status.podIP'' None = Inr (sample_backends ! 1)"
    by code_simp
  from select_least_sessions_correct [OF strategy this]
  show ?thesis by (auto simp: sample_backends_def)
qed

text \<open>
  C33. Under label arithmetic, when the capacities fit 64-bit integers, the selected backend has
  current + sessions + overlap strictly below its maximum, no other resource has more available
  capacity, and none with equal capacity has a lower current load.
\<close>

theorem select_label_arithmetic_correct:
  assumes "lb_strategy_of lb = LabelArithmetic cl ml ovl"
    and "capacities_fit lb path ty cl ml ovl rs"
    and "select_backend lb rs path ty = Inr r"
  shows "\<exists>av cur. r \<in> set rs \<and> resource_capacity lb path ty cl ml ovl r = Some (av, cur) \<and> av > 0
    \<and> (\<forall>r'\<in>set rs. \<forall>av' cur'. resource_capacity lb path ty cl ml ovl r' = Some (av', cur') \<longrightarrow>
          av' \<le> av \<and> (av' = av \<longrightarrow> cur \<le> cur'))"
proof -
  obtain cs addr av cur where cs: "arithmetic_candidates lb path ty cl ml ovl rs = Inr cs"
    and pick: "first_least arithmetic_key cs = Some (r, addr, av, cur)"
    using assms(1,3) by (auto simp: select_backend_def select_label_arithmetic_def result_simps
        split: if_splits option.splits)
  note set_cs = arithmetic_candidates_set [OF cs assms(2)]
  have r: "r \<in> set rs" "resource_capacity lb path ty cl ml ovl r = Some (sint av, cur)" "sint av > 0"
    using least.pick_in [OF pick] set_cs by blast+
  have "av' \<le> sint av \<and> (av' = sint av \<longrightarrow> cur \<le> cur')"
    if r': "r' \<in> set rs" "resource_capacity lb path ty cl ml ovl r' = Some (av', cur')" for r' av' cur'
  proof (cases "av' > 0")
    case True
    then obtain addr' w where "(r', addr', w, cur') \<in> set cs" "sint w = av'"
      using r' set_cs by blast
    with least.pick_least [OF pick this(1)] show ?thesis
      by (auto simp: arithmetic_key_def less_eq_prod_def)
  qed (use r(3) in auto)
  with r show ?thesis by blast
qed

lemmas lb_eval = select_backend_def select_label_arithmetic_def arithmetic_candidate_def
  arithmetic_key_def available_capacity_def capacities_fit_def no_panic_def resource_capacity_def
  exact_capacity_def get_session_count_def lb_new_def current_value_def max_value_def
  sample_resource_labels parse_i64_def parse_unsigned_def digits_value_def digit_value_def
  is_ascii_digit_def first_least_def sample_backends_def less_eq_prod_def

lemma sample_backends_capacity:
  "capacities_fit (lb_new (LabelArithmetic ''cur'' ''max'' 2)) ''status.podIP'' None ''cur'' ''max'' 2 sample_backends"
  "no_panic ''status.podIP'' None sample_backends"
  by (simp_all add: lb_eval)

lemma select_label_arithmetic_correct_witness:
  "\<exists>av cur. resource_capacity (lb_new (LabelArithmetic ''cur'' ''max'' 2)) ''status.podIP'' None
      ''cur'' ''max'' 2 (sample_backends ! 1) = Some (av, cur) \<and> av > 0"
proof -
  let ?lb = "lb_new (LabelArithmetic ''cur'' ''max'' 2)"
  have strategy: "lb_strategy_of ?lb = LabelArithmetic ''cur'' ''max'' 2" by (simp add: lb_new_def)
  have "select_backend ?lb sample_backends ''status.podIP'' None = Inr (sample_backends ! 1)"
    by (simp add: lb_eval)
  from select_label_arithmetic_correct [OF strategy sample_backends_capacity(1) this]
  show ?thesis by blast
qed

text \<open>
  Label arithmetic refuses every backend as full exactly when no resource with a readable
  address and readable labels has positive capacity: in particular a backend whose current users,
  sessions and overlap add up to exactly its maximum is not eligible.
\<close>

theorem select_label_arithmetic_full:
  assumes "lb_strategy_of lb = LabelArithmetic cl ml ovl"
    and "capacities_fit lb path ty cl ml ovl rs" and "no_panic path ty rs" and "rs \<noteq> []"
  shows "select_backend lb rs path ty = Inl (NoCapacity (length rs)) \<longleftrightarrow>
    (\<forall>r\<in>set rs. \<forall>av cur. resource_capacity lb path ty cl ml ovl r = Some (av, cur) \<longrightarrow> av \<le> 0)"
proof -
  obtain cs where cs: "arithmetic_candidates lb path ty cl ml ovl rs = Inr cs"
    using arithmetic_candidates_total assms(3) by blast
  have "select_backend lb rs path ty = Inl (NoCapacity (length rs)) \<longleftrightarrow> cs = []"
    using assms(1,4) cs by (simp add: select_backend_def select_label_arithmetic_def ok_or_Inl_iff)
  also have "\<dots> \<longleftrightarrow> (\<forall>r addr av cur. (r, addr, av, cur) \<notin> set cs)"
    by (cases cs) (simp, fastforce)
  also have "\<dots> \<longleftrightarrow> (\<forall>r\<in>set rs. \<forall>av cur. resource_capacity lb path ty cl ml ovl r = Some (av, cur) \<longrightarrow> av \<le> 0)"
    using arithmetic_candidates_set [OF cs assms(2)] by (metis not_less)
  finally show ?thesis .
qed

lemma select_label_arithmetic_full_witness:
  "select_backend (lb_new (LabelArithmetic ''cur'' ''max'' 8)) sample_backends ''status.podIP'' None
     = Inl (NoCapacity 3)"
proof -
  let ?lb = "lb_new (LabelArithmetic ''cur'' ''max'' 8)"
  have strategy: "lb_strategy_of ?lb = LabelArithmetic ''cur'' ''max'' 8" by (simp add: lb_new_def)
  have "list_all (\<lambda>r. case resource_capacity ?lb ''status.podIP'' None ''cur'' ''max'' 8 r of
      None \<Rightarrow> True | Some (av, _) \<Rightarrow> av \<le> 0) sample_backends" by (simp add: lb_eval)
  then have none: "\<forall>r\<in>set sample_backends. \<forall>av cur.
      resource_capacity ?lb ''status.podIP'' None ''cur'' ''max'' 8 r = Some (av, cur) \<longrightarrow> av \<le> 0"
    by (fastforce simp: list_all_iff)
  have fit: "capacities_fit ?lb ''status.podIP'' None ''cur'' ''max'' 8 sample_backends"
    by (simp add: lb_eval)
  have "length sample_backends = 3" "sample_backends \<noteq> []" by (simp_all add: sample_backends_def)
  with select_label_arithmetic_full [OF strategy fit sample_backends_capacity(2)] none
  show ?thesis by simp
qed

text \<open>
  The capacity arithmetic is exact modulo 2 to the 64 and reads wrong where it overflows: a
  backend with a negative maximum and the largest current load has the largest available capacity.
\<close>

theorem available_capacity_overflow:
  "available_capacity mx cur n ovl = word_of_int (exact_capacity mx cur n ovl)
   \<and> sint (available_capacity (- 2) (2 ^ 63 - 1) 0 0) = 2 ^ 63 - 1
   \<and> exact_capacity (- 2) (2 ^ 63 - 1) 0 0 < 0"
  using available_capacity_wraps by (simp add: available_capacity_def exact_capacity_def)

text \<open>
  Counting a session for a backend raises that backend's count and the total by one and leaves
  the other counts alone; ending it undoes this, and a count never goes below zero.
\<close>

theorem session_counts_balanced:
  assumes "mset started = mset ended"
  shows "get_session_count (fold decrement_session ended (fold increment_session started lb)) addr
      = get_session_count lb addr
    \<and> get_session_count (fold increment_session started lb) addr
      = get_session_count lb addr + count_list started addr"
  using lbc.count_all_end [OF assms] lbc.count_fold_inc by simp

lemma session_counts_balanced_witness:
  "get_session_count (fold decrement_session [''b'', ''a''] (fold increment_session [''a'', ''b'']
     (lb_new LeastSessions))) ''a'' = 0"
  using session_counts_balanced [of "[''a'', ''b'']" "[''b'', ''a'']" "lb_new LeastSessions" "''a''"]
  by (simp add: lb_new_def get_session_count_def)

end
