(* ===== verification/NetAddr.thy ===== *)
theory NetAddr
  imports RustText
begin

text \<open>
  \<open>std::net\<close> as the program uses it: IP and socket addresses, the text of an IPv4 address, and the
  parser behind \<open>str::parse::<SocketAddr>\<close>, written as the standard library writes it (a parser
  takes the text and returns a value with the unread rest). The program builds every upstream
  address by parsing the text \<open>ip:port\<close>, so what this parser accepts decides which targets work.
\<close>

section \<open>Addresses\<close>

datatype ip_addr = IPv4 u8 u8 u8 u8 | IPv6 "u16 list"

record socket_addr =
  sa_ip :: ip_addr
  sa_port :: u16
  sa_scope_id :: u32

definition addr_v4 :: "u8 \<Rightarrow> u8 \<Rightarrow> u8 \<Rightarrow> u8 \<Rightarrow> u16 \<Rightarrow> socket_addr" where
  "addr_v4 a b c d p = \<lparr>sa_ip = IPv4 a b c d, sa_port = p, sa_scope_id = 0\<rparr>"

definition show_ipv4 :: "u8 \<Rightarrow> u8 \<Rightarrow> u8 \<Rightarrow> u8 \<Rightarrow> string" where
  "show_ipv4 a b c d = show_nat (unat a) @ ''.'' @ show_nat (unat b) @ ''.''
     @ show_nat (unat c) @ ''.'' @ show_nat (unat d)"

section \<open>The parser\<close>

type_synonym 'a parser = "string \<Rightarrow> ('a \<times> string) option"

fun read_given_char :: "char \<Rightarrow> unit parser" where
  "read_given_char c [] = None"
| "read_given_char c (x # xs) = (if x = c then Some ((), xs) else None)"

text \<open>
  A number in decimal: the longest run of digits, at most \<open>max_digits\<close> of them where a maximum is
  given, no superfluous leading zero unless allowed, and a value in the target type.
\<close>

definition read_number :: "nat option \<Rightarrow> bool \<Rightarrow> nat \<Rightarrow> nat parser" where
  "read_number max_digits allow_zero_prefix hi s =
     (let ds = takeWhile is_ascii_digit s; rest = dropWhile is_ascii_digit s
      in if ds = [] then None
         else if (case max_digits of Some m \<Rightarrow> length ds > m | None \<Rightarrow> False) then None
         else if \<not> allow_zero_prefix \<and> hd ds = CHR ''0'' \<and> length ds > 1 then None
         else if digits_value ds > hi then None
         else Some (digits_value ds, rest))"

text \<open>A hexadecimal group of an IPv6 address: one to four digits.\<close>

definition hex_value :: "char \<Rightarrow> nat option" where
  "hex_value c =
     (let n = of_char c :: nat
      in if 48 \<le> n \<and> n \<le> 57 then Some (n - 48)
         else if 97 \<le> n \<and> n \<le> 102 then Some (n - 87)
         else if 65 \<le> n \<and> n \<le> 70 then Some (n - 55) else None)"

definition read_hex_group :: "nat parser" where
  "read_hex_group s =
     (let ds = takeWhile (\<lambda>c. hex_value c \<noteq> None) s
      in if ds = [] \<or> length ds > 4 then None
         else Some (foldl (\<lambda>n c. 16 * n + the (hex_value c)) 0 ds,
                    dropWhile (\<lambda>c. hex_value c \<noteq> None) s))"

text \<open>\<open>read_separator sep i p\<close>: the separator is read before every element but the first.\<close>

definition read_separator :: "char \<Rightarrow> nat \<Rightarrow> 'a parser \<Rightarrow> 'a parser" where
  "read_separator sep i p s =
     (if i > 0 then (case read_given_char sep s of None \<Rightarrow> None | Some (_, r) \<Rightarrow> p r) else p s)"

fun read_octets :: "nat \<Rightarrow> nat \<Rightarrow> nat list parser" where
  "read_octets i 0 s = Some ([], s)"
| "read_octets i (Suc n) s =
     (case read_separator CHR ''.'' i (read_number (Some 3) False 255) s of
        None \<Rightarrow> None
      | Some (o1, r) \<Rightarrow> (case read_octets (Suc i) n r of
           None \<Rightarrow> None | Some (os, r') \<Rightarrow> Some (o1 # os, r')))"

definition read_ipv4_addr :: "nat list parser" where
  "read_ipv4_addr = read_octets 0 4"

definition read_port :: "u16 parser" where
  "read_port s = (case read_given_char CHR '':'' s of
     None \<Rightarrow> None
   | Some (_, r) \<Rightarrow> (case read_number None True 65535 r of
        None \<Rightarrow> None | Some (p, r') \<Rightarrow> Some (of_nat p, r')))"

definition read_socket_addr_v4 :: "socket_addr parser" where
  "read_socket_addr_v4 s = (case read_ipv4_addr s of
     Some ([a, b, c, d], r) \<Rightarrow> (case read_port r of
        None \<Rightarrow> None
      | Some (p, r') \<Rightarrow> Some (addr_v4 (of_nat a) (of_nat b) (of_nat c) (of_nat d) p, r'))
   | _ \<Rightarrow> None)"

text \<open>
  \<open>read_groups\<close> of the IPv6 parser: up to \<open>limit\<close> colon-separated groups, with an optional IPv4
  address as the last two. The flag says whether such an address was read.
\<close>

fun read_groups :: "nat \<Rightarrow> nat \<Rightarrow> string \<Rightarrow> nat list \<times> bool \<times> string" where
  "read_groups i 0 s = ([], False, s)"
| "read_groups i (Suc n) s =
     (case (if n > 0 then read_separator CHR '':'' i read_ipv4_addr s else None) of
        Some ([a, b, c, d], r) \<Rightarrow> ([256 * a + b, 256 * c + d], True, r)
      | _ \<Rightarrow> (case read_separator CHR '':'' i read_hex_group s of
           None \<Rightarrow> ([], False, s)
         | Some (g, r) \<Rightarrow> (case read_groups (Suc i) n r of
              (gs, v4, r') \<Rightarrow> (g # gs, v4, r'))))"

definition read_ipv6_addr :: "u16 list parser" where
  "read_ipv6_addr s =
     (case read_groups 0 8 s of (front, front_v4, r) \<Rightarrow>
        if length front = 8 then Some (map of_nat front, r)
        else if front_v4 then None
        else (case read_given_char CHR '':'' r of None \<Rightarrow> None | Some (_, r1) \<Rightarrow>
          (case read_given_char CHR '':'' r1 of None \<Rightarrow> None | Some (_, r2) \<Rightarrow>
            (case read_groups 0 (8 - (length front + 1)) r2 of (back, _, r3) \<Rightarrow>
               Some (map of_nat (front @ replicate (8 - (length front + length back)) 0 @ back), r3)))))"

definition read_scope_id :: "u32 parser" where
  "read_scope_id s = (case read_given_char CHR ''%'' s of
     None \<Rightarrow> None
   | Some (_, r) \<Rightarrow> (case read_number None True (2 ^ 32 - 1) r of
        None \<Rightarrow> None | Some (n, r') \<Rightarrow> Some (of_nat n, r')))"

definition read_socket_addr_v6 :: "socket_addr parser" where
  "read_socket_addr_v6 s =
     (case read_given_char CHR ''['' s of None \<Rightarrow> None | Some (_, r0) \<Rightarrow>
        (case read_ipv6_addr r0 of None \<Rightarrow> None | Some (ip, r1) \<Rightarrow>
           (let (scope, r2) = (case read_scope_id r1 of Some (n, r) \<Rightarrow> (n, r) | None \<Rightarrow> (0, r1))
            in case read_given_char CHR '']'' r2 of None \<Rightarrow> None | Some (_, r3) \<Rightarrow>
                 (case read_port r3 of None \<Rightarrow> None | Some (p, r4) \<Rightarrow>
                    Some (\<lparr>sa_ip = IPv6 ip, sa_port = p, sa_scope_id = scope\<rparr>, r4)))))"

definition parse_socket_addr :: "string \<Rightarrow> socket_addr option" where
  "parse_socket_addr s =
     (case (case read_socket_addr_v4 s of Some x \<Rightarrow> Some x | None \<Rightarrow> read_socket_addr_v6 s) of
        Some (a, []) \<Rightarrow> Some a
      | _ \<Rightarrow> None)"

section \<open>Reading back what was printed\<close>

lemma takeWhile_show_nat:
  "r = [] \<or> \<not> is_ascii_digit (hd r) \<Longrightarrow>
     takeWhile is_ascii_digit (show_nat n @ r) = show_nat n \<and>
     dropWhile is_ascii_digit (show_nat n @ r) = r"
  using show_nat_digits [of n] by (cases r) (auto simp: list_all_iff takeWhile_append dropWhile_append)

lemma read_octet_show:
  assumes "n \<le> 255" and "r = [] \<or> \<not> is_ascii_digit (hd r)"
  shows "read_number (Some 3) False 255 (show_nat n @ r) = Some (n, r)"
proof -
  have "length (show_nat n) \<le> 3" by (rule show_nat_length) (use assms(1) in auto)
  moreover have "hd (show_nat n) = CHR ''0'' \<Longrightarrow> length (show_nat n) = 1"
    using show_nat_hd_zero [of n] by (auto simp: show_nat.simps)
  ultimately show ?thesis
    using assms takeWhile_show_nat [OF assms(2), of n] by (auto simp: read_number_def Let_def)
qed

lemma read_port_show:
  assumes "n \<le> 65535"
  shows "read_port (CHR '':'' # show_nat n) = Some (of_nat n, [])"
proof -
  have "takeWhile is_ascii_digit (show_nat n) = show_nat n"
    "dropWhile is_ascii_digit (show_nat n) = []"
    using takeWhile_show_nat [of "[]" n] by (simp_all only: append_Nil2 simp_thms)
  then show ?thesis using assms by (simp add: read_port_def read_number_def Let_def del: takeWhile_eq_all_conv)
qed

lemma read_ipv4_addr_show:
  assumes "r = [] \<or> \<not> is_ascii_digit (hd r)"
  shows "read_ipv4_addr (show_ipv4 a b c d @ r) = Some ([unat a, unat b, unat c, unat d], r)"
proof -
  have dot: "\<not> is_ascii_digit CHR ''.''" by (simp add: is_ascii_digit_def)
  note oct = read_octet_show [OF unat_u8_le]
  show ?thesis
    using oct [of "''.'' @ show_nat (unat b) @ ''.'' @ show_nat (unat c) @ ''.'' @ show_nat (unat d) @ r" a]
      oct [of "''.'' @ show_nat (unat c) @ ''.'' @ show_nat (unat d) @ r" b]
      oct [of "''.'' @ show_nat (unat d) @ r" c] oct [OF assms, of d] dot
    by (simp add: read_ipv4_addr_def show_ipv4_def numeral_eq_Suc read_separator_def)
qed

lemma parse_show_socket_addr:
  "parse_socket_addr (show_ipv4 a b c d @ '':'' @ show_nat (unat p)) = Some (addr_v4 a b c d p)"
proof -
  have "unat p \<le> 65535" by (rule unat_u16_le)
  then have "read_port (CHR '':'' # show_nat (unat p)) = Some (p, [])"
    using read_port_show by simp
  moreover have "\<not> is_ascii_digit CHR '':''" by (simp add: is_ascii_digit_def)
  ultimately show ?thesis
    by (simp add: parse_socket_addr_def read_socket_addr_v4_def read_ipv4_addr_show)
qed

section \<open>What the IPv4 form rejects\<close>

lemma read_number_consumes:
  "read_number m z hi s = Some (n, r) \<Longrightarrow> \<exists>ds. s = ds @ r \<and> list_all is_ascii_digit ds"
  unfolding read_number_def Let_def
  by (rule exI [of _ "takeWhile is_ascii_digit s"])
     (auto simp: list_all_iff split: if_splits dest: set_takeWhileD)

lemma read_given_char_Some [simp]:
  "read_given_char c s = Some (u, r) \<longleftrightarrow> s = c # r"
  by (cases s) auto

lemma read_octets_consumes:
  "read_octets i n s = Some (os, r) \<Longrightarrow>
     \<exists>ds. s = ds @ r \<and> (\<forall>x\<in>set ds. is_ascii_digit x \<or> x = CHR ''.'')"
proof (induction n arbitrary: i s os)
  case (Suc n)
  then obtain o1 r1 os' where
    rd: "read_separator CHR ''.'' i (read_number (Some 3) False 255) s = Some (o1, r1)" and
    rest: "read_octets (Suc i) n r1 = Some (os', r)"
    by (auto split: option.splits)
  obtain ds2 where ds2: "r1 = ds2 @ r" "\<forall>x\<in>set ds2. is_ascii_digit x \<or> x = CHR ''.''"
    using Suc.IH [OF rest] by blast
  obtain ds1 where ds1: "s = ds1 @ r1" "\<forall>x\<in>set ds1. is_ascii_digit x \<or> x = CHR ''.''"
  proof (cases "i = 0")
    case True
    with rd obtain ds where "s = ds @ r1" "list_all is_ascii_digit ds"
      by (auto simp: read_separator_def dest: read_number_consumes)
    then show ?thesis using that by (auto simp: list_all_iff)
  next
    case False
    with rd obtain t where "s = CHR ''.'' # t" "read_number (Some 3) False 255 t = Some (o1, r1)"
      by (auto simp: read_separator_def split: option.splits)
    moreover from this(2) obtain ds where "t = ds @ r1" "list_all is_ascii_digit ds"
      by (auto dest: read_number_consumes)
    ultimately show ?thesis using that [of "CHR ''.'' # ds"] by (auto simp: list_all_iff)
  qed
  show ?case by (rule exI [of _ "ds1 @ ds2"]) (use ds1 ds2 in auto)
qed auto

text \<open>
  A socket address without brackets holds exactly one colon, the one before the port: a bare IPv6
  text followed by a port never parses.
\<close>

lemma read_socket_addr_v4_colons:
  assumes "read_socket_addr_v4 s = Some (a, [])"
  shows "count_list s CHR '':'' = 1"
proof -
  obtain os r p where os: "read_ipv4_addr s = Some (os, r)" and p: "read_port r = Some (p, [])"
    using assms by (auto simp: read_socket_addr_v4_def split: option.splits list.splits)
  obtain ds where ds: "s = ds @ r" "\<forall>x\<in>set ds. is_ascii_digit x \<or> x = CHR ''.''"
    using os read_octets_consumes unfolding read_ipv4_addr_def by blast
  obtain t n where t: "r = CHR '':'' # t" and "read_number None True 65535 t = Some (n, [])"
    using p by (auto simp: read_port_def split: option.splits)
  then have "list_all is_ascii_digit t" by (auto dest: read_number_consumes)
  then have "CHR '':'' \<notin> set t" "CHR '':'' \<notin> set ds"
    using ds(2) by (auto simp: list_all_iff is_ascii_digit_def)
  then show ?thesis using ds(1) t by simp
qed

lemma parse_socket_addr_bare_colon:
  assumes "CHR '':'' \<in> set ip" and "hd ip \<noteq> CHR ''[''"
  shows "parse_socket_addr (ip @ '':'' @ port) = None"
proof -
  have "count_list (ip @ '':'' @ port) CHR '':'' > 1"
    using assms(1) count_list_0_iff [of ip "CHR '':''"] by auto
  then have v4: "read_socket_addr_v4 (ip @ '':'' @ port) \<noteq> Some (a, [])" for a
    using read_socket_addr_v4_colons by (metis less_irrefl)
  have "ip \<noteq> []" using assms(1) by auto
  then have "read_socket_addr_v6 (ip @ '':'' @ port) = None"
    using assms(2) by (cases ip) (auto simp: read_socket_addr_v6_def)
  then show ?thesis using v4
    by (auto simp: parse_socket_addr_def split: option.splits list.splits)
qed

end
