(* ===== verification/Reachable.thy ===== *)
theory Reachable
  imports Prelude
begin

text \<open>
  The contract of every step relation of the library: a property that holds at the start and that each
  step keeps holds in every reachable state, and a run whose steps are runs of a coarser relation on
  an abstraction of the state is itself such a run.
\<close>

locale step_invariant =
  fixes step :: "'s \<Rightarrow> 's \<Rightarrow> bool" and start :: 's and inv :: "'s \<Rightarrow> bool"
  assumes inv_start: "inv start"
    and inv_step: "step s s' \<Longrightarrow> inv s \<Longrightarrow> inv s'"
begin

lemma inv_run: "step\<^sup>*\<^sup>* s s' \<Longrightarrow> inv s \<Longrightarrow> inv s'"
  by (induction rule: rtranclp_induct) (auto intro: inv_step)

lemma inv_reachable: "step\<^sup>*\<^sup>* start s \<Longrightarrow> inv s"
  using inv_run inv_start by blast

end

locale simulation = step_invariant +
  fixes abs :: "'s \<Rightarrow> 'a" and spec :: "'a \<Rightarrow> 'a \<Rightarrow> bool"
  assumes step_simulated: "step s s' \<Longrightarrow> inv s \<Longrightarrow> spec\<^sup>*\<^sup>* (abs s) (abs s')"
begin

lemma run_simulated: "step\<^sup>*\<^sup>* s s' \<Longrightarrow> inv s \<Longrightarrow> spec\<^sup>*\<^sup>* (abs s) (abs s')"
proof (induction rule: rtranclp_induct)
  case (step s1 s2)
  then show ?case using inv_run step_simulated by (meson rtranclp_trans)
qed simp

lemma reachable_simulated: "step\<^sup>*\<^sup>* start s \<Longrightarrow> spec\<^sup>*\<^sup>* (abs start) (abs s)"
  using run_simulated inv_start by blast

end

end
