(* ===== verification/Session.thy ===== *)
theory Session
  imports Config Errors NetAddr Reachable
begin

text \<open>
  \<open>src/session.rs\<close>: the session table that query routes and default routes are installed in, the
  dedicated upstream sockets with their shutdown flags, and the cleanup of idle sessions. The table
  and the sockets are shared between the tasks, so they are one explicit store: a socket is an index
  into the list of all sockets created so far, and its entry is what its receive task reads (the
  flag) and was started with (the client and the proxy port). Time is a monotonic clock in
  nanoseconds; \<open>Instant::elapsed\<close> saturates at zero, as subtraction of natural numbers does.
\<close>

section \<open>State\<close>

datatype session_key = LegacyIp ip_addr | ExactSocket socket_addr

type_synonym sock_id = nat

record session_socket =
  sk_client :: socket_addr
  sk_proxy_port :: u16
  sk_shutdown :: bool

type_synonym port_mappings = "(u16 \<times> protocol, u16) hashmap"

record session =
  s_target_ip :: string
  s_port_mappings :: port_mappings
  s_last_activity :: nat
  s_udp_sockets :: "(u16 \<times> u16, sock_id) hashmap"

record session_store =
  st_sessions :: "(session_key, session) hashmap"
  st_sockets :: "session_socket list"

definition store_new :: session_store where
  "store_new = \<lparr>st_sessions = [], st_sockets = []\<rparr>"

section \<open>Sockets and sessions\<close>

text \<open>
  \<open>bound\<close> says whether the operating system gave a socket: binding, switching it to non-blocking
  mode and reading its local address can fail. Creating one starts its receive task.
\<close>

definition socket_new :: "bool \<Rightarrow> u16 \<Rightarrow> socket_addr \<Rightarrow> session_socket list
    \<Rightarrow> error + (sock_id \<times> session_socket list)" where
  "socket_new bound proxy_port client socks =
     (if bound
      then Inr (length socks,
        socks @ [\<lparr>sk_client = client, sk_proxy_port = proxy_port, sk_shutdown = False\<rparr>])
      else Inl IoError)"

definition socket_shutdown :: "sock_id \<Rightarrow> session_socket list \<Rightarrow> session_socket list" where
  "socket_shutdown i socks =
     (if i < length socks then socks[i := (socks ! i)\<lparr>sk_shutdown := True\<rparr>] else socks)"

text \<open>
  One turn of a socket's receive loop: the flag ends the task, a datagram from the target is sent
  to the client the socket was created for, an error ends the task, a timeout only polls the flag.
\<close>

datatype receive_result = Received "u8 list" | ReceiveError | ReceiveTimeout

datatype receive_step = TaskEnds | TaskForwards socket_addr "u8 list" | TaskPolls

definition receive_turn :: "session_socket list \<Rightarrow> sock_id \<Rightarrow> receive_result \<Rightarrow> receive_step" where
  "receive_turn socks i r =
     (if sk_shutdown (socks ! i) then TaskEnds
      else case r of
        Received bytes \<Rightarrow> TaskForwards (sk_client (socks ! i)) bytes
      | ReceiveError \<Rightarrow> TaskEnds
      | ReceiveTimeout \<Rightarrow> TaskPolls)"

definition new_multi_port :: "nat \<Rightarrow> string \<Rightarrow> port_mappings \<Rightarrow> session" where
  "new_multi_port now target_ip mappings =
     \<lparr>s_target_ip = target_ip, s_port_mappings = mappings, s_last_activity = now,
      s_udp_sockets = []\<rparr>"

definition get_or_create_udp_socket ::
  "bool \<Rightarrow> u16 \<Rightarrow> socket_addr \<Rightarrow> session \<Rightarrow> session_socket list
   \<Rightarrow> error + (sock_id \<times> session \<times> session_socket list)" where
  "get_or_create_udp_socket bound proxy_port client s socks =
     (let socket_key = (proxy_port, sa_port client) in
      case hm_get (s_udp_sockets s) socket_key of
        Some sid \<Rightarrow> Inr (sid, s, socks)
      | None \<Rightarrow>
          and_then (socket_new bound proxy_port client socks) (\<lambda>(sid, socks').
            Inr (sid, s\<lparr>s_udp_sockets := hm_insert socket_key sid (s_udp_sockets s)\<rparr>, socks')))"

definition shutdown_all :: "sock_id list \<Rightarrow> session_socket list \<Rightarrow> session_socket list" where
  "shutdown_all ids socks = fold socket_shutdown ids socks"

definition shutdown_sockets :: "session \<Rightarrow> session_socket list \<Rightarrow> session \<times> session_socket list" where
  "shutdown_sockets s socks =
     (s\<lparr>s_udp_sockets := []\<rparr>, shutdown_all (map snd (s_udp_sockets s)) socks)"

definition get_target_addr :: "session \<Rightarrow> u16 \<Rightarrow> protocol \<Rightarrow> error + socket_addr" where
  "get_target_addr s proxy_port protocol =
     and_then (ok_or (NoPortMapping proxy_port) (hm_get (s_port_mappings s) (proxy_port, protocol)))
       (\<lambda>target_port.
         let text = s_target_ip s @ '':'' @ show_nat (unat target_port)
         in ok_or (InvalidSocketAddr text) (parse_socket_addr text))"

definition session_touch :: "nat \<Rightarrow> session \<Rightarrow> session" where
  "session_touch now s = s\<lparr>s_last_activity := now\<rparr>"

definition is_timed_out :: "u64 \<Rightarrow> nat \<Rightarrow> session \<Rightarrow> bool" where
  "is_timed_out timeout_seconds now s \<longleftrightarrow>
     now - s_last_activity s > unat timeout_seconds * 1000000000"

section \<open>The session manager\<close>

definition sm_get :: "session_store \<Rightarrow> ip_addr \<Rightarrow> session option" where
  "sm_get st ip = hm_get (st_sessions st) (LegacyIp ip)"

definition get_by_addr :: "session_store \<Rightarrow> socket_addr \<Rightarrow> session option" where
  "get_by_addr st addr =
     (case hm_get (st_sessions st) (ExactSocket addr) of
        Some s \<Rightarrow> Some s
      | None \<Rightarrow> sm_get st (sa_ip addr))"

text \<open>The key under which \<open>get_mut_by_addr\<close> and \<open>touch_by_addr\<close> find a client's session.\<close>

definition key_by_addr :: "session_store \<Rightarrow> socket_addr \<Rightarrow> session_key" where
  "key_by_addr st addr =
     (if hm_get (st_sessions st) (ExactSocket addr) \<noteq> None then ExactSocket addr
      else LegacyIp (sa_ip addr))"

definition get_mut_by_addr :: "session_store \<Rightarrow> socket_addr \<Rightarrow> (session_key \<times> session) option" where
  "get_mut_by_addr st addr =
     (case hm_get (st_sessions st) (key_by_addr st addr) of
        None \<Rightarrow> None | Some s \<Rightarrow> Some (key_by_addr st addr, s))"

definition put_session :: "session_key \<Rightarrow> session \<Rightarrow> session_store \<Rightarrow> session_store" where
  "put_session k s st = st\<lparr>st_sessions := hm_insert k s (st_sessions st)\<rparr>"

text \<open>
  \<open>upsert_multi_port\<close> takes the table's lock twice: once to shut down the old session's sockets, once
  to insert the new session.
\<close>

definition upsert_shutdown_old :: "socket_addr \<Rightarrow> session_store \<Rightarrow> session_store" where
  "upsert_shutdown_old client st =
     (case sm_get st (sa_ip client) of
        None \<Rightarrow> st
      | Some old \<Rightarrow>
          (case shutdown_sockets old (st_sockets st) of
             (old', socks) \<Rightarrow> put_session (LegacyIp (sa_ip client)) old' (st\<lparr>st_sockets := socks\<rparr>)))"

definition upsert_insert :: "nat \<Rightarrow> socket_addr \<Rightarrow> string \<Rightarrow> port_mappings \<Rightarrow> session_store \<Rightarrow> session_store" where
  "upsert_insert now client target_ip mappings st =
     put_session (LegacyIp (sa_ip client)) (new_multi_port now target_ip mappings) st"

definition upsert_multi_port ::
  "nat \<Rightarrow> socket_addr \<Rightarrow> string \<Rightarrow> port_mappings \<Rightarrow> session_store \<Rightarrow> session_store" where
  "upsert_multi_port now client target_ip mappings st =
     upsert_insert now client target_ip mappings (upsert_shutdown_old client st)"

definition sm_touch :: "nat \<Rightarrow> ip_addr \<Rightarrow> session_store \<Rightarrow> session_store" where
  "sm_touch now ip st =
     (case sm_get st ip of None \<Rightarrow> st | Some s \<Rightarrow> put_session (LegacyIp ip) (session_touch now s) st)"

definition touch_by_addr :: "nat \<Rightarrow> socket_addr \<Rightarrow> session_store \<Rightarrow> session_store" where
  "touch_by_addr now addr st =
     (case hm_get (st_sessions st) (ExactSocket addr) of
        Some s \<Rightarrow> put_session (ExactSocket addr) (session_touch now s) st
      | None \<Rightarrow> sm_touch now (sa_ip addr) st)"

definition sm_count :: "session_store \<Rightarrow> nat" where
  "sm_count st = length (st_sessions st)"

text \<open>
  \<open>clear_all\<close> goes over the table twice: a first pass shuts down the sockets of one session after the
  other, a second one drops the sessions. It holds no lock from one to the next, so each visit is a
  step of its own.
\<close>

definition sweep_session :: "session_key \<Rightarrow> session_store \<Rightarrow> session_store" where
  "sweep_session key st =
     (case hm_get (st_sessions st) key of
        None \<Rightarrow> st
      | Some s \<Rightarrow>
          (case shutdown_sockets s (st_sockets st) of
             (s', socks) \<Rightarrow> put_session key s' (st\<lparr>st_sockets := socks\<rparr>)))"

definition drop_session :: "session_key \<Rightarrow> session_store \<Rightarrow> session_store" where
  "drop_session key st = st\<lparr>st_sessions := hm_remove key (st_sessions st)\<rparr>"

definition clear_all :: "session_store \<Rightarrow> session_store" where
  "clear_all st =
     (let swept = fold sweep_session (hm_keys (st_sessions st)) st
      in fold drop_session (hm_keys (st_sessions swept)) swept)"

section \<open>Cleanup\<close>

text \<open>
  One tick of the cleanup loop: the keys of the timed-out sessions are collected first, then each is
  removed. The callback acts on the state \<open>'w\<close> it closes over, where one is set.
\<close>

definition cleanup_scan :: "u64 \<Rightarrow> nat \<Rightarrow> session_store \<Rightarrow> session_key list" where
  "cleanup_scan timeout_seconds now st =
     map fst (filter (\<lambda>(_, s). is_timed_out timeout_seconds now s) (st_sessions st))"

type_synonym 'w cleanup_callback = "(string \<Rightarrow> 'w \<Rightarrow> 'w) option"

definition cleanup_remove ::
  "'w cleanup_callback \<Rightarrow> session_key \<Rightarrow> session_store \<times> 'w \<Rightarrow> session_store \<times> 'w" where
  "cleanup_remove callback key stw =
     (let st = fst stw in
      case hm_get (st_sessions st) key of
        None \<Rightarrow> stw
      | Some s \<Rightarrow>
          (\<lparr>st_sessions = hm_remove key (st_sessions st),
            st_sockets = snd (shutdown_sockets s (st_sockets st))\<rparr>,
           case callback of Some cb \<Rightarrow> cb (s_target_ip s) (snd stw) | None \<Rightarrow> snd stw))"

definition cleanup_tick ::
  "u64 \<Rightarrow> 'w cleanup_callback \<Rightarrow> nat \<Rightarrow> session_store \<times> 'w \<Rightarrow> session_store \<times> 'w" where
  "cleanup_tick timeout_seconds callback now stw =
     fold (cleanup_remove callback) (cleanup_scan timeout_seconds now (fst stw)) stw"

section \<open>The store invariant\<close>

text \<open>
  A socket is referenced by one entry of one session. A store is \<open>isolated\<close> when sessions are keyed
  by IP only and an entry \<open>(proxy port, client port)\<close> of an IP's session refers to a live socket
  created for exactly that IP, client port and proxy port; it has \<open>no_leak\<close> when every live socket is
  referenced.
\<close>

definition refers :: "session_store \<Rightarrow> ip_addr \<Rightarrow> u16 \<times> u16 \<Rightarrow> sock_id \<Rightarrow> bool" where
  "refers st ip pk sid \<longleftrightarrow>
     (\<exists>s. sm_get st ip = Some s \<and> hm_get (s_udp_sockets s) pk = Some sid)"

definition live :: "session_socket list \<Rightarrow> sock_id \<Rightarrow> bool" where
  "live socks sid \<longleftrightarrow> sid < length socks \<and> \<not> sk_shutdown (socks ! sid)"

definition serves :: "session_socket \<Rightarrow> ip_addr \<Rightarrow> u16 \<times> u16 \<Rightarrow> bool" where
  "serves sk ip pk \<longleftrightarrow>
     sa_ip (sk_client sk) = ip \<and> pk = (sk_proxy_port sk, sa_port (sk_client sk))"

definition isolated :: "session_store \<Rightarrow> bool" where
  "isolated st \<longleftrightarrow>
     hm_wf (st_sessions st)
     \<and> (\<forall>a. hm_get (st_sessions st) (ExactSocket a) = None)
     \<and> (\<forall>ip s. sm_get st ip = Some s \<longrightarrow> hm_wf (s_udp_sockets s))
     \<and> (\<forall>ip pk sid. refers st ip pk sid \<longrightarrow> live (st_sockets st) sid \<and> serves (st_sockets st ! sid) ip pk)"

definition no_leak :: "session_store \<Rightarrow> bool" where
  "no_leak st \<longleftrightarrow> (\<forall>sid. live (st_sockets st) sid \<longrightarrow> (\<exists>ip pk. refers st ip pk sid))"

definition store_inv :: "session_store \<Rightarrow> bool" where
  "store_inv st \<longleftrightarrow> isolated st \<and> no_leak st"

lemma isolatedD:
  assumes "isolated st"
  shows "hm_wf (st_sessions st)" "hm_get (st_sessions st) (ExactSocket a) = None"
    "sm_get st ip = Some s \<Longrightarrow> hm_wf (s_udp_sockets s)"
    "refers st ip pk sid \<Longrightarrow> live (st_sockets st) sid"
    "refers st ip pk sid \<Longrightarrow> serves (st_sockets st ! sid) ip pk"
  using assms unfolding isolated_def by blast+

lemma store_invD:
  assumes "store_inv st"
  shows "isolated st" "live (st_sockets st) sid \<Longrightarrow> \<exists>ip pk. refers st ip pk sid"
  using assms unfolding store_inv_def no_leak_def by blast+

lemma length_socket_shutdown [simp]: "length (socket_shutdown i socks) = length socks"
  by (simp add: socket_shutdown_def)

lemma length_shutdown_all [simp]: "length (shutdown_all ids socks) = length socks"
  by (induction ids arbitrary: socks) (auto simp: shutdown_all_def)

lemma socket_shutdown_nth:
  "i < length socks \<Longrightarrow> socket_shutdown j socks ! i =
     (if i = j then (socks ! i)\<lparr>sk_shutdown := True\<rparr> else socks ! i)"
  by (simp add: socket_shutdown_def nth_list_update)

lemma shutdown_all_nth:
  "i < length socks \<Longrightarrow> shutdown_all ids socks ! i =
     (if i \<in> set ids then (socks ! i)\<lparr>sk_shutdown := True\<rparr> else socks ! i)"
proof (induction ids arbitrary: socks)
  case (Cons j ids)
  have "shutdown_all (j # ids) socks = shutdown_all ids (socket_shutdown j socks)"
    by (simp add: shutdown_all_def)
  with Cons show ?case by (simp add: socket_shutdown_nth)
qed (simp add: shutdown_all_def)

lemma live_shutdown_all: "live (shutdown_all ids socks) sid \<longleftrightarrow> live socks sid \<and> sid \<notin> set ids"
  by (auto simp: live_def shutdown_all_nth split: if_splits)

lemma serves_shutdown_all:
  "sid < length socks \<Longrightarrow> serves (shutdown_all ids socks ! sid) ip pk \<longleftrightarrow> serves (socks ! sid) ip pk"
  by (simp add: serves_def shutdown_all_nth)

lemma serves_unique: "serves sk ip pk \<Longrightarrow> serves sk ip' pk' \<Longrightarrow> ip' = ip \<and> pk' = pk"
  by (auto simp: serves_def)

lemma sm_get_put [simp]:
  "sm_get (put_session (LegacyIp ip) s st) ip' = (if ip' = ip then Some s else sm_get st ip')"
  by (simp add: sm_get_def put_session_def)

lemma sm_get_sockets [simp]: "sm_get (st\<lparr>st_sockets := x\<rparr>) ip = sm_get st ip"
  by (simp add: sm_get_def)

lemma st_sockets_put [simp]: "st_sockets (put_session k s st) = st_sockets st"
  by (simp add: put_session_def)

lemma refers_ids: "sm_get st ip = Some s \<Longrightarrow> hm_wf (s_udp_sockets s) \<Longrightarrow>
    sid \<in> set (map snd (s_udp_sockets s)) \<longleftrightarrow> (\<exists>pk. refers st ip pk sid)"
  by (force simp: refers_def hm_get_in_set [symmetric] image_iff)

lemma exact_put: "hm_get (st_sessions (put_session (LegacyIp ip) s st)) (ExactSocket a)
    = hm_get (st_sessions st) (ExactSocket a)"
  by (simp add: put_session_def)

lemma wf_put: "hm_wf (st_sessions st) \<Longrightarrow> hm_wf (st_sessions (put_session k s st))"
  by (simp add: put_session_def)

subsection \<open>Preservation\<close>

lemma store_inv_new: "store_inv store_new"
  by (simp add: store_inv_def isolated_def no_leak_def store_new_def sm_get_def refers_def live_def)

text \<open>Replacing a session by one that refers to the same sockets.\<close>

lemma put_same:
  assumes "sm_get st ip = Some s" and "s_udp_sockets s' = s_udp_sockets s"
  shows "isolated st \<Longrightarrow> isolated (put_session (LegacyIp ip) s' st)"
    and "no_leak st \<Longrightarrow> no_leak (put_session (LegacyIp ip) s' st)"
proof -
  have "refers (put_session (LegacyIp ip) s' st) = refers st"
    using assms by (auto simp: refers_def fun_eq_iff)
  then show "isolated st \<Longrightarrow> isolated (put_session (LegacyIp ip) s' st)"
    and "no_leak st \<Longrightarrow> no_leak (put_session (LegacyIp ip) s' st)"
    using assms unfolding isolated_def no_leak_def by (auto simp: exact_put wf_put)
qed

text \<open>Dropping an IP's sockets, shut down or not, and what then becomes of its session.\<close>

lemma isolated_drop:
  assumes iso: "isolated st"
    and socks: "st_sockets st' = shutdown_all ids (st_sockets st)"
    and ids: "\<And>ip' pk sid. sid \<in> set ids \<Longrightarrow> refers st ip' pk sid \<Longrightarrow> ip' = ip"
    and wf: "hm_wf (st_sessions st')"
    and exact: "\<And>a. hm_get (st_sessions st') (ExactSocket a) = None"
    and other: "\<And>ip'. ip' \<noteq> ip \<Longrightarrow> sm_get st' ip' = sm_get st ip'"
    and this_ip: "\<And>s'. sm_get st' ip = Some s' \<Longrightarrow> s_udp_sockets s' = []"
  shows "isolated st'" "refers st' ip' pk sid \<longleftrightarrow> ip' \<noteq> ip \<and> refers st ip' pk sid"
proof -
  note D = isolatedD [OF iso]
  show refers': "refers st' ip' pk sid \<longleftrightarrow> ip' \<noteq> ip \<and> refers st ip' pk sid" for ip' pk sid
    using other this_ip by (cases "ip' = ip") (auto simp: refers_def)
  have "sm_get st' ip' = Some s' \<Longrightarrow> hm_wf (s_udp_sockets s')" for ip' s'
    using other this_ip D(3) by (cases "ip' = ip") auto
  moreover have "live (st_sockets st') sid \<and> serves (st_sockets st' ! sid) ip' pk"
    if "refers st' ip' pk sid" for ip' pk sid
  proof -
    have r: "refers st ip' pk sid" "ip' \<noteq> ip" using that by (auto simp: refers')
    have l: "live (st_sockets st) sid" by (rule D(4) [OF r(1)])
    then have "sid < length (st_sockets st)" by (simp add: live_def)
    moreover have "sid \<notin> set ids" using ids r by blast
    ultimately show ?thesis using l D(5) [OF r(1)]
      by (simp add: socks live_shutdown_all serves_shutdown_all)
  qed
  ultimately show "isolated st'" using wf exact unfolding isolated_def by blast
qed

lemma own_sockets:
  assumes iso: "isolated st" and s: "sm_get st ip = Some s"
    and sid: "sid \<in> set (map snd (s_udp_sockets s))" and r: "refers st ip' pk sid"
  shows "ip' = ip"
proof -
  obtain pk' where "refers st ip pk' sid"
    using refers_ids [OF s isolatedD(3) [OF iso s], of sid] sid by blast
  then show ?thesis using isolatedD(5) [OF iso] r serves_unique by blast
qed

lemma store_inv_drop_sockets:
  assumes inv: "store_inv st" and s: "sm_get st ip = Some s"
    and socks: "st_sockets st' = shutdown_all (map snd (s_udp_sockets s)) (st_sockets st)"
    and wf: "hm_wf (st_sessions st')"
    and exact: "\<And>a. hm_get (st_sessions st') (ExactSocket a) = None"
    and other: "\<And>ip'. ip' \<noteq> ip \<Longrightarrow> sm_get st' ip' = sm_get st ip'"
    and this_ip: "\<And>s'. sm_get st' ip = Some s' \<Longrightarrow> s_udp_sockets s' = []"
  shows "store_inv st'"
proof -
  note iso = store_invD(1) [OF inv]
  have "isolated st'" and refers': "refers st' ip' pk sid \<longleftrightarrow> ip' \<noteq> ip \<and> refers st ip' pk sid" for ip' pk sid
    by (rule isolated_drop [OF iso socks _ wf exact other this_ip], erule (1) own_sockets [OF iso s], assumption+)+
  have "\<exists>ip' pk. refers st' ip' pk sid" if "live (st_sockets st') sid" for sid
  proof -
    have "live (st_sockets st) sid" and no: "sid \<notin> set (map snd (s_udp_sockets s))"
      using that by (simp_all add: socks live_shutdown_all)
    then obtain ip' pk where r: "refers st ip' pk sid" using store_invD(2) [OF inv] by blast
    moreover have "ip' \<noteq> ip"
      using r no refers_ids [OF s isolatedD(3) [OF iso s], of sid] by blast
    ultimately show ?thesis unfolding refers' by blast
  qed
  with \<open>isolated st'\<close> show ?thesis unfolding store_inv_def no_leak_def by blast
qed

text \<open>
  \<open>upsert_shutdown_old\<close> and a removal by the cleanup shut down all sockets of an IP's session and
  leave it without any, or without a session.
\<close>

lemma upsert_shutdown_old_sockets:
  "st_sockets (upsert_shutdown_old client st) =
     (case sm_get st (sa_ip client) of None \<Rightarrow> st_sockets st
      | Some old \<Rightarrow> shutdown_all (map snd (s_udp_sockets old)) (st_sockets st))"
  by (auto simp: upsert_shutdown_old_def shutdown_sockets_def split: option.splits)

lemma upsert_shutdown_old_table:
  assumes "isolated st"
  shows "hm_wf (st_sessions (upsert_shutdown_old client st))"
    "hm_get (st_sessions (upsert_shutdown_old client st)) (ExactSocket a) = None"
  using isolatedD(1,2) [OF assms]
  by (auto simp: upsert_shutdown_old_def shutdown_sockets_def put_session_def split: option.splits)

lemma upsert_shutdown_old_get:
  "sm_get (upsert_shutdown_old client st) ip =
     (if ip = sa_ip client then map_option (\<lambda>s. s\<lparr>s_udp_sockets := []\<rparr>) (sm_get st ip) else sm_get st ip)"
  by (auto simp: upsert_shutdown_old_def shutdown_sockets_def sm_get_def put_session_def
      split: option.splits)

lemma isolated_upsert_shutdown_old:
  assumes iso: "isolated st"
  shows "isolated (upsert_shutdown_old client st)"
proof (cases "sm_get st (sa_ip client)")
  case None
  with iso show ?thesis by (simp add: upsert_shutdown_old_def)
next
  case (Some old)
  show ?thesis
    by (rule isolated_drop [OF iso _ own_sockets [OF iso Some], of "upsert_shutdown_old client st"])
       (auto simp: upsert_shutdown_old_sockets upsert_shutdown_old_get Some
          upsert_shutdown_old_table [OF iso] simp del: set_map)
qed

lemma store_inv_upsert_shutdown_old:
  assumes inv: "store_inv st"
  shows "store_inv (upsert_shutdown_old client st)"
proof (cases "sm_get st (sa_ip client)")
  case None
  with inv show ?thesis by (simp add: upsert_shutdown_old_def)
next
  case (Some old)
  show ?thesis
    by (rule store_inv_drop_sockets [OF inv Some])
       (auto simp: upsert_shutdown_old_sockets upsert_shutdown_old_get Some
          upsert_shutdown_old_table [OF store_invD(1) [OF inv]])
qed

lemma isolated_put_fresh:
  assumes iso: "isolated st" and s': "s_udp_sockets s' = []"
  shows "isolated (put_session (LegacyIp ip) s' st)"
  by (rule isolated_drop(1) [OF iso, where ids = "[]" and ip = ip])
     (use isolatedD [OF iso] s' in \<open>auto simp: shutdown_all_def exact_put wf_put split: if_splits\<close>)

lemma store_inv_put_fresh:
  assumes inv: "store_inv st" and old: "\<And>s. sm_get st ip = Some s \<Longrightarrow> s_udp_sockets s = []"
    and s': "s_udp_sockets s' = []"
  shows "store_inv (put_session (LegacyIp ip) s' st)"
proof -
  have "refers (put_session (LegacyIp ip) s' st) = refers st"
    using old s' by (auto simp: refers_def fun_eq_iff)
  then show ?thesis
    using inv isolated_put_fresh [OF store_invD(1) [OF inv] s'] unfolding store_inv_def no_leak_def by simp
qed

lemma isolated_upsert_insert: "isolated st \<Longrightarrow> isolated (upsert_insert now client ip m st)"
  by (simp add: upsert_insert_def new_multi_port_def isolated_put_fresh)

lemma isolated_upsert: "isolated st \<Longrightarrow> isolated (upsert_multi_port now client ip m st)"
  unfolding upsert_multi_port_def by (intro isolated_upsert_insert isolated_upsert_shutdown_old)

lemma store_inv_upsert: "store_inv st \<Longrightarrow> store_inv (upsert_multi_port now client ip m st)"
  unfolding upsert_multi_port_def upsert_insert_def
  by (rule store_inv_put_fresh [OF store_inv_upsert_shutdown_old])
     (auto simp: upsert_shutdown_old_get new_multi_port_def)

lemma touch_by_addr_ip: "isolated st \<Longrightarrow> touch_by_addr now addr st = sm_touch now (sa_ip addr) st"
  by (simp add: touch_by_addr_def isolatedD(2))

lemma isolated_touch: "isolated st \<Longrightarrow> isolated (touch_by_addr now addr st)"
  by (auto simp: touch_by_addr_ip sm_touch_def session_touch_def intro: put_same split: option.splits)

lemma store_inv_touch: "store_inv st \<Longrightarrow> store_inv (touch_by_addr now addr st)"
  using isolated_touch [of st now addr] unfolding store_inv_def
  by (auto simp: touch_by_addr_ip sm_touch_def session_touch_def intro: put_same split: option.splits)

lemma cleanup_remove_drop:
  assumes "isolated (fst stw)" and "hm_get (st_sessions (fst stw)) key = Some s"
  obtains ip where "key = LegacyIp ip" "sm_get (fst stw) ip = Some s"
    "st_sockets (fst (cleanup_remove cb key stw)) =
       shutdown_all (map snd (s_udp_sockets s)) (st_sockets (fst stw))"
    "hm_wf (st_sessions (fst (cleanup_remove cb key stw)))"
    "\<And>a. hm_get (st_sessions (fst (cleanup_remove cb key stw))) (ExactSocket a) = None"
    "\<And>ip'. ip' \<noteq> ip \<Longrightarrow> sm_get (fst (cleanup_remove cb key stw)) ip' = sm_get (fst stw) ip'"
    "sm_get (fst (cleanup_remove cb key stw)) ip = None"
proof (cases key)
  case (LegacyIp ip)
  show thesis
    by (rule that [of ip])
       (use LegacyIp assms isolatedD [OF assms(1)] in
         \<open>auto simp: cleanup_remove_def shutdown_sockets_def sm_get_def Let_def\<close>)
qed (use assms isolatedD(2) [OF assms(1)] in simp)

lemma isolated_cleanup_remove:
  assumes iso: "isolated (fst stw)"
  shows "isolated (fst (cleanup_remove cb key stw))"
proof (cases "hm_get (st_sessions (fst stw)) key")
  case None
  with iso show ?thesis by (simp add: cleanup_remove_def)
next
  case (Some s)
  show ?thesis
    by (rule cleanup_remove_drop [OF iso Some, where cb = cb])
       (rule isolated_drop(1) [OF iso], assumption, erule (2) own_sockets [OF iso], auto)
qed

lemma store_inv_cleanup_remove:
  assumes inv: "store_inv (fst stw)"
  shows "store_inv (fst (cleanup_remove cb key stw))"
proof (cases "hm_get (st_sessions (fst stw)) key")
  case None
  with inv show ?thesis by (simp add: cleanup_remove_def)
next
  case (Some s)
  show ?thesis
    by (rule cleanup_remove_drop [OF store_invD(1) [OF inv] Some, where cb = cb])
       (rule store_inv_drop_sockets [OF inv], auto)
qed

lemma store_inv_fold_cleanup:
  "store_inv (fst stw) \<Longrightarrow> store_inv (fst (fold (cleanup_remove cb) keys stw))"
  by (induction keys arbitrary: stw) (simp_all add: store_inv_cleanup_remove)

lemma store_inv_cleanup: "store_inv (fst stw) \<Longrightarrow> store_inv (fst (cleanup_tick t cb now stw))"
  by (simp add: cleanup_tick_def store_inv_fold_cleanup)

text \<open>The two passes of \<open>clear_all\<close>: visiting a session shuts its sockets down as replacing it does.\<close>

lemma sweep_legacy: "sweep_session (LegacyIp (sa_ip client)) st = upsert_shutdown_old client st"
  by (simp add: sweep_session_def upsert_shutdown_old_def sm_get_def)

lemma sweep_exact: "isolated st \<Longrightarrow> sweep_session (ExactSocket a) st = st"
  by (simp add: sweep_session_def isolatedD(2))

lemma sweep_cases:
  assumes "isolated st"
  obtains client where "key = LegacyIp (sa_ip client)" "sweep_session key st = upsert_shutdown_old client st"
  | a where "key = ExactSocket a" "sweep_session key st = st"
proof (cases key)
  case (LegacyIp ip)
  then show thesis using that(1) [of "\<lparr>sa_ip = ip, sa_port = 0, sa_scope_id = 0\<rparr>"] by (simp add: sweep_legacy [symmetric])
qed (use that(2) sweep_exact [OF assms] in simp)

lemma isolated_sweep: "isolated st \<Longrightarrow> isolated (sweep_session key st)"
  by (rule sweep_cases [of st key]) (simp_all add: isolated_upsert_shutdown_old)

lemma store_inv_sweep: "store_inv st \<Longrightarrow> store_inv (sweep_session key st)"
  by (rule sweep_cases [of st key]) (simp_all add: store_invD(1) store_inv_upsert_shutdown_old)

lemma refers_sweep:
  "isolated st \<Longrightarrow> refers (sweep_session key st) ip pk sid \<longleftrightarrow> key \<noteq> LegacyIp ip \<and> refers st ip pk sid"
  by (rule sweep_cases [of st key]) (auto simp: refers_def upsert_shutdown_old_get)

lemma store_inv_sweeps: "store_inv st \<Longrightarrow> store_inv (fold sweep_session keys st)"
  by (induction keys arbitrary: st) (simp_all add: store_inv_sweep)

lemma refers_sweeps:
  "isolated st \<Longrightarrow> refers (fold sweep_session keys st) ip pk sid \<longleftrightarrow> LegacyIp ip \<notin> set keys \<and> refers st ip pk sid"
  by (induction keys arbitrary: st) (auto simp: isolated_sweep refers_sweep)

lemma drops_sessions:
  "st_sessions (fold drop_session keys st) = filter (\<lambda>(k, _). k \<notin> set keys) (st_sessions st)"
  by (induction keys arbitrary: st) (auto simp: drop_session_def AList.delete_eq intro!: filter_cong)

lemma drops_sockets: "st_sockets (fold drop_session keys st) = st_sockets st"
  by (induction keys arbitrary: st) (simp_all add: drop_session_def)

lemma isolated_drop_session: "isolated st \<Longrightarrow> isolated (drop_session key st)"
  unfolding isolated_def refers_def by (auto simp: drop_session_def sm_get_def split: if_splits)

lemma clear_all_sessions [simp]: "st_sessions (clear_all st) = []"
  by (auto simp: clear_all_def Let_def drops_sessions filter_empty_conv intro: rev_image_eqI)

lemma isolated_clear_all: "isolated (clear_all st)"
  by (simp add: isolated_def refers_def sm_get_def)

lemma clear_all_no_live:
  assumes inv: "store_inv st"
  shows "\<not> live (st_sockets (clear_all st)) sid"
proof
  let ?swept = "fold sweep_session (hm_keys (st_sessions st)) st"
  assume "live (st_sockets (clear_all st)) sid"
  then have "live (st_sockets ?swept) sid" by (simp add: clear_all_def Let_def drops_sockets)
  then obtain ip pk where "refers ?swept ip pk sid"
    using store_invD(2) [OF store_inv_sweeps [OF inv]] by blast
  then have "LegacyIp ip \<notin> set (hm_keys (st_sessions st))" and "refers st ip pk sid"
    by (simp_all add: refers_sweeps [OF store_invD(1) [OF inv]] del: set_map)
  then show False by (simp add: refers_def sm_get_def map_of_eq_None_iff [symmetric])
qed

lemma store_inv_clear_all: "store_inv st \<Longrightarrow> store_inv (clear_all st)"
  by (simp add: store_inv_def [of "clear_all st"] isolated_clear_all no_leak_def clear_all_no_live)

text \<open>Looking a client's socket up, creating it where there is none.\<close>

lemma get_or_create_cases:
  assumes "get_or_create_udp_socket bound pp client s socks = Inr (sid, s', socks')"
  obtains (reused) "hm_get (s_udp_sockets s) (pp, sa_port client) = Some sid" "s' = s" "socks' = socks"
  | (created) "hm_get (s_udp_sockets s) (pp, sa_port client) = None" "bound" "sid = length socks"
      "s' = s\<lparr>s_udp_sockets := hm_insert (pp, sa_port client) sid (s_udp_sockets s)\<rparr>"
      "socks' = socks @ [\<lparr>sk_client = client, sk_proxy_port = pp, sk_shutdown = False\<rparr>]"
  using assms
  by (cases "hm_get (s_udp_sockets s) (pp, sa_port client)")
     (auto simp: get_or_create_udp_socket_def socket_new_def result_simps split: if_splits)

lemma refers_create:
  assumes "sm_get st ip = Some s"
  shows "refers (put_session (LegacyIp ip) (s\<lparr>s_udp_sockets := hm_insert pk sid (s_udp_sockets s)\<rparr>)
      (st\<lparr>st_sockets := socks\<rparr>)) ip' pk' i \<longleftrightarrow>
    (if ip' = ip \<and> pk' = pk then i = sid else refers st ip' pk' i)"
  using assms by (auto simp: refers_def)

lemma isolated_create:
  assumes iso: "isolated st" and s: "sm_get st (sa_ip client) = Some s"
    and create: "get_or_create_udp_socket bound pp client s (st_sockets st) = Inr (sid, s', socks')"
  shows "isolated (put_session (LegacyIp (sa_ip client)) s' (st\<lparr>st_sockets := socks'\<rparr>))"
  using create
proof (cases rule: get_or_create_cases)
  case reused
  then have "st\<lparr>st_sockets := socks'\<rparr> = st" by simp
  then show ?thesis using put_same(1) [OF s _ iso] reused by simp
next
  case created
  let ?st' = "put_session (LegacyIp (sa_ip client)) s' (st\<lparr>st_sockets := socks'\<rparr>)"
  note D = isolatedD [OF iso]
  note refers' = refers_create [OF s, of "(pp, sa_port client)" sid socks', folded created(4)]
  have new: "live socks' sid" "serves (socks' ! sid) (sa_ip client) (pp, sa_port client)"
    using created by (simp_all add: live_def serves_def)
  have old: "live socks' i" "socks' ! i = st_sockets st ! i" if "live (st_sockets st) i" for i
    using created that by (auto simp: live_def nth_append)
  have "hm_wf (s_udp_sockets x)" if "sm_get ?st' ip = Some x" for ip x
    using that D(3) [OF s] D(3) created(4) by (auto split: if_splits)
  moreover have "live (st_sockets ?st') i \<and> serves (st_sockets ?st' ! i) ip pk"
    if "refers ?st' ip pk i" for ip pk i
  proof (cases "ip = sa_ip client \<and> pk = (pp, sa_port client)")
    case True
    with that new show ?thesis by (simp add: refers')
  next
    case False
    then have r: "refers st ip pk i" using that by (simp add: refers')
    show ?thesis using old [OF D(4) [OF r]] D(5) [OF r] by simp
  qed
  ultimately show ?thesis
    using D(1,2) unfolding isolated_def by (simp add: exact_put wf_put)
qed

lemma no_leak_create:
  assumes leak: "no_leak st" and s: "sm_get st (sa_ip client) = Some s"
    and create: "get_or_create_udp_socket bound pp client s (st_sockets st) = Inr (sid, s', socks')"
  shows "no_leak (put_session (LegacyIp (sa_ip client)) s' (st\<lparr>st_sockets := socks'\<rparr>))"
  using create
proof (cases rule: get_or_create_cases)
  case reused
  then have "st\<lparr>st_sockets := socks'\<rparr> = st" by simp
  then show ?thesis using put_same(2) [OF s _ leak] reused by simp
next
  case created
  let ?st' = "put_session (LegacyIp (sa_ip client)) s' (st\<lparr>st_sockets := socks'\<rparr>)"
  note refers' = refers_create [OF s, of "(pp, sa_port client)" sid socks', folded created(4)]
  have "\<exists>ip pk. refers ?st' ip pk i" if live: "live (st_sockets ?st') i" for i
  proof (cases "i = sid")
    case True
    then show ?thesis by (intro exI [of _ "sa_ip client"] exI [of _ "(pp, sa_port client)"]) (simp add: refers')
  next
    case False
    then have "live (st_sockets st) i" using live created by (auto simp: live_def nth_append)
    then obtain ip pk where r: "refers st ip pk i" using leak unfolding no_leak_def by blast
    have "\<not> (ip = sa_ip client \<and> pk = (pp, sa_port client))"
      using r s created(1) by (auto simp: refers_def)
    with r have "refers ?st' ip pk i" unfolding refers' by argo
    then show ?thesis by blast
  qed
  then show ?thesis unfolding no_leak_def by blast
qed

lemma store_inv_create:
  assumes "store_inv st" and "sm_get st (sa_ip client) = Some s"
    and "get_or_create_udp_socket bound pp client s (st_sockets st) = Inr (sid, s', socks')"
  shows "store_inv (put_session (LegacyIp (sa_ip client)) s' (st\<lparr>st_sockets := socks'\<rparr>))"
  using assms isolated_create no_leak_create unfolding store_inv_def by blast

subsection \<open>What cleanup removes\<close>

definition expire ::
  "u64 \<Rightarrow> nat \<Rightarrow> (session_key, session) hashmap \<Rightarrow> (session_key \<times> session) list" where
  "expire t now m = filter (\<lambda>(_, s). is_timed_out t now s) m"

lemma cleanup_fold_get:
  "hm_get (st_sessions (fst (fold (cleanup_remove cb) keys stw))) k =
     (if k \<in> set keys then None else hm_get (st_sessions (fst stw)) k)"
proof (induction keys arbitrary: stw)
  case (Cons key keys)
  have "hm_get (st_sessions (fst (cleanup_remove cb key stw))) k =
      (if k = key then None else hm_get (st_sessions (fst stw)) k)"
    by (auto simp: cleanup_remove_def Let_def split: option.splits)
  with Cons.IH [of "cleanup_remove cb key stw"] show ?case by auto
qed simp

lemma in_cleanup_scan:
  "hm_wf (st_sessions st) \<Longrightarrow> k \<in> set (cleanup_scan t now st) \<longleftrightarrow>
     (\<exists>s. hm_get (st_sessions st) k = Some s \<and> is_timed_out t now s)"
  by (force simp: cleanup_scan_def hm_get_in_set [symmetric])

lemma cleanup_fold_callback:
  assumes "distinct keys"
    and "\<forall>k\<in>set keys. \<exists>s. hm_get (st_sessions (fst stw)) k = Some s"
  shows "snd (fold (cleanup_remove cb) keys stw) =
    (case cb of None \<Rightarrow> snd stw
     | Some f \<Rightarrow> fold (\<lambda>k. f (s_target_ip (the (hm_get (st_sessions (fst stw)) k)))) keys (snd stw))"
  using assms
proof (induction keys arbitrary: stw)
  case (Cons key keys)
  obtain s where s: "hm_get (st_sessions (fst stw)) key = Some s" using Cons.prems by auto
  let ?next = "cleanup_remove cb key stw"
  have get: "hm_get (st_sessions (fst ?next)) k = hm_get (st_sessions (fst stw)) k" if "k \<in> set keys" for k
    using that Cons.prems(1) s by (auto simp: cleanup_remove_def Let_def)
  have snd_next: "snd ?next = (case cb of None \<Rightarrow> snd stw | Some f \<Rightarrow> f (s_target_ip s) (snd stw))"
    using s by (simp add: cleanup_remove_def Let_def)
  have IH: "snd (fold (cleanup_remove cb) keys ?next) =
    (case cb of None \<Rightarrow> snd ?next
     | Some f \<Rightarrow> fold (\<lambda>k. f (s_target_ip (the (hm_get (st_sessions (fst ?next)) k)))) keys (snd ?next))"
    by (rule Cons.IH) (use Cons.prems get in auto)
  have "fold (\<lambda>k. f (s_target_ip (the (hm_get (st_sessions (fst ?next)) k)))) keys w =
      fold (\<lambda>k. f (s_target_ip (the (hm_get (st_sessions (fst stw)) k)))) keys w" for f and w :: 'a
    by (rule fold_cong) (use get in auto)
  with IH snd_next s show ?case by (simp split: option.splits)
qed (simp split: option.splits)

section \<open>The route contract\<close>

text \<open>
  What the query server and the proxy rely on: installing a route for a client makes it the route of
  every address of the same client and leaves the others', touching changes no route.
\<close>

locale route_table =
  fixes route :: "'s \<Rightarrow> 'a \<Rightarrow> 'r option"
    and install :: "'a \<Rightarrow> 'r \<Rightarrow> 's \<Rightarrow> 's"
    and touch :: "'a \<Rightarrow> 's \<Rightarrow> 's"
    and same :: "'a \<Rightarrow> 'a \<Rightarrow> bool"
    and good :: "'s \<Rightarrow> bool"
  assumes good_install: "good s \<Longrightarrow> good (install a r s)"
    and good_touch: "good s \<Longrightarrow> good (touch a s)"
    and route_install: "good s \<Longrightarrow> route (install a r s) b = (if same a b then Some r else route s b)"
    and route_touch: "good s \<Longrightarrow> route (touch a s) b = route s b"
begin

lemma good_installs: "good s \<Longrightarrow> good (fold (\<lambda>(a, r). install a r) ops s)"
  by (induction ops arbitrary: s) (auto intro: good_install)

text \<open>The last route installed for the client wins.\<close>

lemma route_installs:
  "good s \<Longrightarrow> route (fold (\<lambda>(a, r). install a r) ops s) b =
     (case find (\<lambda>(a, r). same a b) (rev ops) of Some (_, r) \<Rightarrow> Some r | None \<Rightarrow> route s b)"
proof (induction ops rule: rev_induct)
  case (snoc x ops)
  obtain a r where "x = (a, r)" by force
  with snoc show ?case by (simp add: route_install good_installs)
qed simp

lemma route_install_touch:
  "good s \<Longrightarrow> same a b \<Longrightarrow> route (touch b (install a r s)) b = Some r"
  by (simp add: route_touch good_install route_install)

end

text \<open>The route of an address: the target and port mappings its packets use.\<close>

definition route_of :: "session_store \<Rightarrow> socket_addr \<Rightarrow> (string \<times> port_mappings) option" where
  "route_of st addr = map_option (\<lambda>s. (s_target_ip s, s_port_mappings s)) (get_by_addr st addr)"

lemma get_by_addr_inv: "isolated st \<Longrightarrow> get_by_addr st addr = sm_get st (sa_ip addr)"
  by (simp add: get_by_addr_def isolatedD(2))

lemma get_mut_by_addr_inv:
  "isolated st \<Longrightarrow> get_mut_by_addr st addr =
     map_option (\<lambda>s. (LegacyIp (sa_ip addr), s)) (sm_get st (sa_ip addr))"
  by (auto simp: get_mut_by_addr_def key_by_addr_def isolatedD(2) sm_get_def split: option.splits)

lemma sm_get_upsert:
  "sm_get (upsert_multi_port now client ip m st) a =
     (if a = sa_ip client then Some (new_multi_port now ip m) else sm_get st a)"
  by (simp add: upsert_multi_port_def upsert_insert_def upsert_shutdown_old_get)

lemma sm_get_touch:
  "isolated st \<Longrightarrow> sm_get (touch_by_addr now addr st) a =
     (if a = sa_ip addr then map_option (session_touch now) (sm_get st a) else sm_get st a)"
  by (auto simp: touch_by_addr_ip sm_touch_def split: option.splits)

interpretation routes: route_table route_of "\<lambda>a (ip, m). upsert_multi_port now a ip m"
    "touch_by_addr now" "\<lambda>a b. sa_ip a = sa_ip b" isolated
  for now :: nat
proof (unfold_locales, goal_cases)
  case (1 s a r)
  then show ?case by (cases r) (simp add: isolated_upsert)
next
  case (2 s a)
  then show ?case by (rule isolated_touch)
next
  case (3 s a r b)
  then show ?case
    by (cases r) (auto simp: route_of_def get_by_addr_inv isolated_upsert sm_get_upsert new_multi_port_def)
next
  case (4 s a b)
  then show ?case
    by (auto simp: route_of_def get_by_addr_inv isolated_touch sm_get_touch session_touch_def
        option.map_comp comp_def)
qed

section \<open>Interleavings\<close>

text \<open>
  The tasks share the table and hold its lock for one of these steps at a time; between two of them
  any other task may run. \<open>table_step\<close> is one such step, \<open>whole_step\<close> one operation as a whole.
\<close>

inductive table_step :: "session_store \<Rightarrow> session_store \<Rightarrow> bool" where
  ts_shutdown_old: "table_step st (upsert_shutdown_old client st)"
| ts_insert: "table_step st (upsert_insert now client ip m st)"
| ts_socket: "get_mut_by_addr st client = Some (k, s) \<Longrightarrow>
    get_or_create_udp_socket bound pp client s (st_sockets st) = Inr (sid, s', socks) \<Longrightarrow>
    table_step st (put_session k s' (st\<lparr>st_sockets := socks\<rparr>))"
| ts_touch: "table_step st (touch_by_addr now client st)"
| ts_cleanup: "table_step st (fst (cleanup_remove None key (st, ())))"
| ts_sweep: "table_step st (sweep_session key st)"
| ts_drop: "table_step st (drop_session key st)"

inductive whole_step :: "session_store \<Rightarrow> session_store \<Rightarrow> bool" where
  ws_upsert: "whole_step st (upsert_multi_port now client ip m st)"
| ws_socket: "get_mut_by_addr st client = Some (k, s) \<Longrightarrow>
    get_or_create_udp_socket bound pp client s (st_sockets st) = Inr (sid, s', socks) \<Longrightarrow>
    whole_step st (put_session k s' (st\<lparr>st_sockets := socks\<rparr>))"
| ws_touch: "whole_step st (touch_by_addr now client st)"
| ws_cleanup: "whole_step st (fst (cleanup_tick t None now (st, ())))"
| ws_clear: "whole_step st (clear_all st)"

lemma get_mut_isolated:
  "isolated st \<Longrightarrow> get_mut_by_addr st client = Some (k, s) \<Longrightarrow>
     k = LegacyIp (sa_ip client) \<and> sm_get st (sa_ip client) = Some s"
  by (auto simp: get_mut_by_addr_def key_by_addr_def isolatedD(2) sm_get_def split: option.splits)

lemma isolated_table_step: "table_step st st' \<Longrightarrow> isolated st \<Longrightarrow> isolated st'"
proof (induction rule: table_step.induct)
  case (ts_socket st client k s bound pp sid s' socks)
  then show ?case using get_mut_isolated isolated_create by blast
next
  case (ts_cleanup st key)
  then show ?case using isolated_cleanup_remove [of "(st, ())"] by simp
qed (simp_all add: isolated_upsert_shutdown_old isolated_upsert_insert isolated_touch isolated_sweep isolated_drop_session)

lemma store_inv_whole_step: "whole_step st st' \<Longrightarrow> store_inv st \<Longrightarrow> store_inv st'"
proof (induction rule: whole_step.induct)
  case (ws_socket st client k s bound pp sid s' socks)
  then show ?case using get_mut_isolated store_invD(1) store_inv_create by blast
next
  case (ws_cleanup st t now)
  then show ?case using store_inv_cleanup [of "(st, ())"] by simp
qed (simp_all add: store_inv_upsert store_inv_touch store_inv_clear_all)

interpretation table_run: step_invariant table_step store_new isolated
  by unfold_locales (use store_inv_new store_invD(1) isolated_table_step in blast)+

lemmas isolated_reachable = table_run.inv_reachable

section \<open>Properties\<close>

text \<open>A client, a second one behind the same address, and the mappings of one data port.\<close>

definition sample_client :: socket_addr where "sample_client = addr_v4 192 0 2 1 5000"
definition sample_peer :: socket_addr where "sample_peer = addr_v4 192 0 2 1 5001"

definition sample_ports :: port_mappings where "sample_ports = [((7777, Udp), 31000)]"

definition sample_store :: session_store where
  "sample_store =
     \<lparr>st_sessions = [(LegacyIp (IPv4 192 0 2 1),
        \<lparr>s_target_ip = ''10.0.0.1'', s_port_mappings = sample_ports, s_last_activity = 0,
         s_udp_sockets = [((7777, 5000), 0)]\<rparr>)],
      st_sockets = [\<lparr>sk_client = sample_client, sk_proxy_port = 7777, sk_shutdown = False\<rparr>]\<rparr>"

lemmas sample_defs = sample_client_def sample_peer_def sample_ports_def sample_store_def addr_v4_def

lemmas table_defs = put_session_def get_mut_by_addr_def key_by_addr_def sm_get_def
  get_or_create_udp_socket_def socket_new_def shutdown_sockets_def shutdown_all_def
  socket_shutdown_def new_multi_port_def upsert_shutdown_old_def upsert_insert_def store_new_def

lemma sample_store_reached: "whole_step\<^sup>*\<^sup>* store_new sample_store"
proof -
  let ?st = "upsert_multi_port 0 sample_client ''10.0.0.1'' sample_ports store_new"
  have "whole_step store_new ?st" by (rule ws_upsert)
  moreover have "whole_step ?st sample_store"
  proof -
    let ?s = "new_multi_port 0 ''10.0.0.1'' sample_ports"
    let ?s' = "?s\<lparr>s_udp_sockets := [((7777, 5000), 0)]\<rparr>"
    let ?socks = "[\<lparr>sk_client = sample_client, sk_proxy_port = 7777, sk_shutdown = False\<rparr>]"
    have mut: "get_mut_by_addr ?st sample_client = Some (LegacyIp (IPv4 192 0 2 1), ?s)"
      by (simp add: upsert_multi_port_def table_defs sample_defs)
    have create: "get_or_create_udp_socket True 7777 sample_client ?s (st_sockets ?st) = Inr (0, ?s', ?socks)"
      by (simp add: upsert_multi_port_def table_defs sample_defs)
    have "put_session (LegacyIp (IPv4 192 0 2 1)) ?s' (?st\<lparr>st_sockets := ?socks\<rparr>) = sample_store"
      by (simp add: upsert_multi_port_def table_defs sample_defs)
    with ws_socket [OF mut create] show ?thesis by simp
  qed
  ultimately show ?thesis by (meson converse_rtranclp_into_rtranclp rtranclp.rtrancl_refl)
qed

lemma table_step_fold: "(\<And>k st. table_step st (f k st)) \<Longrightarrow> table_step\<^sup>*\<^sup>* st (fold f ks st)"
  by (induction ks arbitrary: st) (auto intro: converse_rtranclp_into_rtranclp)

lemma whole_step_table_steps: "whole_step st st' \<Longrightarrow> table_step\<^sup>*\<^sup>* st st'"
proof (induction rule: whole_step.induct)
  case (ws_upsert st now client ip m)
  show ?case unfolding upsert_multi_port_def
    by (meson ts_shutdown_old ts_insert r_into_rtranclp rtranclp.rtrancl_into_rtrancl)
next
  case (ws_cleanup st t now)
  have "table_step\<^sup>*\<^sup>* (fst stw) (fst (fold (cleanup_remove None) keys stw))"
    for keys and stw :: "session_store \<times> unit"
  proof (induction keys arbitrary: stw)
    case (Cons key keys)
    have "table_step (fst stw) (fst (cleanup_remove None key stw))"
      using ts_cleanup [of "fst stw" key] by (cases stw) simp
    with Cons [of "cleanup_remove None key stw"] show ?case by (simp add: converse_rtranclp_into_rtranclp)
  qed simp
  from this [of "(st, ())"] show ?case by (simp add: cleanup_tick_def)
next
  case (ws_clear st)
  show ?case unfolding clear_all_def Let_def
    by (rule rtranclp_trans; rule table_step_fold; rule ts_sweep ts_drop)
qed (auto intro: table_step.intros)

text \<open>Whole operations keep the invariant, and are runs of the interleaved steps.\<close>

interpretation whole_run: simulation whole_step store_new store_inv "\<lambda>st. st" table_step
  by unfold_locales (auto intro: store_inv_new store_inv_whole_step whole_step_table_steps)

lemmas store_inv_reachable = whole_run.inv_reachable
lemmas whole_reachable_table = whole_run.reachable_simulated

text \<open>
  C7. Replies never reach another client, under every interleaving of the tasks' steps: a datagram
  that arrives on the upstream socket kept for an IP and a client port is forwarded to exactly that
  IP and port, and no other IP, client port or proxy port shares the socket.
\<close>

theorem replies_isolated:
  assumes "table_step\<^sup>*\<^sup>* store_new st" and "refers st ip (pp, cp) sid"
  shows "(\<exists>addr. receive_turn (st_sockets st) sid (Received bytes) = TaskForwards addr bytes
            \<and> sa_ip addr = ip \<and> sa_port addr = cp)
    \<and> (\<forall>ip' pk'. refers st ip' pk' sid \<longrightarrow> ip' = ip \<and> pk' = (pp, cp))"
proof -
  note D = isolatedD [OF isolated_reachable [OF assms(1)]]
  have "live (st_sockets st) sid" "serves (st_sockets st ! sid) ip (pp, cp)"
    using D(4,5) assms(2) by blast+
  moreover from this have "\<forall>ip' pk'. refers st ip' pk' sid \<longrightarrow> ip' = ip \<and> pk' = (pp, cp)"
    using D(5) serves_unique by blast
  ultimately show ?thesis by (simp add: receive_turn_def live_def serves_def)
qed

lemma replies_isolated_witness:
  "receive_turn (st_sockets sample_store) 0 (Received [1, 2]) = TaskForwards sample_client [1, 2]
   \<and> \<not> refers sample_store (IPv4 192 0 2 1) (7777, 5001) 0"
proof -
  have "refers sample_store (IPv4 192 0 2 1) (7777, 5000) 0"
    by (simp add: refers_def sm_get_def sample_defs)
  from conjunct2 [OF replies_isolated [OF whole_reachable_table [OF sample_store_reached] this, of "[1, 2]"],
      THEN spec, THEN spec, of "IPv4 192 0 2 1" "(7777, 5001)"]
  have "\<not> refers sample_store (IPv4 192 0 2 1) (7777, 5001) 0" by simp
  then show ?thesis by (simp add: receive_turn_def sample_defs)
qed

text \<open>
  When each operation on the table runs as a whole, no receive task is ever leaked: a socket is
  live exactly when one entry of one session refers to it, and shutting the proxy down
  (\<open>clear_all\<close>) leaves no live socket and no session.
\<close>

theorem live_sockets_referenced:
  assumes "whole_step\<^sup>*\<^sup>* store_new st"
  shows "(live (st_sockets st) sid \<longleftrightarrow> (\<exists>ip pk. refers st ip pk sid))
    \<and> (refers st ip pk sid \<and> refers st ip' pk' sid \<longrightarrow> ip' = ip \<and> pk' = pk)
    \<and> \<not> live (st_sockets (clear_all st)) sid \<and> sm_count (clear_all st) = 0"
proof -
  note inv = store_inv_reachable [OF assms]
  note D = isolatedD [OF store_invD(1) [OF inv]]
  have "refers st ip pk sid \<and> refers st ip' pk' sid \<longrightarrow> ip' = ip \<and> pk' = pk"
    using D(5) serves_unique by blast
  moreover have "live (st_sockets st) sid \<longleftrightarrow> (\<exists>ip pk. refers st ip pk sid)"
    using D(4) store_invD(2) [OF inv] by blast
  ultimately show ?thesis
    using clear_all_no_live [OF inv] by (simp add: sm_count_def)
qed

lemma live_sockets_referenced_witness:
  "(\<exists>ip pk. refers sample_store ip pk 0) \<and> \<not> live (st_sockets (clear_all sample_store)) 0"
  using live_sockets_referenced [OF sample_store_reached, of 0] by (simp add: live_def sample_defs)

text \<open>
  \<open>upsert_multi_port\<close> releases the table's lock between shutting the old sockets down and
  inserting the new session. A data packet of the same client in between creates a socket in the
  old session, which the insertion then drops: the receive task of that socket stays live with no
  session referring to it, out of reach of every later shutdown.
\<close>

theorem upsert_race_leaks_socket:
  "\<exists>st sid. table_step\<^sup>*\<^sup>* store_new st \<and> live (st_sockets st) sid
     \<and> (\<forall>ip pk. \<not> refers st ip pk sid) \<and> live (st_sockets (clear_all st)) sid"
proof -
  let ?m = sample_ports and ?c = sample_client
  let ?s = "new_multi_port 0 ''10.0.0.1'' ?m"
  let ?st1 = "upsert_insert 0 ?c ''10.0.0.1'' ?m store_new"
  let ?st2 = "upsert_shutdown_old ?c ?st1"
  let ?s' = "?s\<lparr>s_udp_sockets := [((7777, 5000), 0)]\<rparr>"
  let ?socks = "[\<lparr>sk_client = ?c, sk_proxy_port = 7777, sk_shutdown = False\<rparr>]"
  let ?st3 = "put_session (LegacyIp (IPv4 192 0 2 1)) ?s' (?st2\<lparr>st_sockets := ?socks\<rparr>)"
  let ?st4 = "upsert_insert 0 ?c ''10.0.0.2'' ?m ?st3"
  have mut: "get_mut_by_addr ?st2 ?c = Some (LegacyIp (IPv4 192 0 2 1), ?s)"
    and create: "get_or_create_udp_socket True 7777 ?c ?s (st_sockets ?st2) = Inr (0, ?s', ?socks)"
    by (simp_all add: table_defs sample_defs)
  have "table_step store_new ?st1" "table_step ?st1 ?st2" "table_step ?st3 ?st4"
    by (rule ts_insert ts_shutdown_old)+
  moreover have "table_step ?st2 ?st3" by (rule ts_socket [OF mut create])
  ultimately have "table_step\<^sup>*\<^sup>* store_new ?st4"
    by (meson rtranclp.rtrancl_into_rtrancl rtranclp.rtrancl_refl)
  moreover have "live (st_sockets ?st4) 0" "live (st_sockets (clear_all ?st4)) 0"
    by (simp_all add: live_def clear_all_def sweep_session_def drop_session_def table_defs sample_defs)
  moreover have "\<not> refers ?st4 ip pk 0" for ip pk
    by (simp add: refers_def table_defs sample_defs)
  ultimately show ?thesis by blast
qed

text \<open>
  A successful query replaces the client's route and no other: afterwards every address of the
  client's IP is routed to the new target with the new mappings, other IPs keep their sessions,
  all sockets of the replaced session are shut down and those of other IPs stay as they were.
\<close>

theorem upsert_replaces_route:
  assumes "isolated st" and st': "st' = upsert_multi_port now client ip m st"
  shows "route_of st' addr = (if sa_ip addr = sa_ip client then Some (ip, m) else route_of st addr)
    \<and> (a \<noteq> sa_ip client \<longrightarrow> sm_get st' a = sm_get st a)
    \<and> (refers st a pk sid \<longrightarrow> live (st_sockets st') sid = (a \<noteq> sa_ip client))"
proof -
  note D = isolatedD [OF assms(1)]
  have get: "sm_get st' b = (if b = sa_ip client then Some (new_multi_port now ip m) else sm_get st b)" for b
    by (simp add: st' sm_get_upsert)
  have exact: "hm_get (st_sessions st') (ExactSocket b) = None" for b
    unfolding st' upsert_multi_port_def
    by (intro isolatedD(2) isolated_upsert_insert isolated_upsert_shutdown_old assms(1))
  have "live (st_sockets st') sid = (a \<noteq> sa_ip client)" if r: "refers st a pk sid"
  proof (cases "sm_get st (sa_ip client)")
    case None
    with r D(4) [OF r] show ?thesis
      by (auto simp: st' upsert_multi_port_def upsert_insert_def upsert_shutdown_old_sockets refers_def)
  next
    case (Some old)
    have "sid \<in> set (map snd (s_udp_sockets old)) \<longleftrightarrow> a = sa_ip client"
      using r own_sockets [OF assms(1) Some _ r] refers_ids [OF Some D(3) [OF Some], of sid] by blast
    then show ?thesis using D(4) [OF r] Some
      by (simp add: st' upsert_multi_port_def upsert_insert_def upsert_shutdown_old_sockets
          live_shutdown_all del: set_map)
  qed
  then show ?thesis
    by (simp add: get route_of_def get_by_addr_def exact D(2) new_multi_port_def)
qed

lemma upsert_replaces_route_witness:
  "route_of (upsert_multi_port 9 sample_peer ''10.0.0.2'' sample_ports sample_store) sample_client
     = Some (''10.0.0.2'', sample_ports)
   \<and> \<not> live (st_sockets (upsert_multi_port 9 sample_peer ''10.0.0.2'' sample_ports sample_store)) 0"
proof -
  have "isolated sample_store" using store_inv_reachable [OF sample_store_reached] by (rule store_invD)
  note * = upsert_replaces_route [OF this refl, where now = 9 and client = sample_peer and ip = "''10.0.0.2''"
      and m = sample_ports and a = "IPv4 192 0 2 1" and pk = "(7777, 5000)" and sid = 0
      and addr = sample_client]
  have "refers sample_store (IPv4 192 0 2 1) (7777, 5000) 0"
    by (simp add: refers_def sm_get_def sample_defs)
  with * show ?thesis by (simp add: sample_client_def sample_peer_def addr_v4_def)
qed

text \<open>
  C25. A cleanup pass removes exactly the sessions idle for longer than the timeout, leaves the
  others unchanged, keeps the store's invariant, and calls a callback that is set once for each
  removed session, with the session's target.
\<close>

theorem cleanup_tick_exact:
  assumes "store_inv (fst stw)"
  shows "sm_get (fst (cleanup_tick t cb now stw)) ip =
      (case sm_get (fst stw) ip of
         Some s \<Rightarrow> if now - s_last_activity s > unat t * 1000000000 then None else Some s
       | None \<Rightarrow> None)
    \<and> snd (cleanup_tick t cb now stw) =
      (case cb of None \<Rightarrow> snd stw
       | Some f \<Rightarrow> fold (\<lambda>(_, s). f (s_target_ip s)) (expire t now (st_sessions (fst stw))) (snd stw))
    \<and> store_inv (fst (cleanup_tick t cb now stw))"
proof (intro conjI)
  note wf = isolatedD(1) [OF store_invD(1) [OF assms]]
  show "sm_get (fst (cleanup_tick t cb now stw)) ip = (case sm_get (fst stw) ip of
         Some s \<Rightarrow> if now - s_last_activity s > unat t * 1000000000 then None else Some s | None \<Rightarrow> None)"
    by (simp add: sm_get_def cleanup_tick_def cleanup_fold_get in_cleanup_scan [OF wf]
        is_timed_out_def split: option.splits)
  have scan: "cleanup_scan t now (fst stw) = map fst (expire t now (st_sessions (fst stw)))"
    by (simp add: cleanup_scan_def expire_def)
  have "distinct (cleanup_scan t now (fst stw))"
    unfolding cleanup_scan_def using wf by (rule distinct_map_filter)
  moreover have "\<forall>k\<in>set (cleanup_scan t now (fst stw)). \<exists>s. hm_get (st_sessions (fst stw)) k = Some s"
    using in_cleanup_scan [OF wf] by blast
  moreover have "fold (\<lambda>k. f (s_target_ip (the (hm_get (st_sessions (fst stw)) k)))) (map fst xs) w =
      fold (\<lambda>(_, s). f (s_target_ip s)) xs w"
    if "set xs \<subseteq> set (st_sessions (fst stw))" for xs w and f :: "string \<Rightarrow> 'a \<Rightarrow> 'a"
    using that by (induction xs arbitrary: w) (auto simp: hm_get_in_set [OF wf])
  ultimately show "snd (cleanup_tick t cb now stw) = (case cb of None \<Rightarrow> snd stw
       | Some f \<Rightarrow> fold (\<lambda>(_, s). f (s_target_ip s)) (expire t now (st_sessions (fst stw))) (snd stw))"
    unfolding cleanup_tick_def by (subst cleanup_fold_callback) (auto simp: scan expire_def split: option.splits)
  show "store_inv (fst (cleanup_tick t cb now stw))" using assms by (rule store_inv_cleanup)
qed

lemma cleanup_tick_exact_witness:
  "sm_get (fst (cleanup_tick 1 (Some (\<lambda>ip log. ip # log)) 1000000001 (sample_store, []))) (IPv4 192 0 2 1) = None
   \<and> snd (cleanup_tick 1 (Some (\<lambda>ip log. ip # log)) 1000000001 (sample_store, [])) = [''10.0.0.1'']"
proof -
  have "store_inv (fst (sample_store, [] :: string list))"
    using store_inv_reachable [OF sample_store_reached] by simp
  note cleanup_tick_exact [OF this, of 1 "Some (\<lambda>ip log. ip # log)" 1000000001 "IPv4 192 0 2 1"]
  then show ?thesis by (simp add: sm_get_def sample_defs expire_def is_timed_out_def)
qed

text \<open>
  The removal does not check the timeout again: once the scan has listed a client, a query that
  installs a fresh route for it before the removal loses that route, whatever else the scan listed.
\<close>

theorem cleanup_race_removes_fresh_route:
  assumes "isolated st" and "LegacyIp (sa_ip client) \<in> set (cleanup_scan t now st)"
  shows "route_of (upsert_multi_port now' client ip m st) client = Some (ip, m)
    \<and> route_of (fst (fold (cleanup_remove cb) (cleanup_scan t now st)
          (upsert_multi_port now' client ip m st, w))) client = None"
proof -
  have iso: "isolated (upsert_multi_port now' client ip m st)"
    unfolding upsert_multi_port_def
    by (intro isolated_upsert_insert isolated_upsert_shutdown_old assms(1))
  then show ?thesis using assms(2)
    by (simp add: route_of_def get_by_addr_def isolatedD(2) sm_get_def [symmetric] sm_get_upsert new_multi_port_def)
       (simp add: sm_get_def cleanup_fold_get isolatedD(2) split: option.splits)
qed

lemma cleanup_race_removes_fresh_route_witness:
  "route_of (fst (fold (cleanup_remove None) (cleanup_scan 1 2000000000 sample_store)
     (upsert_multi_port 2000000000 sample_client ''10.0.0.2'' sample_ports sample_store, ()))) sample_client = None"
proof -
  have "isolated sample_store" using store_inv_reachable [OF sample_store_reached] by (rule store_invD)
  moreover have "LegacyIp (sa_ip sample_client) \<in> set (cleanup_scan 1 2000000000 sample_store)"
    by (simp add: cleanup_scan_def is_timed_out_def sample_defs)
  ultimately show ?thesis by (rule cleanup_race_removes_fresh_route [THEN conjunct2])
qed

text \<open>
  The upstream address of a packet: with an IPv4 target and a mapping for the port and protocol
  it is exactly the target with the mapped port, and with no mapping it is the error that names the
  port, whatever other ports or the other protocol are mapped.
\<close>

theorem get_target_addr_ipv4:
  assumes "s_target_ip s = show_ipv4 a b c d"
  shows "get_target_addr s pp proto =
    (case hm_get (s_port_mappings s) (pp, proto) of
       Some tp \<Rightarrow> Inr (addr_v4 a b c d tp)
     | None \<Rightarrow> Inl (NoPortMapping pp))"
  using assms by (simp add: get_target_addr_def parse_show_socket_addr [simplified] Let_def split: option.splits)

lemma get_target_addr_ipv4_witness:
  "get_target_addr (new_multi_port 0 (show_ipv4 10 0 0 1) sample_ports) 7777 Udp
     = Inr (addr_v4 10 0 0 1 31000)
   \<and> get_target_addr (new_multi_port 0 (show_ipv4 10 0 0 1) sample_ports) 7777 Tcp
     = Inl (NoPortMapping 7777)"
  using get_target_addr_ipv4 [of "new_multi_port 0 (show_ipv4 10 0 0 1) sample_ports" 10 0 0 1]
  by (simp add: new_multi_port_def sample_ports_def)

text \<open>
  An IPv6 target, which Kubernetes reports without brackets, never yields an upstream address:
  every lookup of a mapped port is the parse error, so such a route drops all of the client's
  packets.
\<close>

theorem get_target_addr_ipv6_fails:
  assumes "CHR '':'' \<in> set (s_target_ip s)" and "hd (s_target_ip s) \<noteq> CHR ''[''"
  shows "get_target_addr s pp proto =
    (case hm_get (s_port_mappings s) (pp, proto) of
       Some tp \<Rightarrow> Inl (InvalidSocketAddr (s_target_ip s @ '':'' @ show_nat (unat tp)))
     | None \<Rightarrow> Inl (NoPortMapping pp))"
  using assms by (simp add: get_target_addr_def parse_socket_addr_bare_colon [simplified] Let_def split: option.splits)

lemma get_target_addr_ipv6_fails_witness:
  "get_target_addr (new_multi_port 0 ''fd00::1'' sample_ports) 7777 Udp
     = Inl (InvalidSocketAddr (''fd00::1:'' @ show_nat 31000))"
  using get_target_addr_ipv6_fails [of "new_multi_port 0 ''fd00::1'' sample_ports" 7777 Udp]
  by (simp add: new_multi_port_def sample_ports_def)

end
