(* ===== verification/Demand.thy ===== *)
theory Demand
  imports Config Errors Reachable
begin

text \<open>
  \<open>src/demand.rs\<close>: the startup signal for a backend group that concurrent cold queries share. A
  flight is an \<open>Arc<DemandFlight>\<close>; the table keeps \<open>Weak\<close> references to the flights, so a flight
  lives while a query holds it. Flights are kept in a list, a flight's identity is its index, and
  its strong count is a field. The HTTP exchange is a parameter: its outcome is the status code or no
  response. The lemmas show that live queries of a group share one flight, that a flight posts at
  most once, and what a panic inside the lock does to every later query.
\<close>

section \<open>State\<close>

type_synonym flight_id = nat

record demand_flight =
  fl_endpoint :: string
  fl_group :: string
  fl_deadline :: nat
  fl_holders :: nat
  fl_accepted :: "(demand_error + unit) option" \<comment> \<open>the shared future's value once it is there\<close>

record capacity_demand =
  cap_flights :: "(string, flight_id) hashmap"
  cap_heap :: "demand_flight list"
  cap_poisoned :: bool
  cap_posts :: "flight_id list" \<comment> \<open>the flights that sent their request, latest first\<close>

definition demand_new :: capacity_demand where
  "demand_new = \<lparr>cap_flights = [], cap_heap = [], cap_poisoned = False, cap_posts = []\<rparr>"

section \<open>Operations\<close>

definition strong_count :: "capacity_demand \<Rightarrow> flight_id \<Rightarrow> nat" where
  "strong_count st f = (if f < length (cap_heap st) then fl_holders (cap_heap st ! f) else 0)"

text \<open>
  \<open>Instant + Duration\<close> panics where the seconds do not fit a signed 64-bit integer; the clock is in
  nanoseconds.
\<close>

definition instant_add :: "nat \<Rightarrow> u64 \<Rightarrow> nat option" where
  "instant_add now secs =
     (let t = now + unat secs * 1000000000
      in if t div 1000000000 < 9223372036854775808 then Some t else None)"

definition retain_live :: "capacity_demand \<Rightarrow> (string, flight_id) hashmap" where
  "retain_live st = filter (\<lambda>(_, f). strong_count st f > 0) (cap_flights st)"

definition hold :: "flight_id \<Rightarrow> demand_flight list \<Rightarrow> demand_flight list" where
  "hold f heap = heap[f := (heap ! f)\<lparr>fl_holders := Suc (fl_holders (heap ! f))\<rparr>]"

text \<open>
  A panic while the lock is held poisons the mutex: every later \<open>lock().expect(..)\<close> panics.
\<close>

definition signal :: "nat \<Rightarrow> capacity_demand_config \<Rightarrow> string \<Rightarrow> capacity_demand
    \<Rightarrow> (error + flight_id) \<times> capacity_demand" where
  "signal now cfg grp st =
     (if cap_poisoned st then (Inl Panic, st)
      else let flights = retain_live st in
        case hm_get flights grp of
          Some f \<Rightarrow> (Inr f, st\<lparr>cap_flights := flights, cap_heap := hold f (cap_heap st)\<rparr>)
        | None \<Rightarrow>
            (case instant_add now (cd_boot_timeout_seconds cfg) of
               None \<Rightarrow> (Inl Panic, st\<lparr>cap_flights := flights, cap_poisoned := True\<rparr>)
             | Some deadline \<Rightarrow>
                 let f = length (cap_heap st) in
                 (Inr f, st\<lparr>cap_flights := hm_insert grp f flights,
                    cap_heap := cap_heap st @ [\<lparr>fl_endpoint = cd_endpoint cfg, fl_group = grp,
                      fl_deadline = deadline, fl_holders = 1, fl_accepted = None\<rparr>]\<rparr>)))"

text \<open>The query that held a flight ends.\<close>

definition release :: "flight_id \<Rightarrow> capacity_demand \<Rightarrow> capacity_demand" where
  "release f st =
     (if f < length (cap_heap st)
      then st\<lparr>cap_heap := (cap_heap st)[f := (cap_heap st ! f)
             \<lparr>fl_holders := fl_holders (cap_heap st ! f) - 1\<rparr>]\<rparr>
      else st)"

text \<open>
  The request and its answer. \<open>built\<close>: the endpoint makes a request; \<open>status\<close>: the response's status
  code, none when the exchange failed.
\<close>

definition post_demand :: "bool \<Rightarrow> nat option \<Rightarrow> demand_error + unit" where
  "post_demand built status =
     (if \<not> built then Inl Unavailable
      else case status of
        None \<Rightarrow> Inl Unavailable
      | Some code \<Rightarrow>
          if code = 202 then Inr ()
          else if code = 404 then Inl UnknownGroup
          else if code = 503 then Inl Maintenance
          else Inl Unavailable)"

text \<open>
  Awaiting a flight: the first holder to get that far starts the request, the value is shared by
  all. \<open>in_time\<close> says whether the exchange ended before the flight's deadline.
\<close>

definition await_accepted :: "bool \<Rightarrow> bool \<Rightarrow> nat option \<Rightarrow> flight_id \<Rightarrow> capacity_demand
    \<Rightarrow> (demand_error + unit) \<times> capacity_demand" where
  "await_accepted in_time built status f st =
     (case fl_accepted (cap_heap st ! f) of
        Some r \<Rightarrow> (r, st)
      | None \<Rightarrow>
          let r = (if in_time then post_demand built status else Inl Timeout) in
          (r, st\<lparr>cap_heap := (cap_heap st)[f := (cap_heap st ! f)\<lparr>fl_accepted := Some r\<rparr>],
                 cap_posts := f # cap_posts st\<rparr>))"

section \<open>Invariant\<close>

text \<open>
  Every live flight is the one its group's entry refers to, entries refer to flights of their group,
  and a flight has posted exactly when its value is there.
\<close>

definition demand_inv :: "capacity_demand \<Rightarrow> bool" where
  "demand_inv st \<longleftrightarrow>
     hm_wf (cap_flights st)
     \<and> (\<forall>g f. hm_get (cap_flights st) g = Some f \<longrightarrow> f < length (cap_heap st) \<and> fl_group (cap_heap st ! f) = g)
     \<and> (\<forall>f < length (cap_heap st). fl_holders (cap_heap st ! f) > 0 \<longrightarrow>
          hm_get (cap_flights st) (fl_group (cap_heap st ! f)) = Some f)
     \<and> distinct (cap_posts st)
     \<and> (\<forall>f. f \<in> set (cap_posts st) \<longleftrightarrow> f < length (cap_heap st) \<and> fl_accepted (cap_heap st ! f) \<noteq> None)"

lemma demand_invD:
  assumes "demand_inv st"
  shows "hm_wf (cap_flights st)"
    "hm_get (cap_flights st) g = Some f \<Longrightarrow> f < length (cap_heap st)"
    "hm_get (cap_flights st) g = Some f \<Longrightarrow> fl_group (cap_heap st ! f) = g"
    "f < length (cap_heap st) \<Longrightarrow> fl_holders (cap_heap st ! f) > 0 \<Longrightarrow>
       hm_get (cap_flights st) (fl_group (cap_heap st ! f)) = Some f"
    "distinct (cap_posts st)"
    "f \<in> set (cap_posts st) \<longleftrightarrow> f < length (cap_heap st) \<and> fl_accepted (cap_heap st ! f) \<noteq> None"
  using assms unfolding demand_inv_def by blast+

lemma demand_inv_new: "demand_inv demand_new"
  by (simp add: demand_inv_def demand_new_def)

lemma hm_get_filter:
  "hm_wf m \<Longrightarrow> hm_get (filter (\<lambda>(_, v). P v) m) k =
     (case hm_get m k of None \<Rightarrow> None | Some v \<Rightarrow> if P v then Some v else None)"
proof (induction m)
  case (Cons e m)
  obtain k' v where e: "e = (k', v)" by force
  have "hm_get m k' = None" using Cons.prems by (simp add: e map_of_eq_None_iff)
  with Cons e show ?case by (auto split: option.splits)
qed simp

lemma retain_live_get:
  "demand_inv st \<Longrightarrow> hm_get (retain_live st) g =
     (case hm_get (cap_flights st) g of
        None \<Rightarrow> None | Some f \<Rightarrow> if fl_holders (cap_heap st ! f) > 0 then Some f else None)"
  using demand_invD(1,2) by (auto simp: retain_live_def hm_get_filter strong_count_def split: option.splits)

lemma retain_live_wf: "hm_wf m \<Longrightarrow> hm_wf (filter p m)"
  by (rule distinct_map_filter)

lemma demand_inv_signal:
  assumes inv: "demand_inv st"
  shows "demand_inv (snd (signal now cfg grp st))"
proof (cases "cap_poisoned st")
  case False
  note D = demand_invD [OF inv]
  note get = retain_live_get [OF inv]
  have wf: "hm_wf (retain_live st)" unfolding retain_live_def by (rule retain_live_wf [OF D(1)])
  show ?thesis
  proof (cases "hm_get (retain_live st) grp")
    case (Some f)
    then have "f < length (cap_heap st)" using get D(2) by (auto split: option.splits if_splits)
    then show ?thesis
      using False Some D wf unfolding demand_inv_def
      by (auto simp: signal_def Let_def get hold_def nth_list_update split: option.splits if_splits)
  next
    case None
    show ?thesis
    proof (cases "instant_add now (cd_boot_timeout_seconds cfg)")
      case none: None
      then show ?thesis
        using False None D wf unfolding demand_inv_def
        by (auto simp: signal_def Let_def get split: option.splits if_splits)
    next
      case (Some deadline)
      have old: "f < length (cap_heap st) \<Longrightarrow> fl_holders (cap_heap st ! f) > 0 \<Longrightarrow>
          fl_group (cap_heap st ! f) \<noteq> grp" for f
        using None D(4) [of f] by (auto simp: get)
      then show ?thesis
        using False None Some D wf unfolding demand_inv_def
        by (auto simp: signal_def Let_def get nth_append less_Suc_eq split: option.splits if_splits)
    qed
  qed
qed (use inv in \<open>simp add: signal_def\<close>)

lemma demand_inv_release: "demand_inv st \<Longrightarrow> demand_inv (release f st)"
  unfolding demand_inv_def by (auto simp: release_def nth_list_update split: if_splits)

lemma demand_inv_await:
  "demand_inv st \<Longrightarrow> f < length (cap_heap st) \<Longrightarrow> demand_inv (snd (await_accepted in_time built status f st))"
  unfolding demand_inv_def
  by (auto simp: await_accepted_def Let_def nth_list_update split: option.splits if_splits)

section \<open>Reachable states\<close>

text \<open>What concurrent cold queries do to the shared table, in any order.\<close>

inductive demand_step :: "capacity_demand \<Rightarrow> capacity_demand \<Rightarrow> bool" where
  ds_signal: "demand_step st (snd (signal now cfg grp st))"
| ds_release: "demand_step st (release f st)"
| ds_await: "strong_count st f > 0 \<Longrightarrow> demand_step st (snd (await_accepted in_time built status f st))"

lemma demand_inv_step: "demand_step st st' \<Longrightarrow> demand_inv st \<Longrightarrow> demand_inv st'"
  by (induction rule: demand_step.induct)
     (auto simp: demand_inv_signal demand_inv_release strong_count_def
        intro: demand_inv_await split: if_splits)

interpretation flights: step_invariant demand_step demand_new demand_inv
  by unfold_locales (fact demand_inv_new, fact demand_inv_step)

lemmas demand_inv_reachable = flights.inv_reachable

lemma strong_count_bound: "strong_count st f > 0 \<Longrightarrow> f < length (cap_heap st)"
  by (simp add: strong_count_def split: if_splits)

lemma live_flight_entry:
  assumes inv: "demand_inv st" and live: "strong_count st f > 0"
  shows "hm_get (retain_live st) (fl_group (cap_heap st ! f)) = Some f"
proof -
  note f = strong_count_bound [OF live]
  then have "fl_holders (cap_heap st ! f) > 0" using live by (simp add: strong_count_def)
  with demand_invD(4) [OF inv f this] show ?thesis by (simp add: retain_live_get [OF inv])
qed

section \<open>Properties\<close>

definition sample_demand :: capacity_demand_config where
  "sample_demand = \<lparr>cd_endpoint = ''http://d'', cd_backend_groups = [], cd_boot_timeout_seconds = 300\<rparr>"

definition sample_flights :: capacity_demand where
  "sample_flights = snd (signal 0 sample_demand ''g'' demand_new)"

lemma sample_flights_reached: "demand_step\<^sup>*\<^sup>* demand_new sample_flights"
  unfolding sample_flights_def by (intro r_into_rtranclp ds_signal)

lemma sample_flights_eval: "sample_flights =
    \<lparr>cap_flights = [(''g'', 0)], cap_heap = [\<lparr>fl_endpoint = ''http://d'', fl_group = ''g'',
       fl_deadline = 300000000000, fl_holders = 1, fl_accepted = None\<rparr>],
     cap_poisoned = False, cap_posts = []\<rparr>"
  by (simp add: sample_flights_def signal_def retain_live_def demand_new_def sample_demand_def instant_add_def)

text \<open>
  Concurrent cold queries of a backend group share one startup signal: in every reachable state
  two flights of the same group that queries still hold are the same flight, and no flight ever sends
  its request twice.
\<close>

theorem one_live_flight_per_group:
  assumes "demand_step\<^sup>*\<^sup>* demand_new st"
  shows "(strong_count st f > 0 \<and> strong_count st f' > 0
      \<and> fl_group (cap_heap st ! f) = fl_group (cap_heap st ! f') \<longrightarrow> f = f')
    \<and> distinct (cap_posts st)"
proof -
  note inv = demand_inv_reachable [OF assms]
  have "f = f'" if "strong_count st f > 0" "strong_count st f' > 0"
      "fl_group (cap_heap st ! f) = fl_group (cap_heap st ! f')"
    using live_flight_entry [OF inv that(1)] live_flight_entry [OF inv that(2)]
    unfolding that(3) by (simp only: option.inject)
  then show ?thesis using demand_invD(5) [OF inv] by blast
qed

lemma one_live_flight_per_group_witness:
  "distinct (cap_posts sample_flights) \<and> strong_count sample_flights 0 > 0"
  using one_live_flight_per_group [OF sample_flights_reached]
  by (simp add: strong_count_def sample_flights_eval)

text \<open>
  A cold query joins the live flight of its group, with that flight's deadline and without a new
  signal; with no live flight of the group it gets a new one whose deadline is the startup timeout
  from now, and whose request has not been sent yet.
\<close>

theorem signal_joins_or_starts:
  assumes "demand_step\<^sup>*\<^sup>* demand_new st" and "\<not> cap_poisoned st"
    and "instant_add now (cd_boot_timeout_seconds cfg) = Some deadline"
    and "signal now cfg grp st = (r, st')"
  shows "\<exists>f. r = Inr f \<and> strong_count st' f = Suc (strong_count st f)
    \<and> fl_group (cap_heap st' ! f) = grp \<and> cap_posts st' = cap_posts st
    \<and> (if \<exists>f'. strong_count st f' > 0 \<and> fl_group (cap_heap st ! f') = grp
       then strong_count st f > 0 \<and> fl_deadline (cap_heap st' ! f) = fl_deadline (cap_heap st ! f)
         \<and> length (cap_heap st') = length (cap_heap st)
       else strong_count st f = 0 \<and> fl_deadline (cap_heap st' ! f) = deadline
         \<and> f \<notin> set (cap_posts st') \<and> length (cap_heap st') = Suc (length (cap_heap st)))"
proof -
  note inv = demand_inv_reachable [OF assms(1)]
  show ?thesis
  proof (cases "hm_get (retain_live st) grp")
    case (Some f)
    then have f: "f < length (cap_heap st)" "fl_group (cap_heap st ! f) = grp" "strong_count st f > 0"
      using demand_invD(2,3) [OF inv] by (auto simp: retain_live_get [OF inv] strong_count_def
          split: option.splits if_splits)
    then have "\<exists>f'. strong_count st f' > 0 \<and> fl_group (cap_heap st ! f') = grp" by blast
    with Some f assms(2,4) show ?thesis
      by (intro exI [of _ f]) (auto simp: signal_def Let_def hold_def strong_count_def)
  next
    case None
    then have "\<not> (\<exists>f'. strong_count st f' > 0 \<and> fl_group (cap_heap st ! f') = grp)"
      using live_flight_entry [OF inv] by (metis option.distinct(1))
    moreover have "length (cap_heap st) \<notin> set (cap_posts st)" using demand_invD(6) [OF inv] by simp
    ultimately show ?thesis using None assms(2,3,4)
      by (intro exI [of _ "length (cap_heap st)"]) (auto simp: signal_def Let_def strong_count_def)
  qed
qed

lemma signal_joins_or_starts_witness:
  "fst (signal 7 sample_demand ''g'' sample_flights) = Inr 0
   \<and> fl_deadline (cap_heap (snd (signal 7 sample_demand ''g'' sample_flights)) ! 0) = 300000000000"
proof -
  have p: "\<not> cap_poisoned sample_flights" by (simp add: sample_flights_eval)
  have d: "instant_add 7 (cd_boot_timeout_seconds sample_demand) = Some 300000000007"
    by (simp add: instant_add_def sample_demand_def)
  let ?st' = "snd (signal 7 sample_demand ''g'' sample_flights)"
  have s: "signal 7 sample_demand ''g'' sample_flights = (Inr 0, ?st')"
    by (simp add: signal_def retain_live_def strong_count_def sample_flights_eval)
  have "strong_count sample_flights 0 > 0 \<and> fl_group (cap_heap sample_flights ! 0) = ''g''"
    by (simp add: strong_count_def sample_flights_eval)
  then have ex: "\<exists>f'. strong_count sample_flights f' > 0 \<and> fl_group (cap_heap sample_flights ! f') = ''g''"
    by blast
  have "fl_deadline (cap_heap ?st' ! 0) = fl_deadline (cap_heap sample_flights ! 0)"
    using signal_joins_or_starts [OF sample_flights_reached p d s] ex by simp
  then have "fl_deadline (cap_heap ?st' ! 0) = 300000000000"
    unfolding sample_flights_eval by simp
  then show ?thesis unfolding s [THEN arg_cong [of _ _ fst]] by simp
qed

text \<open>
  The answer to the startup request is decided once per flight and read by every holder: 202
  accepts, 404 and 503 are the unknown group and the maintenance error, anything else and a failed
  exchange are unavailable, no answer before the deadline is the timeout; every later wait on the
  flight returns the same and sends nothing.
\<close>

theorem await_accepted_shared:
  assumes "f < length (cap_heap st)" and "await_accepted in_time built status f st = (r, st')"
  shows "await_accepted in_time' built' status' f st' = (r, st')
    \<and> (fl_accepted (cap_heap st ! f) = None \<longrightarrow> cap_posts st' = f # cap_posts st
        \<and> (r = Inr () \<longleftrightarrow> in_time \<and> built \<and> status = Some 202)
        \<and> (r = Inl UnknownGroup \<longleftrightarrow> in_time \<and> built \<and> status = Some 404)
        \<and> (r = Inl Maintenance \<longleftrightarrow> in_time \<and> built \<and> status = Some 503)
        \<and> (r = Inl Timeout \<longleftrightarrow> \<not> in_time) \<and> r \<noteq> Inl Cancelled)"
proof (cases "fl_accepted (cap_heap st ! f)")
  case None
  let ?r = "if in_time then post_demand built status else Inl Timeout"
  have r: "r = ?r" "st' = st\<lparr>cap_heap := (cap_heap st)[f := (cap_heap st ! f)\<lparr>fl_accepted := Some ?r\<rparr>],
      cap_posts := f # cap_posts st\<rparr>"
    using assms(2) unfolding await_accepted_def None Let_def option.case prod.inject by blast+
  have "await_accepted in_time' built' status' f st' = (r, st')"
    using assms(1) by (simp add: r await_accepted_def)
  moreover have "cap_posts st' = f # cap_posts st" by (simp add: r)
  ultimately show ?thesis using r(1) by (auto simp: post_demand_def split: option.splits if_splits)
next
  case (Some r')
  then have "r' = r" "st' = st" using assms(2) by (simp_all add: await_accepted_def)
  with Some show ?thesis by (simp add: await_accepted_def)
qed

lemma await_accepted_shared_witness:
  "fst (await_accepted True True (Some 503) 0 sample_flights) = Inl Maintenance
   \<and> fst (await_accepted True True (Some 202) 0 (snd (await_accepted True True (Some 503) 0 sample_flights)))
     = Inl Maintenance"
proof -
  have len: "0 < length (cap_heap sample_flights)" by (simp add: sample_flights_eval)
  have "fst (await_accepted True True (Some 503) 0 sample_flights) = Inl Maintenance"
    by (simp add: await_accepted_def post_demand_def sample_flights_eval Let_def)
  then show ?thesis
    using await_accepted_shared [OF len surjective_pairing, where in_time = True and built = True
        and status = "Some 503" and in_time' = True and built' = True and status' = "Some 202"]
    by simp
qed

text \<open>
  A startup timeout that overflows the clock, which validation accepts, panics inside the lock:
  that query and every later one that signals, whatever its group, panics.
\<close>

theorem signal_overflow_poisons:
  assumes "9223372036854775808 \<le> unat (cd_boot_timeout_seconds cfg)"
    and "\<forall>f. strong_count st f = 0"
  shows "fst (signal now cfg grp st) = Inl Panic
    \<and> fst (signal now' cfg' grp' (snd (signal now cfg grp st))) = Inl Panic"
proof -
  have "retain_live st = []" using assms(2) by (simp add: retain_live_def filter_empty_conv)
  moreover have "9223372036854775808 * 1000000000 \<le> now + unat (cd_boot_timeout_seconds cfg) * 1000000000"
    using assms(1) by linarith
  then have "9223372036854775808 \<le> (now + unat (cd_boot_timeout_seconds cfg) * 1000000000) div 1000000000"
    by (simp add: less_eq_div_iff_mult_less_eq)
  then have "instant_add now (cd_boot_timeout_seconds cfg) = None" by (simp add: instant_add_def Let_def)
  ultimately show ?thesis by (simp add: signal_def Let_def)
qed

lemma signal_overflow_poisons_witness:
  "fst (signal 5 sample_demand ''g'' (snd (signal 0 (sample_demand\<lparr>cd_boot_timeout_seconds := - 1\<rparr>) ''h'' demand_new)))
     = Inl Panic"
proof -
  have "unat (- 1 :: u64) = 18446744073709551615" by (simp add: unsigned_minus_1_eq_mask mask_eq_exp_minus_1)
  then show ?thesis
    using signal_overflow_poisons [of "sample_demand\<lparr>cd_boot_timeout_seconds := - 1\<rparr>" demand_new 0 "''h''" 5 sample_demand "''g''"]
    by (simp add: strong_count_def demand_new_def)
qed

end
