(* ===== verification/QueryServer.thy ===== *)
theory QueryServer
  imports Characters LoadBalancer Session Demand
begin

text \<open>
  \<open>src/query_server.rs\<close>: reading one JSON request from a TCP stream, choosing the server for an access
  query, waiting for capacity, writing the character label and installing the route. The API server,
  the clock and the events of a cold wait come as a script; what the query does to the world comes
  out as a list of effects in order, so that the order of lock, snapshot, label write and route is
  part of every statement. Only the last effect touches the session table.
\<close>

section \<open>Requests and replies\<close>

datatype query_request =
    CharacterList string "string list"
  | Query string string "string list"

datatype query_response =
    CharacterListReply "character_server list"
  | Success string string "(string, u16) hashmap"
  | ErrorReply string

text \<open>
  \<open>serde_json::from_slice\<close> on the bytes read so far: a request, an error that says the text ended too
  early (\<open>is_eof\<close>), or another error with its text.
\<close>

datatype parse_result = Parsed query_request | NeedsMore | Malformed string

text \<open>
  The reads of a stream: bytes, none when the peer has closed, or an error; past the end of the
  list the peer has closed.
\<close>

definition at_end :: "u8 list \<Rightarrow> error + query_request option" where
  "at_end payload = (if payload = [] then Inr None else Inl IncompleteRequest)"

fun read_request ::
  "(u8 list \<Rightarrow> parse_result) \<Rightarrow> u8 list \<Rightarrow> (string + u8 list) list \<Rightarrow> error + query_request option" where
  "read_request parse payload [] = at_end payload"
| "read_request parse payload (Inl text # reads) = Inl (RequestReadFailed text)"
| "read_request parse payload (Inr bytes # reads) =
     (if bytes = [] then at_end payload
      else let payload' = payload @ bytes in
        if length payload' > 65536 then Inl RequestTooLarge
        else case parse payload' of
          Parsed request \<Rightarrow> Inr (Some request)
        | NeedsMore \<Rightarrow> read_request parse payload' reads
        | Malformed text \<Rightarrow> Inl (InvalidRequest text))"

section \<open>Effects\<close>

datatype query_effect =
    LockAssignments
  | UnlockAssignments
  | ListPods list_request
  | SignalDemand string
  | PatchLabel patch_request
  | InstallRoute socket_addr string port_mappings

type_synonym 'a access = "(error + 'a) \<times> query_effect list"

definition lift :: "error + 'a \<Rightarrow> 'a access" where
  "lift r = (r, [])"

definition emit :: "query_effect \<Rightarrow> unit access" where
  "emit e = (Inr (), [e])"

fun do_then :: "'a access \<Rightarrow> ('a \<Rightarrow> 'b access) \<Rightarrow> 'b access" where
  "do_then (Inl e, es) f = (Inl e, es)"
| "do_then (Inr x, es) f = (fst (f x), es @ snd (f x))"

lemma do_then_cong [fundef_cong]:
  "m = m' \<Longrightarrow> (\<And>x. f x = g x) \<Longrightarrow> do_then m f = do_then m' g"
  by (cases m'; cases "fst m'") auto

lemma do_then_lift [simp]:
  "do_then (lift (Inl e)) f = (Inl e, [])" "do_then (lift (Inr x)) f = f x"
  by (simp_all add: lift_def)

lemma do_then_emit [simp]: "do_then (emit e) f = (fst (f ()), e # snd (f ()))"
  by (simp add: emit_def)

section \<open>Candidates\<close>

type_synonym candidate = "dynamic_object \<times> pod \<times> character list"

record access_env =
  ae_config :: config
  ae_codecs :: codecs
  ae_decode :: "dynamic_object \<Rightarrow> pod option"
  ae_client :: socket_addr
  ae_map :: string
  ae_ids :: "string list"
  ae_character :: "string option"
  ae_mapping :: resource_mapping

fun build_candidates :: "access_env \<Rightarrow> int \<Rightarrow> dynamic_object list \<Rightarrow> error + candidate list" where
  "build_candidates env now [] = Inr []"
| "build_candidates env now (resource # resources) =
     and_then (ok_or PodDecodeFailed (ae_decode env resource)) (\<lambda>p.
     and_then (build_candidates env now resources) (\<lambda>rest.
       Inr (if pod_ready p
            then (resource, p, characters_on_pod (ae_codecs env) (ae_config env) p [] now) # rest
            else rest)))"

fun list_servers :: "string list \<Rightarrow> candidate list \<Rightarrow> error + character_server list" where
  "list_servers ids [] = Inr []"
| "list_servers ids ((_, p, characters) # candidates) =
     (let kept = filter (\<lambda>c. ids = [] \<or> ch_id c \<in> set ids) characters in
      if kept \<noteq> [] then
        and_then (ok_or MissingServerIdentity (om_uid (pod_metadata p))) (\<lambda>server.
        and_then (list_servers ids candidates) (\<lambda>servers.
          Inr (\<lparr>cs_server = server, cs_characters = kept\<rparr> # servers)))
      else list_servers ids candidates)"

definition has_character :: "string \<Rightarrow> character list \<Rightarrow> bool" where
  "has_character character chars \<longleftrightarrow> list_ex (\<lambda>c. ch_id c = character) chars"

definition has_room :: "config \<Rightarrow> string \<Rightarrow> candidate \<Rightarrow> bool" where
  "has_room cfg character cand = (case cand of (_, _, chars) \<Rightarrow>
     has_character character chars \<or> length chars < cfg_max_characters_per_server cfg)"

definition candidate_key ::
  "string list \<Rightarrow> string \<Rightarrow> candidate \<Rightarrow> bool reverse \<times> nat reverse \<times> nat \<times> string option" where
  "candidate_key ids character cand = (case cand of (_, p, chars) \<Rightarrow>
     (Reverse (has_character character chars),
      Reverse (length (filter (\<lambda>c. ch_id c \<in> set ids) chars)),
      length chars,
      om_uid (pod_metadata p)))"

definition eligible_candidates :: "access_env \<Rightarrow> string \<Rightarrow> candidate list \<Rightarrow> candidate list" where
  "eligible_candidates env character candidates =
     filter (\<lambda>(_, p, _). \<not> pod_draining p)
       (filter (has_room (ae_config env) character) candidates)"

definition choose_candidate :: "access_env \<Rightarrow> string \<Rightarrow> candidate list \<Rightarrow> candidate option" where
  "choose_candidate env character candidates =
     first_least (candidate_key (ae_ids env) character) (eligible_candidates env character candidates)"

section \<open>Targets and routes\<close>

text \<open>
  The texts of these errors are dropped by the caller; a panic is not.
\<close>

definition extract_direct_target ::
  "dynamic_object \<Rightarrow> resource_mapping \<Rightarrow> string \<Rightarrow> error + (string \<times> u16)" where
  "extract_direct_target resource mapping address_path =
     and_then (extract_address resource address_path (rm_address_type mapping)) (\<lambda>address.
     and_then (extract_port resource (rm_port_path mapping) (rm_port_name mapping)) (\<lambda>port.
       Inr (address, port)))"

definition extract_service_target ::
  "k8s_api \<Rightarrow> string \<Rightarrow> string \<Rightarrow> resource_mapping \<Rightarrow> error + (string \<times> u16)" where
  "extract_service_target api namespace resource_name mapping =
     and_then (ok_or SelectorLabelRequired (rm_service_selector_label mapping)) (\<lambda>selector.
     and_then (ok_or TargetPortNameRequired (rm_service_target_port_name mapping)) (\<lambda>port_name.
     and_then (find_service_for_resource api namespace resource_name selector port_name) (\<lambda>found.
       ok_or NoService found)))"

definition extract_target_info ::
  "k8s_api \<Rightarrow> dynamic_object \<Rightarrow> resource_mapping \<Rightarrow> string \<Rightarrow> string \<Rightarrow> error + (string \<times> u16)" where
  "extract_target_info api resource mapping namespace resource_name =
     (case rm_address_path mapping of
        Some address_path \<Rightarrow> extract_direct_target resource mapping address_path
      | None \<Rightarrow> extract_service_target api namespace resource_name mapping)"

definition extract_multi_port_target_info ::
  "dynamic_object \<Rightarrow> resource_mapping \<Rightarrow> error + (string \<times> (string, u16) hashmap)" where
  "extract_multi_port_target_info resource mapping =
     and_then (ok_or AddressPathRequired (rm_address_path mapping)) (\<lambda>address_path.
     and_then (ok_or InvalidBackendPorts (rm_ports mapping)) (\<lambda>port_mappings.
     and_then (extract_address resource address_path (rm_address_type mapping)) (\<lambda>address.
     and_then (extract_ports resource port_mappings) (\<lambda>ports.
       Inr (address, ports)))))"

definition map_err :: "error \<Rightarrow> error + 'a \<Rightarrow> error + 'a" where
  "map_err e r = (case r of Inl Panic \<Rightarrow> Inl Panic | Inl _ \<Rightarrow> Inl e | Inr x \<Rightarrow> Inr x)"

definition backend_ports ::
  "k8s_api \<Rightarrow> config \<Rightarrow> resource_mapping \<Rightarrow> dynamic_object \<Rightarrow> string
   \<Rightarrow> error + (string \<times> (string, u16) hashmap)" where
  "backend_ports api cfg mapping resource name =
     (if rm_ports mapping \<noteq> None
      then map_err InvalidBackendPorts (extract_multi_port_target_info resource mapping)
      else and_then (map_err InvalidBackendPort
          (extract_target_info api resource mapping (de_namespace (cfg_default_endpoint cfg)) name))
        (\<lambda>(ip, port). Inr (ip, fold (\<lambda>p. hm_insert (dp_name p) port) (get_data_ports cfg) [])))"

fun build_routes ::
  "(string, u16) hashmap \<Rightarrow> data_port_config list \<Rightarrow> port_mappings \<Rightarrow> (string, u16) hashmap
   \<Rightarrow> error + (port_mappings \<times> (string, u16) hashmap)" where
  "build_routes ports [] routes public_ports = Inr (routes, public_ports)"
| "build_routes ports (p # ps) routes public_ports =
     and_then (ok_or MissingBackendPort (hm_get ports (dp_name p))) (\<lambda>target.
       build_routes ports ps (hm_insert (dp_port p, dp_protocol p) target routes)
         (hm_insert (dp_name p) (dp_port p) public_ports))"

section \<open>Access\<close>

definition allocation_key :: "config \<Rightarrow> string \<Rightarrow> string" where
  "allocation_key cfg character = cfg_character_label_prefix cfg @ ''/'' @ character"

definition shows_used :: "string \<Rightarrow> character list \<Rightarrow> bool" where
  "shows_used character chars \<longleftrightarrow> list_ex (\<lambda>c. ch_id c = character \<and> ch_status c = Used) chars"

text \<open>The outcome of a query: a reply, or none yet because the script of its cold waits ends.\<close>

datatype access_outcome = Answered query_response | Waiting

text \<open>After the loop: the target and routes of the best candidate, the label write, the route.\<close>

definition write_label :: "k8s_api \<Rightarrow> access_env \<Rightarrow> string \<Rightarrow> candidate \<Rightarrow> unit access" where
  "write_label api env character best = (case best of (_, p, chars) \<Rightarrow>
     if shows_used character chars then lift (Inr ())
     else (case allocate_request (de_namespace (cfg_default_endpoint (ae_config env))) p
            (allocation_key (ae_config env) character) of
         Inl e \<Rightarrow> lift (Inl e)
       | Inr pr \<Rightarrow> do_then (emit (PatchLabel pr)) (\<lambda>_. lift (send_patch api pr))))"

definition finish_access :: "k8s_api \<Rightarrow> access_env \<Rightarrow> string \<Rightarrow> candidate \<Rightarrow> access_outcome access" where
  "finish_access api env character best = (case best of (resource, p, chars) \<Rightarrow>
     let cfg = ae_config env in
     do_then (lift (ok_or MissingPodName (om_name (pod_metadata p)))) (\<lambda>name.
     do_then (lift (backend_ports api cfg (ae_mapping env) resource name)) (\<lambda>(ip, ports).
     do_then (lift (build_routes ports (get_data_ports cfg) [] [])) (\<lambda>(routes, public_ports).
     do_then (lift (ensure (routes \<noteq> []) NoDataPorts)) (\<lambda>_.
     do_then (lift (ok_or MissingServerIdentity (om_uid (pod_metadata p)))) (\<lambda>server.
     do_then (write_label api env character best) (\<lambda>_.
     do_then (emit (InstallRoute (ae_client env) ip routes)) (\<lambda>_.
       lift (Inr (Answered (Success ''Allocated'' server public_ports)))))))))))"

definition access_labels :: "config \<Rightarrow> string \<Rightarrow> (string, string) hashmap" where
  "access_labels cfg map_name =
     hm_insert (cfg_map_label cfg) map_name
       (case de_label_selector (cfg_default_endpoint cfg) of None \<Rightarrow> [] | Some l \<Rightarrow> l)"

definition access_status :: "config \<Rightarrow> status_query option" where
  "access_status cfg =
     map_option (\<lambda>s. \<lparr>json_path = sq_json_path s, expected_values = sq_expected_values s\<rparr>)
       (de_status_query (cfg_default_endpoint cfg))"

definition pods_request :: "access_env \<Rightarrow> list_request" where
  "pods_request env =
     list_request_of (de_namespace (cfg_default_endpoint (ae_config env))) (ae_mapping env)
       (Some (access_labels (ae_config env) (ae_map env)))"

definition read_snapshot :: "access_env \<Rightarrow> k8s_api \<Rightarrow> error + (dynamic_object list \<times> string)" where
  "read_snapshot env api =
     query_resources_snapshot api (de_namespace (cfg_default_endpoint (ae_config env))) (ae_mapping env)
       (access_status (ae_config env)) (Some (access_labels (ae_config env) (ae_map env)))
       (de_annotation_selector (cfg_default_endpoint (ae_config env)))"

text \<open>One pass over a snapshot; \<open>None\<close> when there is no candidate and the query has to wait.\<close>

definition access_round ::
  "access_env \<Rightarrow> k8s_api \<Rightarrow> int \<Rightarrow> dynamic_object list \<Rightarrow> access_outcome option access" where
  "access_round env api now resources =
     do_then (lift (build_candidates env now resources)) (\<lambda>candidates.
       case ae_character env of
         None \<Rightarrow>
           do_then (lift (list_servers (ae_ids env) candidates)) (\<lambda>servers.
             lift (Inr (Some (Answered (CharacterListReply (sort_key cs_server servers))))))
       | Some character \<Rightarrow>
           (case choose_candidate env character candidates of
              Some best \<Rightarrow> do_then (finish_access api env character best) (\<lambda>out. lift (Inr (Some out)))
            | None \<Rightarrow> lift (Inr None)))"

text \<open>
  What happens to a waiting query: the client disconnects, the flight's deadline passes, taking part
  in the flight panics, the flight's request is refused, the client leaves or the deadline passes after
  a change was seen and while the next snapshot is being read under the lock, or Pods change (the
  watch's outcome, and the clock and the API server when the query reads its next snapshot).
\<close>

datatype cold_event =
    ClientLeft
  | DeadlinePassed
  | SignalPanics
  | DemandRefused demand_error
  | LeftWhileReading
  | PassedWhileReading
  | PodsChanged "kube_error + (kube_error + watch_event) list" int k8s_api

definition demand_group :: "capacity_demand_config \<Rightarrow> string \<Rightarrow> string" where
  "demand_group demand map_name =
     (case hm_get (cd_backend_groups demand) map_name of None \<Rightarrow> map_name | Some g \<Rightarrow> g)"

text \<open>Giving up the lock and, once per query, taking part in a flight; \<open>False\<close> without demand.\<close>

definition start_waiting :: "access_env \<Rightarrow> bool \<Rightarrow> bool access" where
  "start_waiting env signalled =
     do_then (emit UnlockAssignments) (\<lambda>_.
       case cfg_capacity_demand (ae_config env) of
         None \<Rightarrow> lift (Inr False)
       | Some demand \<Rightarrow>
           if signalled then lift (Inr True)
           else do_then (emit (SignalDemand (demand_group demand (ae_map env)))) (\<lambda>_. lift (Inr True)))"

fun access_loop ::
  "access_env \<Rightarrow> bool \<Rightarrow> k8s_api \<Rightarrow> int \<Rightarrow> dynamic_object list \<times> string \<Rightarrow> cold_event list
   \<Rightarrow> access_outcome access"
and cold_wait ::
  "access_env \<Rightarrow> string \<Rightarrow> cold_event list \<Rightarrow> access_outcome access" where
  "access_loop env signalled api now snapshot events =
     do_then (access_round env api now (fst snapshot)) (\<lambda>decided.
       case decided of
         Some out \<Rightarrow> lift (Inr out)
       | None \<Rightarrow> do_then (start_waiting env signalled) (\<lambda>waits.
           if waits then cold_wait env (snd snapshot) events
           else lift (Inr (Answered (ErrorReply ''No server available'')))))"
| "cold_wait env version [] = lift (Inr Waiting)"
| "cold_wait env version (ClientLeft # _) = lift (Inl (DemandFailed Cancelled))"
| "cold_wait env version (DeadlinePassed # _) = lift (Inl (DemandFailed Timeout))"
| "cold_wait env version (SignalPanics # _) = lift (Inl Panic)"
| "cold_wait env version (DemandRefused e # _) = lift (Inl (DemandFailed e))"
| "cold_wait env version (LeftWhileReading # _) =
     do_then (emit LockAssignments) (\<lambda>_. do_then (emit (ListPods (pods_request env))) (\<lambda>_.
       lift (Inl (DemandFailed Cancelled))))"
| "cold_wait env version (PassedWhileReading # _) =
     do_then (emit LockAssignments) (\<lambda>_. do_then (emit (ListPods (pods_request env))) (\<lambda>_.
       lift (Inl (DemandFailed Timeout))))"
| "cold_wait env version (PodsChanged watch now api # events) =
     do_then (lift (wait_for_pod_change version watch)) (\<lambda>_.
     do_then (emit LockAssignments) (\<lambda>_.
     do_then (emit (ListPods (pods_request env))) (\<lambda>_.
     do_then (lift (read_snapshot env api)) (\<lambda>snapshot.
       access_loop env True api now snapshot events))))"

declare access_loop.simps [simp del]

fun access_params :: "query_request \<Rightarrow> string \<times> string list \<times> string option" where
  "access_params (CharacterList map_name character_ids) = (map_name, character_ids, None)"
| "access_params (Query map_name character_id friend_ids) = (map_name, friend_ids, Some character_id)"

definition valid_access :: "string \<times> string list \<times> string option \<Rightarrow> bool" where
  "valid_access params = (case params of (map_name, ids, character) \<Rightarrow>
     valid_character_id map_name \<and> list_all valid_character_id ids
     \<and> (case character of None \<Rightarrow> True | Some c \<Rightarrow> valid_character_id c))"

text \<open>
  What a query server is built with: the configuration, the parsers and the Pod decoder.
\<close>

record query_server =
  qs_config :: config
  qs_codecs :: codecs
  qs_decode :: "dynamic_object \<Rightarrow> pod option"

definition access_env_of ::
  "query_server \<Rightarrow> socket_addr \<Rightarrow> query_request \<Rightarrow> resource_mapping \<Rightarrow> access_env" where
  "access_env_of qs client request mapping =
     (case access_params request of (map_name, ids, character) \<Rightarrow>
        \<lparr>ae_config = qs_config qs, ae_codecs = qs_codecs qs, ae_decode = qs_decode qs,
         ae_client = client, ae_map = map_name, ae_ids = ids, ae_character = character,
         ae_mapping = mapping\<rparr>)"

definition take_lock :: "access_env \<Rightarrow> unit access" where
  "take_lock env = (if ae_character env \<noteq> None then emit LockAssignments else lift (Inr ()))"

definition holds_lock :: "query_effect list \<Rightarrow> bool" where
  "holds_lock es = fold (\<lambda>e held. case e of
     LockAssignments \<Rightarrow> True | UnlockAssignments \<Rightarrow> False | _ \<Rightarrow> held) es False"

text \<open>The guard is dropped when the function returns.\<close>

definition drop_guard :: "'a access \<Rightarrow> 'a access" where
  "drop_guard m = (case m of (r, es) \<Rightarrow> (r, es @ (if holds_lock es then [UnlockAssignments] else [])))"

definition process_access ::
  "query_server \<Rightarrow> query_request \<Rightarrow> socket_addr \<Rightarrow> k8s_api \<Rightarrow> int \<Rightarrow> cold_event list
   \<Rightarrow> access_outcome access" where
  "process_access qs request client api now events =
     (if \<not> valid_access (access_params request)
      then lift (Inr (Answered (ErrorReply ''Invalid map or character ID'')))
      else let cfg = qs_config qs in
        do_then (lift (ok_or MissingServerMapping (hm_get (cfg_resource_query_mapping cfg)
          (de_resource_type (cfg_default_endpoint cfg))))) (\<lambda>mapping.
        do_then (lift (ensure (rm_group mapping = [] \<and> rm_resource mapping = ''pods'') NotPodMapping)) (\<lambda>_.
        let env = access_env_of qs client request mapping in
        drop_guard
          (do_then (take_lock env) (\<lambda>_.
           do_then (emit (ListPods (pods_request env))) (\<lambda>_.
           do_then (lift (read_snapshot env api)) (\<lambda>snapshot.
             access_loop env False api now snapshot events)))))))"

text \<open>
  What the client gets: nothing when it left or the task panicked, otherwise a reply.
\<close>

datatype query_result = NoReply | StillWaiting | Replied query_response

definition process_query ::
  "query_server \<Rightarrow> query_request \<Rightarrow> socket_addr \<Rightarrow> k8s_api \<Rightarrow> int \<Rightarrow> cold_event list
   \<Rightarrow> query_result \<times> query_effect list" where
  "process_query qs request client api now events =
     (case process_access qs request client api now events of (result, es) \<Rightarrow>
        (case result of
           Inr (Answered response) \<Rightarrow> Replied response
         | Inr Waiting \<Rightarrow> StillWaiting
         | Inl (DemandFailed Cancelled) \<Rightarrow> NoReply
         | Inl Panic \<Rightarrow> NoReply
         | Inl (DemandFailed e) \<Rightarrow> Replied (ErrorReply (show_demand_error e))
         | Inl _ \<Rightarrow> Replied (ErrorReply ''Unable to establish route''),
         es))"

definition request_error_text :: "error \<Rightarrow> string" where
  "request_error_text e =
     (case e of
        IncompleteRequest \<Rightarrow> ''Incomplete JSON request''
      | RequestTooLarge \<Rightarrow> ''Query exceeds 65536 bytes''
      | InvalidRequest text \<Rightarrow> text
      | RequestReadFailed text \<Rightarrow> text
      | _ \<Rightarrow> [])"

definition handle_connection ::
  "query_server \<Rightarrow> (u8 list \<Rightarrow> parse_result) \<Rightarrow> socket_addr option \<Rightarrow> (string + u8 list) list
   \<Rightarrow> k8s_api \<Rightarrow> int \<Rightarrow> cold_event list \<Rightarrow> query_result \<times> query_effect list" where
  "handle_connection qs parse peer reads api now events =
     (case peer of
        None \<Rightarrow> (NoReply, [])
      | Some client_addr \<Rightarrow>
          (case read_request parse [] reads of
             Inl e \<Rightarrow> (Replied (ErrorReply (request_error_text e)), [])
           | Inr None \<Rightarrow> (NoReply, [])
           | Inr (Some request) \<Rightarrow> process_query qs request client_addr api now events))"

text \<open>What the effects do to the session table.\<close>

definition apply_effect :: "nat \<Rightarrow> query_effect \<Rightarrow> session_store \<Rightarrow> session_store" where
  "apply_effect clock e st =
     (case e of InstallRoute client ip routes \<Rightarrow> upsert_multi_port clock client ip routes st | _ \<Rightarrow> st)"

definition apply_effects :: "nat \<Rightarrow> query_effect list \<Rightarrow> session_store \<Rightarrow> session_store" where
  "apply_effects clock es st = fold (apply_effect clock) es st"

end
