(* ===== verification/Access.thy ===== *)
theory Access
  imports QueryServer
begin

text \<open>
  The properties of access queries, over the model of \<open>QueryServer\<close>: which server is chosen, that a
  route is installed only after the character is allocated, how the assignment lock is held, what a
  failed query leaves behind, and what a waiting query gets. The facts about a whole query come from one decomposition: a query is a quiet part,
  which only reads, and then either nothing more or \<open>finish_access\<close> on a decision.
\<close>

section \<open>Sequencing\<close>

lemma do_then_iff:
  "do_then m f = (r, es) \<longleftrightarrow>
     (\<exists>e. m = (Inl e, es) \<and> r = Inl e)
     \<or> (\<exists>x es1 es2. m = (Inr x, es1) \<and> f x = (r, es2) \<and> es = es1 @ es2)"
proof (cases m)
  case (Pair a b)
  show ?thesis
  proof (cases a)
    case (Inr x)
    then show ?thesis by (cases "f x") (auto simp: Pair)
  qed (auto simp: Pair)
qed

lemma lift_iff: "lift m = (r, es) \<longleftrightarrow> r = m \<and> es = []"
  by (auto simp: lift_def)

lemma emit_iff: "emit e = (r, es) \<longleftrightarrow> r = Inr () \<and> es = [e]"
  by (auto simp: emit_def)

lemmas access_simps = do_then_iff lift_iff emit_iff

section \<open>A query as a quiet part and a decision\<close>

definition quiet :: "query_effect \<Rightarrow> bool" where
  "quiet e \<longleftrightarrow> (case e of PatchLabel _ \<Rightarrow> False | InstallRoute _ _ _ \<Rightarrow> False | _ \<Rightarrow> True)"

lemma quiet_simps [simp]:
  "quiet LockAssignments" "quiet UnlockAssignments" "quiet (ListPods lr)" "quiet (SignalDemand g)"
  "\<not> quiet (PatchLabel pr)" "\<not> quiet (InstallRoute c ip m)"
  by (simp_all add: quiet_def)

text \<open>The API states and times a query sees: at its start and at each change it is woken by.\<close>

definition seen :: "k8s_api \<Rightarrow> int \<Rightarrow> cold_event list \<Rightarrow> (k8s_api \<times> int) set" where
  "seen api now events = insert (api, now) {(a, n). \<exists>w. PodsChanged w n a \<in> set events}"

lemma seen_none: "seen api now [] = {(api, now)}"
  by (simp add: seen_def)

text \<open>The best candidate of a snapshot the query reads.\<close>

definition decision :: "access_env \<Rightarrow> string \<Rightarrow> k8s_api \<Rightarrow> int \<Rightarrow> candidate \<Rightarrow> bool" where
  "decision env character api now best \<longleftrightarrow>
     (\<exists>resources version candidates. read_snapshot env api = Inr (resources, version)
        \<and> build_candidates env now resources = Inr candidates
        \<and> choose_candidate env character candidates = Some best)"

definition not_success :: "error + access_outcome \<Rightarrow> bool" where
  "not_success r \<longleftrightarrow> (\<forall>status server ports. r \<noteq> Inr (Answered (Success status server ports)))"

definition ends_in :: "access_env \<Rightarrow> (k8s_api \<times> int) set \<Rightarrow> access_outcome access \<Rightarrow> bool" where
  "ends_in env S m \<longleftrightarrow>
     (\<exists>pre fin. snd m = pre @ fin \<and> list_all quiet pre
        \<and> (fin = [] \<and> not_success (fst m)
           \<or> (\<exists>character api now best. ae_character env = Some character \<and> (api, now) \<in> S
                \<and> decision env character api now best \<and> finish_access api env character best = (fst m, fin))))"

lemma ends_in_quiet: "list_all quiet es \<Longrightarrow> not_success r \<Longrightarrow> ends_in env S (r, es)"
  by (auto simp: ends_in_def)

lemma ends_in_pre: "list_all quiet es1 \<Longrightarrow> ends_in env S (r, es2) \<Longrightarrow> ends_in env S (r, es1 @ es2)"
  unfolding ends_in_def
  by (elim exE conjE, rule_tac x = "es1 @ pre" in exI, rule_tac x = fin in exI) simp

lemma ends_in_finish:
  "ae_character env = Some c \<Longrightarrow> (api, now) \<in> S \<Longrightarrow> decision env c api now best \<Longrightarrow>
     finish_access api env c best = (r, es) \<Longrightarrow> ends_in env S (r, es)"
  unfolding ends_in_def
  by (intro exI [of _ "[]"] exI [of _ es] conjI disjI2 exI [of _ c] exI [of _ api] exI [of _ now]
      exI [of _ best]) simp_all

lemma ends_in_mono: "ends_in env S m \<Longrightarrow> S \<subseteq> T \<Longrightarrow> ends_in env T m"
  unfolding ends_in_def by blast

lemma not_success_Inl [simp]: "not_success (Inl e)"
  by (simp add: not_success_def)

lemma ends_in_do_then:
  assumes m: "do_then m f = (r, es)" and quiet: "list_all quiet (snd m)"
    and rest: "\<And>x r2 es2. fst m = Inr x \<Longrightarrow> f x = (r2, es2) \<Longrightarrow> ends_in env S (r2, es2)"
  shows "ends_in env S (r, es)"
  using m [unfolded do_then_iff] quiet rest
  by (auto intro: ends_in_quiet ends_in_pre)

lemma start_waiting_quiet: "list_all quiet (snd (start_waiting env b))"
  by (auto simp: start_waiting_def lift_def split: option.splits)

lemma access_round_cases:
  assumes "access_round env api now resources = (r, es)"
  obtains (failed) e where "r = Inl e" "es = []" "ae_character env = None \<or> e = PodDecodeFailed"
  | (listed) candidates servers where "ae_character env = None" "es = []"
      "build_candidates env now resources = Inr candidates"
      "list_servers (ae_ids env) candidates = Inr servers"
      "r = Inr (Some (Answered (CharacterListReply (sort_key cs_server servers))))"
  | (cold) candidates character where "ae_character env = Some character" "r = Inr None" "es = []"
      "build_candidates env now resources = Inr candidates"
      "eligible_candidates env character candidates = []"
  | (chosen) candidates character best r' where "ae_character env = Some character"
      "build_candidates env now resources = Inr candidates"
      "choose_candidate env character candidates = Some best"
      "finish_access api env character best = (r', es)" "r = map_sum id Some r'"
proof (cases "build_candidates env now resources")
  case (Inl e)
  moreover have "build_candidates env now resources = Inl e \<Longrightarrow> e = PodDecodeFailed"
    by (induction resources) (auto simp: and_then_Inl_iff ok_or_Inl_iff)
  ultimately show thesis using assms failed [of e] by (simp add: access_round_def)
next
  case (Inr candidates)
  show thesis
  proof (cases "ae_character env")
    case None
    then show thesis using assms Inr failed listed
      by (cases "list_servers (ae_ids env) candidates") (auto simp: access_round_def lift_iff)
  next
    case (Some character)
    show thesis
    proof (cases "choose_candidate env character candidates")
      case None
      then have "lift (Inr None) = (r, es)" using assms Inr Some by (simp add: access_round_def)
      moreover have "eligible_candidates env character candidates = []"
        using None by (simp add: choose_candidate_def)
      ultimately show thesis using Inr Some cold by (simp add: lift_iff)
    next
      case best: (Some best)
      then have "do_then (finish_access api env character best) (\<lambda>out. lift (Inr (Some out))) = (r, es)"
        using assms Inr Some by (simp add: access_round_def)
      then show thesis using chosen [OF Some Inr best]
        by (cases "finish_access api env character best") (auto simp: access_simps)
    qed
  qed
qed

definition pod_changes :: "cold_event list \<Rightarrow> (k8s_api \<times> int) set" where
  "pod_changes events = {(a, n). \<exists>w. PodsChanged w n a \<in> set events}"

lemma seen_changes: "seen api now events = insert (api, now) (pod_changes events)"
  by (simp add: seen_def pod_changes_def)

lemma pod_changes_Cons: "pod_changes events \<subseteq> pod_changes (e # events)"
  by (auto simp: pod_changes_def)

lemma decision_choice:
  "read_snapshot env api = Inr snapshot \<Longrightarrow> build_candidates env now (fst snapshot) = Inr candidates \<Longrightarrow>
     choose_candidate env character candidates = Some best \<Longrightarrow> decision env character api now best"
  unfolding decision_def by (cases snapshot) auto

text \<open>One pass: what holds of the waiting that may follow holds of the loop.\<close>

lemma access_loop_cases:
  assumes run: "access_loop env signalled api now snapshot events = (r, es)"
  obtains (failed) e where "r = Inl e" "es = []"
  | (listed) candidates servers where "ae_character env = None" "es = []"
      "build_candidates env now (fst snapshot) = Inr candidates"
      "list_servers (ae_ids env) candidates = Inr servers"
      "r = Inr (Answered (CharacterListReply (sort_key cs_server servers)))"
  | (refused) candidates character where "ae_character env = Some character"
      "build_candidates env now (fst snapshot) = Inr candidates"
      "eligible_candidates env character candidates = []"
      "cfg_capacity_demand (ae_config env) = None"
      "r = Inr (Answered (ErrorReply ''No server available''))" "es = [UnlockAssignments]"
  | (cold) candidates character es' demand where "ae_character env = Some character"
      "build_candidates env now (fst snapshot) = Inr candidates"
      "eligible_candidates env character candidates = []"
      "cfg_capacity_demand (ae_config env) = Some demand"
      "cold_wait env (snd snapshot) events = (r, es')"
      "es = UnlockAssignments # (if signalled then [] else [SignalDemand (demand_group demand (ae_map env))]) @ es'"
  | (chosen) candidates character best where "ae_character env = Some character"
      "build_candidates env now (fst snapshot) = Inr candidates"
      "choose_candidate env character candidates = Some best"
      "finish_access api env character best = (r, es)"
proof -
  obtain r1 es1 where round: "access_round env api now (fst snapshot) = (r1, es1)" by force
  from round show thesis
  proof (cases rule: access_round_cases)
    case (chosen candidates character best r')
    have "r = r' \<and> es = es1"
      using run round chosen(5) by (cases r') (simp_all add: access_loop.simps lift_def)
    then show thesis using that(5) chosen by blast
  next
    case (cold candidates character)
    show thesis
    proof (cases "cfg_capacity_demand (ae_config env)")
      case None
      then show thesis using run round cold that(3)
        by (simp add: access_loop.simps start_waiting_def lift_def)
    next
      case (Some demand)
      obtain r2 es2 where "cold_wait env (snd snapshot) events = (r2, es2)" by force
      then show thesis using run round cold Some that(4) [of character candidates demand es2]
        by (simp add: access_loop.simps start_waiting_def lift_def split: if_splits)
    qed
  qed (use run round that in \<open>auto simp: access_loop.simps lift_def\<close>)
qed

lemma access_loop_ends_in:
  assumes snap: "read_snapshot env api = Inr snapshot"
    and wait: "\<And>version. ends_in env S (cold_wait env version events)"
  shows "ends_in env (insert (api, now) S) (access_loop env signalled api now snapshot events)"
proof -
  obtain r es where run: "access_loop env signalled api now snapshot events = (r, es)" by force
  then show ?thesis
  proof (cases rule: access_loop_cases)
    case (cold candidates character es' demand)
    have "ends_in env (insert (api, now) S) (r, es')"
      using wait [of "snd snapshot"] cold(5) by (auto intro: ends_in_mono)
    moreover let ?pre = "UnlockAssignments # (if signalled then [] else [SignalDemand (demand_group demand (ae_map env))])"
    have "list_all quiet ?pre" by simp
    ultimately have "ends_in env (insert (api, now) S) (r, ?pre @ es')" using ends_in_pre by blast
    then show ?thesis unfolding run cold(6) by simp
  next
    case (chosen candidates character best)
    show ?thesis unfolding run
      by (rule ends_in_finish [OF chosen(1) insertI1 decision_choice [OF snap chosen(2,3)] chosen(4)])
  qed (auto simp: run not_success_def intro!: ends_in_quiet)
qed

lemma cold_wait_changed:
  assumes "cold_wait env version (PodsChanged watch now api # events) = (r, es)"
  obtains (failed) e where "r = Inl e" "es = [] \<or> es = [LockAssignments, ListPods (pods_request env)]"
  | (woken) snapshot es' where "wait_for_pod_change version watch = Inr ()"
      "read_snapshot env api = Inr snapshot"
      "access_loop env True api now snapshot events = (r, es')"
      "es = LockAssignments # ListPods (pods_request env) # es'"
proof (cases "wait_for_pod_change version watch")
  case (Inl e)
  then show thesis using assms failed by auto
next
  case (Inr u)
  show thesis
  proof (cases "read_snapshot env api")
    case (Inl e)
    then show thesis using assms Inr failed by auto
  next
    case snap: (Inr snapshot)
    obtain r' es' where "access_loop env True api now snapshot events = (r', es')" by force
    then show thesis using assms Inr snap woken by simp
  qed
qed

lemma cold_wait_ends_in: "ends_in env (pod_changes events) (cold_wait env version events)"
proof (induction events arbitrary: version)
  case (Cons ev events)
  show ?case
  proof (cases ev)
    case (PodsChanged watch now api)
    obtain r es where run: "cold_wait env version (ev # events) = (r, es)" by force
    from run [unfolded PodsChanged] show ?thesis
    proof (cases rule: cold_wait_changed)
      case (failed e)
      then show ?thesis unfolding run by (auto intro!: ends_in_quiet)
    next
      case (woken snapshot es')
      have "ends_in env (pod_changes (ev # events)) (r, es')"
        using access_loop_ends_in [OF woken(2) Cons.IH, where now = now and signalled = True] woken(3)
        by (auto intro: ends_in_mono simp: pod_changes_def PodsChanged)
      from ends_in_pre [OF _ this, of "[LockAssignments, ListPods (pods_request env)]"] show ?thesis
        unfolding run woken(4) by simp
    qed
  qed (auto simp: lift_def not_success_def intro!: ends_in_quiet)
qed (auto simp: lift_def not_success_def intro!: ends_in_quiet)

text \<open>The whole query: quiet, or quiet and then the end of a decision.\<close>

lemma access_env_of_sel [simp]:
  "ae_config (access_env_of qs client request mapping) = qs_config qs"
  "ae_codecs (access_env_of qs client request mapping) = qs_codecs qs"
  "ae_decode (access_env_of qs client request mapping) = qs_decode qs"
  "ae_client (access_env_of qs client request mapping) = client"
  "ae_mapping (access_env_of qs client request mapping) = mapping"
  "ae_map (access_env_of qs client request mapping) = fst (access_params request)"
  "ae_ids (access_env_of qs client request mapping) = fst (snd (access_params request))"
  "ae_character (access_env_of qs client request mapping) = snd (snd (access_params request))"
  by (cases request; simp add: access_env_of_def)+

definition server_mapping :: "config \<Rightarrow> resource_mapping option" where
  "server_mapping cfg = (case hm_get (cfg_resource_query_mapping cfg) (de_resource_type (cfg_default_endpoint cfg)) of
     Some m \<Rightarrow> if rm_group m = [] \<and> rm_resource m = ''pods'' then Some m else None | None \<Rightarrow> None)"

lemma process_access_env:
  assumes "process_access qs request client api now events = (r, es)"
  obtains (early) "es = []" "not_success r"
      "r \<in> {Inr (Answered (ErrorReply ''Invalid map or character ID'')), Inl MissingServerMapping, Inl NotPodMapping}"
  | (env) mapping env where "server_mapping (qs_config qs) = Some mapping"
      "env = access_env_of qs client request mapping" "valid_access (access_params request)"
      "drop_guard (do_then (take_lock env) (\<lambda>_. do_then (emit (ListPods (pods_request env))) (\<lambda>_.
           do_then (lift (read_snapshot env api)) (\<lambda>snapshot.
             access_loop env False api now snapshot events)))) = (r, es)"
proof (cases "valid_access (access_params request)")
  case False
  then show thesis using assms early by (auto simp: process_access_def lift_def not_success_def)
next
  case valid: True
  let ?found = "hm_get (cfg_resource_query_mapping (qs_config qs)) (de_resource_type (cfg_default_endpoint (qs_config qs)))"
  show thesis
  proof (cases ?found)
    case None
    then show thesis using assms early valid by (auto simp: process_access_def)
  next
    case (Some mapping)
    show thesis
    proof (cases "rm_group mapping = [] \<and> rm_resource mapping = ''pods''")
      case False
      then show thesis using assms early valid Some by (auto simp: process_access_def ensure_def)
    next
      case True
      show thesis
        by (rule env [OF _ refl valid, of mapping])
           (use assms valid Some True in \<open>simp_all add: process_access_def server_mapping_def ensure_def Let_def\<close>)
    qed
  qed
qed

lemma process_access_cases:
  assumes run: "process_access qs request client api now events = (r, es)"
  obtains (quiet) "list_all quiet es" "not_success r"
  | (decided) env mapping map_name character ids api' now' best pre fin post
    where "server_mapping (qs_config qs) = Some mapping" "env = access_env_of qs client request mapping"
      "request = Query map_name character ids" "(api', now') \<in> seen api now events"
      "decision env character api' now' best" "finish_access api' env character best = (r, fin)"
      "es = pre @ fin @ post" "list_all quiet pre" "list_all quiet post"
  using run
proof (cases rule: process_access_env)
  case early
  then show thesis using quiet by simp
next
  case (env mapping env)
  let ?pre = "(if ae_character env = None then [] else [LockAssignments]) @ [ListPods (pods_request env)]"
  show thesis
  proof (cases "read_snapshot env api")
    case (Inl e)
    then have "list_all quiet es" "not_success r"
      using env(4) by (auto simp: drop_guard_def take_lock_def split: if_splits)
    then show thesis by (rule quiet)
  next
    case (Inr snapshot)
    obtain r' es' where loop: "access_loop env False api now snapshot events = (r', es')" by force
    obtain post where es: "r = r'" "es = ?pre @ es' @ post" and post: "list_all quiet post"
      using env(4) Inr loop by (auto simp: drop_guard_def take_lock_def split: if_splits)
    have "ends_in env (seen api now events) (r', es')"
      using access_loop_ends_in [OF Inr cold_wait_ends_in, where now = now and signalled = False and events = events] loop
      by (simp add: seen_changes)
    then obtain pre fin where es': "es' = pre @ fin" "list_all quiet pre" and
      fin: "fin = [] \<and> not_success r' \<or> (\<exists>character api' now' best. ae_character env = Some character
        \<and> (api', now') \<in> seen api now events \<and> decision env character api' now' best
        \<and> finish_access api' env character best = (r', fin))"
      unfolding ends_in_def fst_conv snd_conv by (elim exE conjE)
    from fin show thesis
    proof (elim disjE exE conjE)
      assume "fin = []" "not_success r'"
      then show thesis using quiet es es' post by simp
    next
      fix character api' now' best
      assume c: "ae_character env = Some character" and d: "(api', now') \<in> seen api now events"
        "decision env character api' now' best" "finish_access api' env character best = (r', fin)"
      obtain map_name ids where "request = Query map_name character ids"
        using c env(2) by (cases request) auto
      then show thesis
        by (rule decided [OF env(1,2) _ d(1,2) _ _ _ post, of _ _ fin "?pre @ pre"])
           (use d es es' in simp_all)
    qed
  qed
qed

section \<open>The end of a decision\<close>

lemma write_label_cases:
  assumes "write_label api env character (resource, p, chars) = (r, es)"
  obtains (used) "shows_used character chars" "r = Inr ()" "es = []"
  | (failed) e where "\<not> shows_used character chars" "r = Inl e"
      "\<forall>x\<in>set es. \<exists>pr. x = PatchLabel pr \<and> es = [PatchLabel pr] \<and> api_patch api pr \<noteq> Inr ()
        \<and> allocate_request (de_namespace (cfg_default_endpoint (ae_config env))) p
            (allocation_key (ae_config env) character) = Inr pr"
  | (allocated) pr where "\<not> shows_used character chars" "r = Inr ()" "es = [PatchLabel pr]"
      "allocate_request (de_namespace (cfg_default_endpoint (ae_config env))) p
         (allocation_key (ae_config env) character) = Inr pr" "api_patch api pr = Inr ()"
proof (cases "shows_used character chars")
  case True
  then show thesis using assms used by (simp add: write_label_def lift_def)
next
  case False
  let ?req = "allocate_request (de_namespace (cfg_default_endpoint (ae_config env))) p
      (allocation_key (ae_config env) character)"
  show thesis
  proof (cases ?req)
    case (Inl e)
    then show thesis using assms False failed by (auto simp: write_label_def lift_def)
  next
    case (Inr pr)
    then have "r = send_patch api pr" "es = [PatchLabel pr]"
      using assms False by (auto simp: write_label_def lift_def)
    then show thesis using False Inr failed allocated
      by (cases "api_patch api pr") (auto simp: send_patch_def)
  qed
qed

lemma finish_access_cases:
  assumes "finish_access api env character (resource, p, chars) = (r, es)"
  obtains (failed) e where "r = Inl e" "\<forall>x\<in>set es. \<exists>pr. x = PatchLabel pr \<and> es = [PatchLabel pr]
      \<and> \<not> shows_used character chars
      \<and> allocate_request (de_namespace (cfg_default_endpoint (ae_config env))) p
            (allocation_key (ae_config env) character) = Inr pr"
  | (success) name ip ports routes public server es' where "om_name (pod_metadata p) = Some name"
      "backend_ports api (ae_config env) (ae_mapping env) resource name = Inr (ip, ports)"
      "build_routes ports (get_data_ports (ae_config env)) [] [] = Inr (routes, public)"
      "routes \<noteq> []" "om_uid (pod_metadata p) = Some server"
      "write_label api env character (resource, p, chars) = (Inr (), es')"
      "es = es' @ [InstallRoute (ae_client env) ip routes]"
      "r = Inr (Answered (Success ''Allocated'' server public))"
proof -
  let ?cfg = "ae_config env"
  obtain rw ew where w: "write_label api env character (resource, p, chars) = (rw, ew)" by force
  have early: thesis if "r = Inl e" "es = []" for e using that failed by simp
  show thesis
  proof (cases "om_name (pod_metadata p)")
    case None
    then show thesis using assms early by (auto simp: finish_access_def)
  next
    case name: (Some name)
    show thesis
    proof (cases "backend_ports api ?cfg (ae_mapping env) resource name")
      case (Inl e)
      then show thesis using assms early name by (auto simp: finish_access_def)
    next
      case (Inr target)
      obtain ip ports where target: "backend_ports api ?cfg (ae_mapping env) resource name = Inr (ip, ports)"
        using Inr by (cases target) auto
      show thesis
      proof (cases "build_routes ports (get_data_ports ?cfg) [] []")
        case (Inl e)
        then show thesis using assms early name target by (auto simp: finish_access_def)
      next
        case (Inr built)
        obtain routes public where built: "build_routes ports (get_data_ports ?cfg) [] [] = Inr (routes, public)"
          using Inr by (cases built) auto
        show thesis
        proof (cases "routes = [] \<or> om_uid (pod_metadata p) = None")
          case True
          then show thesis using assms early name target built
            by (cases "routes = []") (auto simp: finish_access_def)
        next
          case False
          then obtain server where ok: "routes \<noteq> []" "om_uid (pod_metadata p) = Some server" by auto
          have step: "do_then (rw, ew) (\<lambda>_. do_then (emit (InstallRoute (ae_client env) ip routes)) (\<lambda>_.
              lift (Inr (Answered (Success ''Allocated'' server public))))) = (r, es)"
            using assms name target built ok w by (simp add: finish_access_def)
          show thesis
            using w
          proof (cases rule: write_label_cases)
            case (failed e)
            then show thesis using step that(1) [of e] by auto
          next
            case used
            then show thesis using step that(2) [OF name target built ok, of ew] w by (auto simp: lift_def)
          next
            case (allocated pr)
            then show thesis using step that(2) [OF name target built ok, of ew] w by (auto simp: lift_def)
          qed
        qed
      qed
    qed
  qed
qed

text \<open>The routes of the data ports and their public names.\<close>

lemma build_routes_get:
  "build_routes ports ps routes0 public0 = Inr (routes, public) \<Longrightarrow>
     hm_get routes (pt, proto) =
       (case find (\<lambda>p. dp_port p = pt \<and> dp_protocol p = proto) (rev ps) of
          Some p \<Rightarrow> hm_get ports (dp_name p) | None \<Rightarrow> hm_get routes0 (pt, proto))
     \<and> hm_get public name =
       (case find (\<lambda>p. dp_name p = name) (rev ps) of
          Some p \<Rightarrow> Some (dp_port p) | None \<Rightarrow> hm_get public0 name)
     \<and> (\<forall>p\<in>set ps. hm_get ports (dp_name p) \<noteq> None)"
proof (induction ps arbitrary: routes0 public0)
  case (Cons p ps)
  then obtain target where t: "hm_get ports (dp_name p) = Some target"
    "build_routes ports ps (hm_insert (dp_port p, dp_protocol p) target routes0)
        (hm_insert (dp_name p) (dp_port p) public0) = Inr (routes, public)"
    by (auto simp: result_simps)
  have find_app: "find Q (xs @ [x]) = (case find Q xs of Some y \<Rightarrow> Some y | None \<Rightarrow> if Q x then Some x else None)"
    for Q and xs :: "data_port_config list" and x
    by (induction xs) auto
  show ?case using Cons.IH [OF t(2)] t(1)
    by (auto simp: find_app split: option.splits)
qed simp

lemma find_in_set: "find Q xs = Some y \<Longrightarrow> y \<in> set xs \<and> Q y"
  by (induction xs) (auto split: if_splits)

lemma build_routes_dom:
  assumes "build_routes ports ps [] [] = Inr (routes, public)"
  shows "hm_get routes (pt, proto) \<noteq> None \<longleftrightarrow> (\<exists>p\<in>set ps. dp_port p = pt \<and> dp_protocol p = proto)"
    and "hm_get public name = Some pt \<Longrightarrow> \<exists>p\<in>set ps. dp_name p = name \<and> dp_port p = pt"
proof -
  note get = build_routes_get [OF assms]
  show "hm_get public name = Some pt \<Longrightarrow> \<exists>p\<in>set ps. dp_name p = name \<and> dp_port p = pt"
    using get [of _ _ name] by (auto split: option.splits dest!: find_in_set)
  show "hm_get routes (pt, proto) \<noteq> None \<longleftrightarrow> (\<exists>p\<in>set ps. dp_port p = pt \<and> dp_protocol p = proto)"
  proof (cases "find (\<lambda>p. dp_port p = pt \<and> dp_protocol p = proto) (rev ps)")
    case None
    then have "hm_get routes (pt, proto) = None" using get [of pt proto] by simp
    moreover have "\<not> (\<exists>p\<in>set ps. dp_port p = pt \<and> dp_protocol p = proto)"
      using None by (auto simp: find_None_iff)
    ultimately show ?thesis by simp
  next
    case (Some p)
    with find_in_set [OF Some] get [of pt proto] show ?thesis by auto
  qed
qed

section \<open>The chosen candidate\<close>

lemma build_candidates_set:
  "build_candidates env now rs = Inr cs \<Longrightarrow>
     (resource, p, chars) \<in> set cs \<longleftrightarrow>
       resource \<in> set rs \<and> ae_decode env resource = Some p \<and> pod_ready p
       \<and> chars = characters_on_pod (ae_codecs env) (ae_config env) p [] now"
  by (induction rs arbitrary: cs) (auto simp: result_simps split: if_splits)

lemma eligible_set:
  "(resource, p, chars) \<in> set (eligible_candidates env character cs) \<longleftrightarrow>
     (resource, p, chars) \<in> set cs \<and> \<not> pod_draining p
     \<and> (has_character character chars \<or> length chars < cfg_max_characters_per_server (ae_config env))"
  by (auto simp: eligible_candidates_def has_room_def)

text \<open>What a decision rests on: a Pod of the snapshot that is ready, not draining and has room.\<close>

definition offers :: "access_env \<Rightarrow> string \<Rightarrow> k8s_api \<Rightarrow> int \<Rightarrow> dynamic_object \<Rightarrow> pod \<Rightarrow> character list \<Rightarrow> bool" where
  "offers env character api now resource p chars \<longleftrightarrow>
     (\<exists>resources version. read_snapshot env api = Inr (resources, version) \<and> resource \<in> set resources)
     \<and> ae_decode env resource = Some p \<and> pod_ready p \<and> \<not> pod_draining p
     \<and> chars = characters_on_pod (ae_codecs env) (ae_config env) p [] now
     \<and> (has_character character chars \<or> length chars < cfg_max_characters_per_server (ae_config env))"

lemma decision_offers:
  assumes "decision env character api now (resource, p, chars)"
  shows "offers env character api now resource p chars"
    and "offers env character api now resource' p' chars' \<Longrightarrow>
      candidate_key (ae_ids env) character (resource, p, chars)
        \<le> candidate_key (ae_ids env) character (resource', p', chars')"
proof -
  obtain rs v cs where rs: "read_snapshot env api = Inr (rs, v)" and cs: "build_candidates env now rs = Inr cs"
    and ch: "choose_candidate env character cs = Some (resource, p, chars)"
    using assms unfolding decision_def by blast
  have mem: "offers env character api now r q c \<longleftrightarrow> (r, q, c) \<in> set (eligible_candidates env character cs)" for r q c
    unfolding offers_def eligible_set build_candidates_set [OF cs] using rs by auto
  show "offers env character api now resource p chars"
    using least.pick_in [OF ch [unfolded choose_candidate_def]] by (simp add: mem)
  show "candidate_key (ae_ids env) character (resource, p, chars)
        \<le> candidate_key (ae_ids env) character (resource', p', chars')"
    if "offers env character api now resource' p' chars'"
    using least.pick_least [OF ch [unfolded choose_candidate_def]] that by (simp add: mem)
qed

section \<open>Sample\<close>

text \<open>
  Two servers: \<open>p\<close> holds its two characters and is full, \<open>q\<close> is empty.
\<close>

definition empty_pod :: pod where
  "empty_pod = sample_pod\<lparr>pod_metadata := (pod_metadata sample_pod)
     \<lparr>om_name := Some ''q'', om_uid := Some ''v'', om_labels := None\<rparr>\<rparr>"

definition sample_server :: query_server where
  "sample_server =
     \<lparr>qs_config = sample_config, qs_codecs = sample_codecs,
      qs_decode = (\<lambda>r. if om_name (do_metadata r) = Some ''p'' then Some sample_pod else Some empty_pod)\<rparr>"

definition sample_api :: k8s_api where
  "sample_api =
     \<lparr>api_list = (\<lambda>_. Inr \<lparr>lresp_items =
        [sample_resource ''p'' ''10.0.0.1'' [], sample_resource ''q'' ''10.0.0.2'' []], lresp_version = Some ''7''\<rparr>),
      api_services = (\<lambda>_. Inr []), api_patch = (\<lambda>_. Inr ())\<rparr>"

definition sample_patch :: patch_request where
  "sample_patch = \<lparr>pr_namespace = ''games'', pr_pod = ''q'', pr_resource_version = ''1'',
     pr_label = ''c/z'', pr_value = ''Allocated''\<rparr>"

definition sample_list :: list_request where
  "sample_list = \<lparr>lr_namespace = ''games'', lr_group = [], lr_version = ''v1'', lr_api_version = ''v1'',
     lr_plural = ''pods'', lr_label_selector = Some ''map=m''\<rparr>"

lemma sample_mapping_found: "server_mapping sample_config = Some sample_pod_mapping"
  by (simp add: server_mapping_def sample_config_defs)

definition sample_env :: "query_request \<Rightarrow> access_env" where
  "sample_env request = access_env_of sample_server sample_client request sample_pod_mapping"

lemma sample_snapshot: "read_snapshot (sample_env request) sample_api =
    Inr ([sample_resource ''p'' ''10.0.0.1'' [], sample_resource ''q'' ''10.0.0.2'' []], ''7'')"
  by (simp add: sample_env_def read_snapshot_def query_resources_snapshot_def sample_api_def
      access_status_def sample_server_def sample_config_defs)

lemma empty_pod_characters: "characters_on_pod cd cfg empty_pod req now = []"
  by (simp add: characters_on_pod_def empty_pod_def List.map_filter_def)

lemma sample_ready: "pod_ready sample_pod" "pod_ready empty_pod"
  by (simp_all add: pod_ready_def sample_pod_def empty_pod_def)

lemma sample_characters: "characters_on_pod sample_codecs sample_config sample_pod [] 5 = [char_used, char_away]"
  by (simp add: sample_pod_characters)

lemma sample_candidates: "build_candidates (sample_env request) 5
    [sample_resource ''p'' ''10.0.0.1'' [], sample_resource ''q'' ''10.0.0.2'' []] =
    Inr [(sample_resource ''p'' ''10.0.0.1'' [], sample_pod, [char_used, char_away]),
         (sample_resource ''q'' ''10.0.0.2'' [], empty_pod, [])]"
  by (simp add: sample_env_def sample_server_def empty_pod_characters sample_characters sample_ready
      sample_resource_def sample_meta_def)

lemma sample_not_draining: "\<not> pod_draining sample_pod" "\<not> pod_draining empty_pod"
  by (simp_all add: pod_draining_def sample_pod_def empty_pod_def DRAIN_LABEL_def)

lemma sample_choices:
  assumes env: "env = sample_env (Query ''m'' ''z'' [''a''])" and env': "env' = sample_env (Query ''m'' ''a'' [])"
    and cs: "cs = [(sample_resource ''p'' ''10.0.0.1'' [], sample_pod, [char_used, char_away]),
         (sample_resource ''q'' ''10.0.0.2'' [], empty_pod, [])]"
  shows "choose_candidate env ''z'' cs = Some (sample_resource ''q'' ''10.0.0.2'' [], empty_pod, [])"
    and "choose_candidate env' ''a'' cs =
      Some (sample_resource ''p'' ''10.0.0.1'' [], sample_pod, [char_used, char_away])"
  by (simp_all add: env env' cs choose_candidate_def eligible_candidates_def has_room_def has_character_def
      sample_not_draining sample_env_def sample_server_def sample_config_def char_used_def char_away_def
      first_least_def candidate_key_def less_eq_prod_def)

lemma sample_env_character: "ae_character (sample_env request) = snd (snd (access_params request))"
  by (simp add: sample_env_def)

lemma sample_finish:
  "finish_access sample_api (sample_env (Query ''m'' ''z'' [''a''])) ''z'' (sample_resource ''q'' ''10.0.0.2'' [], empty_pod, []) =
      (Inr (Answered (Success ''Allocated'' ''v'' [(''default'', 7777)])),
       [PatchLabel sample_patch, InstallRoute sample_client ''10.0.0.2'' [((7777, Udp), 7777)]])"
  by (simp add: finish_access_def backend_ports_def extract_target_info_def extract_direct_target_def
        map_err_def write_label_def shows_used_def allocate_request_def pod_draining_def send_patch_def
        allocation_key_def sample_patch_def sample_api_def sample_env_def sample_server_def
        sample_config_defs empty_pod_def sample_pod_def get_data_ports_def lift_def)

lemma sample_query:
  "process_access sample_server (Query ''m'' ''z'' [''a'']) sample_client sample_api 5 [] =
     (Inr (Answered (Success ''Allocated'' ''v'' [(''default'', 7777)])),
      [LockAssignments, ListPods sample_list, PatchLabel sample_patch,
       InstallRoute sample_client ''10.0.0.2'' [((7777, Udp), 7777)], UnlockAssignments])"
proof -
  let ?env = "sample_env (Query ''m'' ''z'' [''a''])"
  have "access_loop ?env False sample_api 5
      ([sample_resource ''p'' ''10.0.0.1'' [], sample_resource ''q'' ''10.0.0.2'' []], ''7'') [] =
      (Inr (Answered (Success ''Allocated'' ''v'' [(''default'', 7777)])),
       [PatchLabel sample_patch, InstallRoute sample_client ''10.0.0.2'' [((7777, Udp), 7777)]])"
    using sample_finish by (simp add: access_loop.simps access_round_def sample_candidates sample_choices(1) [OF refl refl refl] lift_def
        sample_env_character del: build_candidates.simps)
  moreover have "pods_request ?env = sample_list"
    by (simp add: pods_request_def list_request_of_def label_selector_text_def access_labels_def sample_list_def
        sample_env_def sample_server_def sample_config_defs)
  moreover have "valid_access (access_params (Query ''m'' ''z'' [''a'']))"
    by (simp add: valid_access_def valid_character_id_def is_ascii_alphanumeric_def)
  ultimately show ?thesis
    using sample_snapshot [of "Query ''m'' ''z'' [''a'']"]
    by (simp add: process_access_def sample_env_def drop_guard_def take_lock_def holds_lock_def)
       (simp add: sample_server_def sample_config_defs)
qed

lemma sample_query_again:
  "process_access sample_server (Query ''m'' ''a'' []) sample_client sample_api 5 [] =
     (Inr (Answered (Success ''Allocated'' ''u'' [(''default'', 7777)])),
      [LockAssignments, ListPods sample_list,
       InstallRoute sample_client ''10.0.0.1'' [((7777, Udp), 7777)], UnlockAssignments])"
proof -
  let ?env = "sample_env (Query ''m'' ''a'' [])"
  let ?best = "(sample_resource ''p'' ''10.0.0.1'' [], sample_pod, [char_used, char_away])"
  have finish: "finish_access sample_api ?env ''a'' ?best =
      (Inr (Answered (Success ''Allocated'' ''u'' [(''default'', 7777)])),
       [InstallRoute sample_client ''10.0.0.1'' [((7777, Udp), 7777)]])"
    by (simp add: finish_access_def backend_ports_def extract_target_info_def extract_direct_target_def
        map_err_def write_label_def shows_used_def sample_env_def sample_server_def
        sample_config_defs sample_pod_def char_used_def get_data_ports_def lift_def)
  have "access_loop ?env False sample_api 5
      ([sample_resource ''p'' ''10.0.0.1'' [], sample_resource ''q'' ''10.0.0.2'' []], ''7'') [] =
      (Inr (Answered (Success ''Allocated'' ''u'' [(''default'', 7777)])),
       [InstallRoute sample_client ''10.0.0.1'' [((7777, Udp), 7777)]])"
    using finish by (simp add: access_loop.simps access_round_def sample_candidates sample_choices(2) [OF refl refl refl] lift_def
        sample_env_character del: build_candidates.simps)
  moreover have "pods_request ?env = sample_list"
    by (simp add: pods_request_def list_request_of_def label_selector_text_def access_labels_def sample_list_def
        sample_env_def sample_server_def sample_config_defs)
  moreover have "valid_access (access_params (Query ''m'' ''a'' []))"
    by (simp add: valid_access_def valid_character_id_def is_ascii_alphanumeric_def)
  ultimately show ?thesis
    using sample_snapshot [of "Query ''m'' ''a'' []"]
    by (simp add: process_access_def sample_env_def drop_guard_def take_lock_def holds_lock_def)
       (simp add: sample_server_def sample_config_defs)
qed

section \<open>Properties: the chosen server\<close>

text \<open>Every query that does anything to the world does it at the end of a decision.\<close>

lemma process_access_decided:
  assumes run: "process_access qs request client api now events = (r, es)"
    and active: "\<not> list_all quiet es \<or> \<not> not_success r"
  obtains mapping map_name character ids api' now' resource p chars pre fin post env
    where "server_mapping (qs_config qs) = Some mapping" "env = access_env_of qs client request mapping"
      "request = Query map_name character ids" "(api', now') \<in> seen api now events"
      "decision env character api' now' (resource, p, chars)"
      "offers env character api' now' resource p chars"
      "\<And>resource' p' chars'. offers env character api' now' resource' p' chars' \<Longrightarrow>
         candidate_key ids character (resource, p, chars) \<le> candidate_key ids character (resource', p', chars')"
      "finish_access api' env character (resource, p, chars) = (r, fin)"
      "es = pre @ fin @ post" "list_all quiet pre" "list_all quiet post"
  using run
proof (cases rule: process_access_cases)
  case (decided env mapping map_name character ids api' now' best pre fin post)
  obtain resource p chars where best: "best = (resource, p, chars)" by (cases best) auto
  have "ae_ids env = ids" using decided(2,3) by simp
  then show thesis
    using that [OF decided(1-4) decided(5) [unfolded best] decision_offers(1) [OF decided(5) [unfolded best]] _
        decided(6) [unfolded best] decided(7-9)] decision_offers(2) [OF decided(5) [unfolded best]] by simp
qed (use active in blast)

lemma success_finish:
  assumes "finish_access api env character (resource, p, chars) = (r, es)" "\<not> not_success r"
  shows "\<exists>server ports. om_uid (pod_metadata p) = Some server
    \<and> r = Inr (Answered (Success ''Allocated'' server ports))"
  using assms(1) by (cases rule: finish_access_cases) (use assms(2) in auto)

text \<open>
  C1. A query is granted only a server that the API listed for its map in a snapshot the query itself
  read, whose Pod was ready and not draining, and which showed the character already or fewer
  characters than the configured maximum; the reply carries that Pod's identity.
\<close>

theorem granted_server_is_eligible:
  assumes "process_access qs request client api now events
      = (Inr (Answered (Success status server ports)), es)"
  shows "\<exists>mapping map_name character friends api' now' resource p chars.
    server_mapping (qs_config qs) = Some mapping \<and> request = Query map_name character friends
    \<and> (api', now') \<in> seen api now events
    \<and> offers (access_env_of qs client request mapping) character api' now' resource p chars
    \<and> om_uid (pod_metadata p) = Some server \<and> status = ''Allocated''"
proof -
  have active: "\<not> not_success (Inr (Answered (Success status server ports)))" by (simp add: not_success_def)
  obtain mapping map_name character ids api' now' resource p chars pre fin post env
    where m: "server_mapping (qs_config qs) = Some mapping" "env = access_env_of qs client request mapping"
      and q: "request = Query map_name character ids" "(api', now') \<in> seen api now events"
      and dec: "decision env character api' now' (resource, p, chars)"
      and o: "offers env character api' now' resource p chars"
      and best: "\<And>resource' p' chars'. offers env character api' now' resource' p' chars' \<Longrightarrow>
         candidate_key ids character (resource, p, chars) \<le> candidate_key ids character (resource', p', chars')"
      and fin: "finish_access api' env character (resource, p, chars) = (Inr (Answered (Success status server ports)), fin)"
      and es: "es = pre @ fin @ post" "list_all quiet pre" "list_all quiet post"
    by (rule process_access_decided [OF assms disjI2 [OF active]], rule that)
  have "om_uid (pod_metadata p) = Some server" "status = ''Allocated''"
    using success_finish [OF fin active] by auto
  with m q o show ?thesis by blast
qed

lemma granted_server_is_eligible_witness:
  "\<exists>api' now' resource p chars. offers (sample_env (Query ''m'' ''z'' [''a''])) ''z'' api' now' resource p chars
     \<and> om_uid (pod_metadata p) = Some ''v''"
proof -
  have "server_mapping (qs_config sample_server) = Some sample_pod_mapping"
    by (simp add: sample_server_def sample_mapping_found)
  with granted_server_is_eligible [OF sample_query] show ?thesis
    unfolding sample_env_def by (elim exE conjE) (simp, blast)
qed

abbreviation friends_on :: "string list \<Rightarrow> character list \<Rightarrow> nat" where
  "friends_on friends chars \<equiv> length (filter (\<lambda>c. ch_id c \<in> set friends) chars)"

text \<open>
  C9. Among the eligible servers of the snapshot it decides on, which is one the query itself read,
  the query prefers one that already shows the character, then one with the most of its friends, then the one with the fewest characters, then
  the least identity: no eligible server is ahead of the granted one in this order.
\<close>

theorem granted_server_is_preferred:
  assumes "process_access qs (Query map_name character friends) client api now events
      = (Inr (Answered (Success status server ports)), es)"
  shows "\<exists>mapping api' now' resource p chars. server_mapping (qs_config qs) = Some mapping
    \<and> (api', now') \<in> seen api now events \<and> om_uid (pod_metadata p) = Some server
    \<and> (let env = access_env_of qs client (Query map_name character friends) mapping in
       offers env character api' now' resource p chars
       \<and> (\<forall>resource' p' chars'. offers env character api' now' resource' p' chars' \<longrightarrow>
            (has_character character chars' \<longrightarrow> has_character character chars)
            \<and> (has_character character chars' = has_character character chars \<longrightarrow>
                friends_on friends chars' \<le> friends_on friends chars
                \<and> (friends_on friends chars' = friends_on friends chars \<longrightarrow>
                    length chars \<le> length chars'
                    \<and> (length chars' = length chars \<longrightarrow>
                        om_uid (pod_metadata p) \<le> om_uid (pod_metadata p'))))))"
proof -
  have active: "\<not> not_success (Inr (Answered (Success status server ports)))" by (simp add: not_success_def)
  obtain mapping m' c' f' api' now' resource p chars pre fin post env
    where m: "server_mapping (qs_config qs) = Some mapping" "env = access_env_of qs client (Query map_name character friends) mapping"
      and q: "Query map_name character friends = Query m' c' f'" "(api', now') \<in> seen api now events"
      and dec: "decision env c' api' now' (resource, p, chars)"
      and o: "offers env c' api' now' resource p chars"
      and best: "\<And>resource' p' chars'. offers env c' api' now' resource' p' chars' \<Longrightarrow>
         candidate_key f' c' (resource, p, chars) \<le> candidate_key f' c' (resource', p', chars')"
      and fin: "finish_access api' env c' (resource, p, chars) = (Inr (Answered (Success status server ports)), fin)"
      and es: "es = pre @ fin @ post" "list_all quiet pre" "list_all quiet post"
    by (rule process_access_decided [OF assms disjI2 [OF active]], rule that)
  have cf: "c' = character" "f' = friends" using q(1) by simp_all
  have "om_uid (pod_metadata p) = Some server" using success_finish [OF fin active] by auto
  moreover have "(has_character character chars' \<longrightarrow> has_character character chars)
            \<and> (has_character character chars' = has_character character chars \<longrightarrow>
                friends_on friends chars' \<le> friends_on friends chars
                \<and> (friends_on friends chars' = friends_on friends chars \<longrightarrow>
                    length chars \<le> length chars'
                    \<and> (length chars' = length chars \<longrightarrow>
                        om_uid (pod_metadata p) \<le> om_uid (pod_metadata p'))))"
    if "offers env character api' now' resource' p' chars'" for resource' p' chars'
    using best [OF that [folded cf]] by (auto simp: cf candidate_key_def less_eq_prod_def)
  ultimately show ?thesis using m o q(2) unfolding cf Let_def by blast
qed

lemma granted_server_is_preferred_witness:
  "\<exists>resource p chars. om_uid (pod_metadata p) = Some ''u''
     \<and> offers (sample_env (Query ''m'' ''a'' [])) ''a'' sample_api 5 resource p chars
     \<and> (\<forall>resource' p' chars'. offers (sample_env (Query ''m'' ''a'' [])) ''a'' sample_api 5 resource' p' chars' \<longrightarrow>
          has_character ''a'' chars' \<longrightarrow> has_character ''a'' chars)"
proof -
  have "server_mapping (qs_config sample_server) = Some sample_pod_mapping"
    by (simp add: sample_server_def sample_mapping_found)
  with granted_server_is_preferred [OF sample_query_again] show ?thesis
    unfolding sample_env_def Let_def seen_none by (elim exE conjE) (simp only: option.inject singleton_iff prod.inject, blast)
qed

section \<open>Properties: the label write and the route\<close>

lemma not_quiet: "x \<in> set es \<Longrightarrow> \<not> quiet x \<Longrightarrow> \<not> list_all quiet es"
  by (auto simp: list_all_iff)

lemma in_fin:
  "es = pre @ fin @ post \<Longrightarrow> list_all quiet pre \<Longrightarrow> list_all quiet post \<Longrightarrow> x \<in> set es \<Longrightarrow> \<not> quiet x
     \<Longrightarrow> x \<in> set fin"
  by (auto simp: list_all_iff)



text \<open>What a label write of a query rests on.\<close>

lemma label_write_decided:
  assumes "process_access qs request client api now events = (r, es)" and "PatchLabel pr \<in> set es"
  obtains mapping map_name character friends api' now' resource p chars name version where
    "request = Query map_name character friends" "(api', now') \<in> seen api now events"
    "server_mapping (qs_config qs) = Some mapping"
    "decision (access_env_of qs client request mapping) character api' now' (resource, p, chars)"
    "offers (access_env_of qs client request mapping) character api' now' resource p chars"
    "\<not> (\<exists>c\<in>set chars. ch_id c = character \<and> ch_status c = Used)"
    "om_name (pod_metadata p) = Some name" "om_resource_version (pod_metadata p) = Some version"
    "pr = \<lparr>pr_namespace = de_namespace (cfg_default_endpoint (qs_config qs)), pr_pod = name,
            pr_resource_version = version,
            pr_label = cfg_character_label_prefix (qs_config qs) @ ''/'' @ character,
            pr_value = ''Allocated''\<rparr>"
    "filter (\<lambda>e. \<exists>pr'. e = PatchLabel pr') es = [PatchLabel pr]"
    "case r of
       Inr (Answered (Success status server ports)) \<Rightarrow> om_uid (pod_metadata p) = Some server \<and> api_patch api' pr = Inr ()
     | Inr _ \<Rightarrow> False
     | Inl e \<Rightarrow> \<forall>c ip routes. InstallRoute c ip routes \<notin> set es"
proof -
  obtain mapping map_name character friends api' now' resource p chars pre fin post env
    where m: "server_mapping (qs_config qs) = Some mapping" "env = access_env_of qs client request mapping"
      and q: "request = Query map_name character friends" "(api', now') \<in> seen api now events"
      and dec: "decision env character api' now' (resource, p, chars)"
      and o: "offers env character api' now' resource p chars"
      and best: "\<And>resource' p' chars'. offers env character api' now' resource' p' chars' \<Longrightarrow>
         candidate_key friends character (resource, p, chars) \<le> candidate_key friends character (resource', p', chars')"
      and fin: "finish_access api' env character (resource, p, chars) = (r, fin)"
      and es: "es = pre @ fin @ post" "list_all quiet pre" "list_all quiet post"
    by (rule process_access_decided [OF assms(1) disjI1 [OF not_quiet [OF assms(2) quiet_simps(5)]]], rule that)
  note patch = in_fin [OF es assms(2) quiet_simps(5)]
  have none: "filter (\<lambda>e. \<exists>pr'. e = PatchLabel pr') xs = []" if "list_all quiet xs" for xs
    using that by (auto simp: list_all_iff filter_empty_conv)
  have written: "\<not> shows_used character chars \<and> filter (\<lambda>e. \<exists>pr'. e = PatchLabel pr') fin = [PatchLabel pr]
    \<and> allocate_request (de_namespace (cfg_default_endpoint (qs_config qs))) p
        (allocation_key (qs_config qs) character) = Inr pr
    \<and> (case r of
       Inr (Answered (Success status server ports)) \<Rightarrow> om_uid (pod_metadata p) = Some server \<and> api_patch api' pr = Inr ()
     | Inr _ \<Rightarrow> False
     | Inl e \<Rightarrow> \<forall>c ip routes. InstallRoute c ip routes \<notin> set fin)"
    using fin
  proof (cases rule: finish_access_cases)
    case (failed e)
    from failed(2) patch have "fin = [PatchLabel pr]" "\<not> shows_used character chars"
      "allocate_request (de_namespace (cfg_default_endpoint (ae_config env))) p
         (allocation_key (ae_config env) character) = Inr pr" by blast+
    with m(2) failed(1) show ?thesis by simp
  next
    case (success name ip' ports routes' public server es')
    from success(6) show ?thesis
      by (cases rule: write_label_cases) (use success patch m(2) in auto)
  qed
  then obtain name version where version: "om_name (pod_metadata p) = Some name"
      "om_resource_version (pod_metadata p) = Some version"
      "pr = \<lparr>pr_namespace = de_namespace (cfg_default_endpoint (qs_config qs)), pr_pod = name,
            pr_resource_version = version,
            pr_label = cfg_character_label_prefix (qs_config qs) @ ''/'' @ character,
            pr_value = ''Allocated''\<rparr>"
    by (auto simp: allocate_request_def allocation_key_def result_simps)
  have only: "filter (\<lambda>e. \<exists>pr'. e = PatchLabel pr') es = filter (\<lambda>e. \<exists>pr'. e = PatchLabel pr') fin"
    using none [OF es(2)] none [OF es(3)] by (simp add: es(1))
  have unused: "\<not> (\<exists>c\<in>set chars. ch_id c = character \<and> ch_status c = Used)"
    using written by (simp add: shows_used_def list_ex_iff)
  have once: "filter (\<lambda>e. \<exists>pr'. e = PatchLabel pr') es = [PatchLabel pr]" using only written by simp
  have outcome: "case r of
       Inr (Answered (Success status server ports)) \<Rightarrow> om_uid (pod_metadata p) = Some server \<and> api_patch api' pr = Inr ()
     | Inr _ \<Rightarrow> False
     | Inl e \<Rightarrow> \<forall>c ip routes. InstallRoute c ip routes \<notin> set es"
    using written in_fin [OF es _ quiet_simps(6)]
    by (simp split: sum.splits access_outcome.splits query_response.splits) blast
  from that [OF q m(1) dec [unfolded m(2)] o [unfolded m(2)] unused version once outcome] show thesis .
qed

text \<open>
  C10. The only label write of a query is one request for the Pod it decided on in a snapshot it read
  itself: that Pod's name and its resource version in that snapshot, so that the API refuses the write
  if the Pod changed since, the character's label key and the value Allocated. The write is for no
  other candidate: a query that writes either succeeds, with the write accepted and the reply naming
  that Pod's identity, or fails with an error and installs no route. A query never writes for a
  character the Pod shows as Used, so a repeated query does not demote a connected player.
\<close>

theorem label_write_guarded:
  assumes "process_access qs request client api now events = (r, es)" and "PatchLabel pr \<in> set es"
  shows "\<exists>mapping map_name character friends api' now' resource p chars name version.
    request = Query map_name character friends \<and> (api', now') \<in> seen api now events
    \<and> server_mapping (qs_config qs) = Some mapping
    \<and> decision (access_env_of qs client request mapping) character api' now' (resource, p, chars)
    \<and> offers (access_env_of qs client request mapping) character api' now' resource p chars
    \<and> \<not> (\<exists>c\<in>set chars. ch_id c = character \<and> ch_status c = Used)
    \<and> om_name (pod_metadata p) = Some name \<and> om_resource_version (pod_metadata p) = Some version
    \<and> pr = \<lparr>pr_namespace = de_namespace (cfg_default_endpoint (qs_config qs)), pr_pod = name,
            pr_resource_version = version,
            pr_label = cfg_character_label_prefix (qs_config qs) @ ''/'' @ character,
            pr_value = ''Allocated''\<rparr>
    \<and> filter (\<lambda>e. \<exists>pr'. e = PatchLabel pr') es = [PatchLabel pr]
    \<and> (case r of
         Inr (Answered (Success status server ports)) \<Rightarrow> om_uid (pod_metadata p) = Some server \<and> api_patch api' pr = Inr ()
       | Inr _ \<Rightarrow> False
       | Inl e \<Rightarrow> (\<forall>c ip routes. InstallRoute c ip routes \<notin> set es))"
  by (rule label_write_decided [OF assms]) blast

lemma label_write_guarded_witness:
  "\<exists>resource p chars. decision (sample_env (Query ''m'' ''z'' [''a''])) ''z'' sample_api 5 (resource, p, chars)
     \<and> om_resource_version (pod_metadata p) = Some (pr_resource_version sample_patch)
     \<and> om_name (pod_metadata p) = Some ''q'' \<and> om_uid (pod_metadata p) = Some ''v''
     \<and> api_patch sample_api sample_patch = Inr ()"
proof -
  have "server_mapping (qs_config sample_server) = Some sample_pod_mapping"
    by (simp add: sample_server_def sample_mapping_found)
  with label_write_guarded [OF sample_query, of sample_patch] show ?thesis
    unfolding sample_env_def seen_none by (auto simp: sample_patch_def)
qed

section \<open>Properties: the session table\<close>

lemma apply_effects_append [simp]:
  "apply_effects clock (es @ es') st = apply_effects clock es' (apply_effects clock es st)"
  by (simp add: apply_effects_def)

lemma apply_effects_Cons [simp]:
  "apply_effects clock (e # es) st = apply_effects clock es (apply_effect clock e st)"
  by (simp add: apply_effects_def)

lemma apply_effects_none:
  "(\<And>c ip m. InstallRoute c ip m \<notin> set es) \<Longrightarrow> apply_effects clock es st = st"
proof (induction es)
  case (Cons e es)
  then have "apply_effect clock e st = st" by (cases e) (auto simp: apply_effect_def)
  with Cons show ?case by simp
qed (simp add: apply_effects_def)

lemma apply_effects_quiet: "list_all quiet es \<Longrightarrow> apply_effects clock es st = st"
  by (rule apply_effects_none) (auto simp: list_all_iff)

lemma process_query_success:
  "process_query qs request client api now events = (Replied (Success status server ports), es) \<Longrightarrow>
     process_access qs request client api now events = (Inr (Answered (Success status server ports)), es)"
  by (auto simp: process_query_def split: prod.splits sum.splits access_outcome.splits error.splits
      demand_error.splits)

lemma process_query_not_success:
  "process_query qs request client api now events = (res, es) \<Longrightarrow>
     \<forall>status server ports. res \<noteq> Replied (Success status server ports) \<Longrightarrow>
     \<exists>r. process_access qs request client api now events = (r, es) \<and> not_success r"
  by (cases "process_access qs request client api now events")
     (auto simp: process_query_def not_success_def)

text \<open>
  C13. A query that is not answered with success (an error reply, no reply, still waiting) leaves the
  session table exactly as it was.
\<close>

theorem failed_query_keeps_sessions:
  assumes "process_query qs request client api now events = (res, es)"
    and "\<forall>status server ports. res \<noteq> Replied (Success status server ports)"
  shows "apply_effects clock es st = st"
proof -
  obtain r where run: "process_access qs request client api now events = (r, es)" "not_success r"
    using process_query_not_success [OF assms] by blast
  have "InstallRoute c ip m \<notin> set es" for c ip m
    using run(1)
  proof (cases rule: process_access_cases)
    case quiet
    then show ?thesis by (auto simp: list_all_iff)
  next
    case (decided env mapping map_name character ids api' now' best pre fin post)
    obtain resource p chars where best: "best = (resource, p, chars)" by (cases best) auto
    have "InstallRoute c ip m \<notin> set fin"
      using decided(6) [unfolded best]
    proof (cases rule: finish_access_cases)
      case (success name ip' ports routes' public server es')
      with run(2) show ?thesis by (simp add: not_success_def)
    qed auto
    with decided(7-9) show ?thesis by (auto simp: list_all_iff)
  qed
  then show ?thesis by (rule apply_effects_none)
qed

lemma success_installs_route:
  assumes "process_query qs request client api now events = (Replied (Success status server ports), es)"
    and "isolated st"
  shows "\<exists>ip routes. InstallRoute client ip routes \<in> set es
    \<and> route_of (apply_effects clock es st) addr
        = (if sa_ip client = sa_ip addr then Some (ip, routes) else route_of st addr)
    \<and> (\<forall>pt proto. hm_get routes (pt, proto) \<noteq> None \<longleftrightarrow>
          (\<exists>p\<in>set (get_data_ports (qs_config qs)). dp_port p = pt \<and> dp_protocol p = proto))
    \<and> (\<forall>name pt. hm_get ports name = Some pt \<longrightarrow>
          (\<exists>p\<in>set (get_data_ports (qs_config qs)). dp_name p = name \<and> dp_port p = pt))"
proof -
  have active: "\<not> not_success (Inr (Answered (Success status server ports)))" by (simp add: not_success_def)
  from process_query_success [OF assms(1)] show ?thesis
  proof (cases rule: process_access_cases)
    case quiet
    with active show ?thesis by simp
  next
    case (decided env mapping map_name character ids api' now' best pre fin post)
    obtain resource p chars where best: "best = (resource, p, chars)" by (cases best) auto
    from decided(6) [unfolded best] show ?thesis
    proof (cases rule: finish_access_cases)
      case (success name ip bports routes public server' es')
      have quiet_label: "InstallRoute c i m \<notin> set es'" for c i m
        using success(6) by (cases rule: write_label_cases) auto
      have install: "apply_effects clock es st = upsert_multi_port clock client ip routes st"
        using decided(2,7) success(7) apply_effects_quiet [OF decided(8)] apply_effects_quiet [OF decided(9)]
          apply_effects_none [OF quiet_label] by (simp add: apply_effect_def)
      have cfg: "ae_config env = qs_config qs" "ports = public" using decided(2) success(8) by simp_all
      note dom = build_routes_dom [OF success(3), unfolded cfg(1), folded cfg(2)]
      have "InstallRoute client ip routes \<in> set es"
        using decided(2,7) success(7) by simp
      then show ?thesis
        using dom routes.route_install [OF assms(2), where a = client and r = "(ip, routes)" and now = clock]
        unfolding install by auto
    qed simp
  qed
qed

text \<open>
  C11. A query answered with success routes every packet of the client's IP, and of no other, to the
  backend it reports: the installed route has exactly the configured data ports and protocols, and
  the reply names only configured data ports with their public numbers.
\<close>

theorem successful_query_routes_client:
  assumes "process_query qs request client api now events = (Replied (Success status server ports), es)"
    and "isolated st"
  shows "\<exists>ip routes. InstallRoute client ip routes \<in> set es
    \<and> route_of (apply_effects clock es st) addr
        = (if sa_ip client = sa_ip addr then Some (ip, routes) else route_of st addr)
    \<and> (\<forall>pt proto. hm_get routes (pt, proto) \<noteq> None \<longleftrightarrow>
          (\<exists>p\<in>set (get_data_ports (qs_config qs)). dp_port p = pt \<and> dp_protocol p = proto))
    \<and> (\<forall>name pt. hm_get ports name = Some pt \<longrightarrow>
          (\<exists>p\<in>set (get_data_ports (qs_config qs)). dp_name p = name \<and> dp_port p = pt))"
  by (rule success_installs_route [OF assms])

text \<open>Witnesses, on the sample server and on a server whose demand is not configured.\<close>

lemma failed_query_keeps_sessions_witness:
  "apply_effects 9 (snd (process_query sample_server (Query ''no such map'' ''z'' []) sample_client sample_api 5 []))
     sample_store = sample_store"
proof -
  have "process_query sample_server (Query ''no such map'' ''z'' []) sample_client sample_api 5 []
      = (Replied (ErrorReply ''Invalid map or character ID''), [])"
    by (simp add: process_query_def process_access_def valid_access_def valid_character_id_def
        is_ascii_alphanumeric_def lift_def)
  from failed_query_keeps_sessions [OF this] this show ?thesis by simp
qed

lemma successful_query_routes_client_witness:
  "route_of (apply_effects 9 (snd (process_query sample_server (Query ''m'' ''z'' [''a'']) sample_client sample_api 5 []))
     sample_store) sample_peer = Some (''10.0.0.2'', [((7777, Udp), 7777)])"
proof -
  have run: "process_query sample_server (Query ''m'' ''z'' [''a'']) sample_client sample_api 5 [] =
      (Replied (Success ''Allocated'' ''v'' [(''default'', 7777)]),
       [LockAssignments, ListPods sample_list, PatchLabel sample_patch,
        InstallRoute sample_client ''10.0.0.2'' [((7777, Udp), 7777)], UnlockAssignments])"
    by (simp add: process_query_def sample_query)
  have "isolated sample_store" using store_inv_reachable [OF sample_store_reached] by (rule store_invD)
  from successful_query_routes_client [OF run this, of 9 sample_peer] show ?thesis
    unfolding run by (auto simp: sample_client_def sample_peer_def addr_v4_def)
qed

section \<open>Properties: the assignment lock and the demand signal\<close>

text \<open>
  What the assignment lock must allow: it is not taken twice, snapshots, label writes and routes
  happen while it is held, a snapshot comes first, the startup signal is sent and awaited while it is not.
\<close>

definition begins_with_list :: "query_effect list \<Rightarrow> bool" where
  "begins_with_list es \<longleftrightarrow> (case es of ListPods _ # _ \<Rightarrow> True | _ \<Rightarrow> False)"

lemma begins_with_list_Cons [simp]: "begins_with_list (ListPods lr # es)"
  by (simp add: begins_with_list_def)

fun lock_ok :: "bool \<Rightarrow> query_effect list \<Rightarrow> bool" where
  "lock_ok held [] = (\<not> held)"
| "lock_ok held (LockAssignments # es) = (\<not> held \<and> begins_with_list es \<and> lock_ok True es)"
| "lock_ok held (UnlockAssignments # es) = (held \<and> lock_ok False es)"
| "lock_ok held (SignalDemand g # es) = (\<not> held \<and> lock_ok held es)"
| "lock_ok held (ListPods lr # es) = (held \<and> lock_ok held es)"
| "lock_ok held (PatchLabel pr # es) = (held \<and> lock_ok held es)"
| "lock_ok held (InstallRoute c ip m # es) = (held \<and> lock_ok held es)"

definition closing :: "bool \<Rightarrow> query_effect list \<Rightarrow> query_effect list" where
  "closing held es = (if fold (\<lambda>e held. case e of
     LockAssignments \<Rightarrow> True | UnlockAssignments \<Rightarrow> False | _ \<Rightarrow> held) es held then [UnlockAssignments] else [])"

lemma closing_simps [simp]:
  "closing True [] = [UnlockAssignments]" "closing False [] = []"
  "closing held (LockAssignments # es) = closing True es"
  "closing held (UnlockAssignments # es) = closing False es"
  "closing held (SignalDemand g # es) = closing held es"
  "closing held (ListPods lr # es) = closing held es"
  "closing held (PatchLabel pr # es) = closing held es"
  "closing held (InstallRoute c ip m # es) = closing held es"
  by (simp_all add: closing_def)

lemma finish_access_shape:
  assumes "finish_access api env character best = (r, es)"
  shows "\<exists>pr c ip m. es \<in> {[], [PatchLabel pr], [InstallRoute c ip m], [PatchLabel pr, InstallRoute c ip m]}"
proof -
  obtain resource p chars where "best = (resource, p, chars)" by (cases best) auto
  with assms have "finish_access api env character (resource, p, chars) = (r, es)" by simp
  then show ?thesis
  proof (cases rule: finish_access_cases)
    case (failed e)
    then show ?thesis by (cases es) (simp, metis insertCI list.set_intros(1))
  next
    case (success name ip ports routes public server es')
    from success(6) show ?thesis by (cases rule: write_label_cases) (auto simp: success(7))
  qed
qed

lemma access_loop_lock:
  assumes wait: "\<And>version r es. cold_wait env version events = (r, es) \<Longrightarrow> lock_ok False (es @ closing False es)"
    and run: "access_loop env signalled api now snapshot events = (r, es)" and q: "ae_character env \<noteq> None"
  shows "lock_ok True (es @ closing True es)"
  using run
proof (cases rule: access_loop_cases)
  case (cold candidates character es' demand)
  then show ?thesis using wait [OF cold(5)] by auto
next
  case (chosen candidates character best)
  then show ?thesis using finish_access_shape [OF chosen(4)] by auto
qed (use q in auto)

lemma cold_wait_lock:
  "ae_character env \<noteq> None \<Longrightarrow> cold_wait env version events = (r, es) \<Longrightarrow>
     lock_ok False (es @ closing False es)"
proof (induction events arbitrary: version r es)
  case (Cons ev events)
  show ?case
  proof (cases ev)
    case (PodsChanged watch now api)
    from Cons.prems(2) [unfolded PodsChanged] show ?thesis
    proof (cases rule: cold_wait_changed)
      case (woken snapshot es')
      have "lock_ok True (es' @ closing True es')"
        by (rule access_loop_lock [OF Cons.IH [OF Cons.prems(1)] woken(3) Cons.prems(1)])
      then show ?thesis by (simp add: woken(4))
    qed auto
  qed (use Cons.prems in \<open>auto simp: lift_def\<close>)
qed (auto simp: lift_def)

lemma drop_guard_closing: "drop_guard (r, es) = (r, es @ closing False es)"
  by (simp add: drop_guard_def holds_lock_def closing_def)

text \<open>
  C5. A query takes its snapshot, chooses, writes the label and installs the route under one hold of
  the assignment lock; it never signals or waits for a server to start while it holds the lock, takes
  a fresh snapshot whenever it takes the lock again, and has released it when it ends.
\<close>

theorem assignment_lock_discipline:
  assumes "process_access qs (Query map_name character friends) client api now events = (r, es)"
  shows "lock_ok False es"
  using assms
proof (cases rule: process_access_env)
  case (env mapping env)
  have q: "ae_character env \<noteq> None" using env(2) by simp
  show ?thesis
  proof (cases "read_snapshot env api")
    case (Inl e)
    then show ?thesis using env(4) q by (auto simp: take_lock_def drop_guard_closing)
  next
    case (Inr snapshot)
    obtain r' es' where loop: "access_loop env False api now snapshot events = (r', es')" by force
    have "lock_ok True (es' @ closing True es')"
      by (rule access_loop_lock [OF cold_wait_lock [OF q] loop q])
    moreover have "es = LockAssignments # ListPods (pods_request env) # es' @ closing True es'"
      using env(4) Inr loop q by (auto simp: take_lock_def drop_guard_closing)
    ultimately show ?thesis by simp
  qed
qed simp

lemma assignment_lock_discipline_witness:
  "lock_ok False [LockAssignments, ListPods sample_list, PatchLabel sample_patch,
       InstallRoute sample_client ''10.0.0.2'' [((7777, Udp), 7777)], UnlockAssignments]"
  by (rule assignment_lock_discipline [OF sample_query])

lemma no_signal_in_finish: "finish_access api env character best = (r, es) \<Longrightarrow> SignalDemand g \<notin> set es"
  using finish_access_shape by fastforce

lemma cold_wait_no_signal:
  "ae_character env \<noteq> None \<Longrightarrow> cold_wait env version events = (r, es) \<Longrightarrow> SignalDemand g \<notin> set es"
proof (induction events arbitrary: version r es)
  case (Cons ev events)
  show ?case
  proof (cases ev)
    case (PodsChanged watch now api)
    from Cons.prems(2) [unfolded PodsChanged] show ?thesis
    proof (cases rule: cold_wait_changed)
      case (woken snapshot es')
      from woken(3) have "SignalDemand g \<notin> set es'"
        by (cases rule: access_loop_cases) (use Cons no_signal_in_finish in auto)
      then show ?thesis by (simp add: woken(4))
    qed auto
  qed (use Cons.prems in \<open>auto simp: lift_def\<close>)
qed (auto simp: lift_def)

text \<open>
  C21. The startup signal is sent only when the snapshot a query starts from has no eligible server,
  only for the configured group of its map, and at most once, however often the query is woken.
\<close>

theorem demand_signalled_once:
  assumes "process_access qs request client api now events = (r, es)"
    and "SignalDemand g \<in> set es"
  shows "\<exists>map_name character friends mapping demand snapshot candidates.
    request = Query map_name character friends
    \<and> server_mapping (qs_config qs) = Some mapping
    \<and> cfg_capacity_demand (qs_config qs) = Some demand \<and> g = demand_group demand map_name
    \<and> (let env = access_env_of qs client request mapping in
        read_snapshot env api = Inr snapshot
        \<and> build_candidates env now (fst snapshot) = Inr candidates
        \<and> eligible_candidates env character candidates = [])
    \<and> count_list es (SignalDemand g) = 1"
  using assms(1)
proof (cases rule: process_access_env)
  case early
  with assms(2) show ?thesis by simp
next
  case (env mapping env)
  show ?thesis
  proof (cases "read_snapshot env api")
    case (Inl e)
    then show ?thesis using env(4) assms(2) by (auto simp: take_lock_def drop_guard_closing closing_def split: if_splits)
  next
    case (Inr snapshot)
    obtain r' es' where loop: "access_loop env False api now snapshot events = (r', es')" by force
    let ?pre = "(if ae_character env = None then [] else [LockAssignments]) @ [ListPods (pods_request env)]"
    obtain post where es: "es = ?pre @ es' @ post" "SignalDemand g \<notin> set post"
      using env(4) Inr loop by (auto simp: take_lock_def drop_guard_closing closing_def split: if_splits)
    then have "SignalDemand g \<in> set es'" using assms(2) by (auto split: if_splits)
    from loop show ?thesis
    proof (cases rule: access_loop_cases)
      case (cold candidates character es2 demand)
      then have no: "SignalDemand g \<notin> set es2" using cold_wait_no_signal [of env] by auto
      then have g: "g = demand_group demand (ae_map env)" using \<open>SignalDemand g \<in> set es'\<close> cold(6) by auto
      obtain map_name friends where request: "request = Query map_name character friends"
        using cold(1) env(2) by (cases request) auto
      have "count_list es (SignalDemand g) = 1"
        using no es(2) by (simp add: es(1) cold(6) g count_list_0_iff)
      then show ?thesis using request env(1,2) cold Inr g by (cases snapshot) (auto simp: Let_def)
    qed (use \<open>SignalDemand g \<in> set es'\<close> no_signal_in_finish in auto)
  qed
qed

text \<open>A query for the full server alone: it signals and waits, and is served when \<open>q\<close> has started.\<close>

definition full_api :: k8s_api where
  "full_api = sample_api\<lparr>api_list := (\<lambda>_. Inr \<lparr>lresp_items =
        [sample_resource ''p'' ''10.0.0.1'' []], lresp_version = Some ''6''\<rparr>)\<rparr>"

lemma full_snapshot: "read_snapshot (sample_env request) full_api =
    Inr ([sample_resource ''p'' ''10.0.0.1'' []], ''6'')"
  by (simp add: sample_env_def read_snapshot_def query_resources_snapshot_def full_api_def sample_api_def
      access_status_def sample_server_def sample_config_defs)

lemma full_candidates: "build_candidates (sample_env request) 5 [sample_resource ''p'' ''10.0.0.1'' []] =
    Inr [(sample_resource ''p'' ''10.0.0.1'' [], sample_pod, [char_used, char_away])]"
  by (simp add: sample_env_def sample_server_def sample_characters sample_ready
      sample_resource_def sample_meta_def)

lemma full_not_eligible: "eligible_candidates (sample_env request) ''z''
    [(sample_resource ''p'' ''10.0.0.1'' [], sample_pod, [char_used, char_away])] = []"
  by (simp add: eligible_candidates_def has_room_def has_character_def sample_env_def sample_server_def
      sample_config_def char_used_def char_away_def)

lemma sample_valid: "valid_access (access_params (Query ''m'' ''z'' [''a'']))"
  by (simp add: valid_access_def valid_character_id_def is_ascii_alphanumeric_def)

lemma sample_query_cold:
  "process_access sample_server (Query ''m'' ''z'' [''a'']) sample_client full_api 5 [ClientLeft] =
     (Inl (DemandFailed Cancelled),
      [LockAssignments, ListPods sample_list, UnlockAssignments, SignalDemand ''m''])"
proof -
  let ?env = "sample_env (Query ''m'' ''z'' [''a''])"
  have "choose_candidate ?env ''z'' [(sample_resource ''p'' ''10.0.0.1'' [], sample_pod, [char_used, char_away])] = None"
    by (simp add: choose_candidate_def full_not_eligible)
  moreover have "start_waiting ?env False = (Inr True, [UnlockAssignments, SignalDemand ''m''])"
    by (simp add: start_waiting_def sample_env_def sample_server_def sample_config_def lift_def demand_group_def)
  ultimately have "access_loop ?env False full_api 5 ([sample_resource ''p'' ''10.0.0.1'' []], ''6'') [ClientLeft] =
      (Inl (DemandFailed Cancelled), [UnlockAssignments, SignalDemand ''m''])"
    by (simp add: access_loop.simps access_round_def full_candidates lift_def sample_env_character
        del: build_candidates.simps)
  moreover have "pods_request ?env = sample_list"
    by (simp add: pods_request_def list_request_of_def label_selector_text_def access_labels_def sample_list_def
        sample_env_def sample_server_def sample_config_defs)
  ultimately show ?thesis
    using full_snapshot [of "Query ''m'' ''z'' [''a'']"] sample_valid
    by (simp add: process_access_def sample_env_def drop_guard_def take_lock_def holds_lock_def)
       (simp add: sample_server_def sample_config_defs)
qed

lemma demand_signalled_once_witness:
  "cfg_capacity_demand (qs_config sample_server) \<noteq> None
   \<and> count_list (snd (process_access sample_server (Query ''m'' ''z'' [''a'']) sample_client full_api 5 [ClientLeft]))
       (SignalDemand ''m'') = 1"
  using demand_signalled_once [OF sample_query_cold, of "''m''"] unfolding sample_query_cold by auto

section \<open>Properties: waiting for a server\<close>

definition fruitless :: "access_env \<Rightarrow> string \<Rightarrow> k8s_api \<Rightarrow> int \<Rightarrow> bool" where
  "fruitless env character api now \<longleftrightarrow>
     (\<exists>resources version candidates. read_snapshot env api = Inr (resources, version) \<and> version \<noteq> []
        \<and> build_candidates env now resources = Inr candidates
        \<and> eligible_candidates env character candidates = [])"

definition wakes :: "kube_error + (kube_error + watch_event) list \<Rightarrow> bool" where
  "wakes watch \<longleftrightarrow> (\<forall>version. version \<noteq> [] \<longrightarrow> wait_for_pod_change version watch = Inr ())"

lemma fruitless_loop:
  assumes "fruitless env character api now" "ae_character env = Some character"
    "cfg_capacity_demand (ae_config env) = Some demand" "read_snapshot env api = Inr snapshot"
  shows "snd snapshot \<noteq> [] \<and> fst (access_loop env signalled api now snapshot events)
    = fst (cold_wait env (snd snapshot) events)"
proof -
  obtain candidates where c: "build_candidates env now (fst snapshot) = Inr candidates" "snd snapshot \<noteq> []"
    "eligible_candidates env character candidates = []"
    using assms(1,4) unfolding fruitless_def by auto
  obtain w es where cw: "cold_wait env (snd snapshot) events = (w, es)" by force
  have "choose_candidate env character candidates = None" using c(3) by (simp add: choose_candidate_def)
  then have "access_round env api now (fst snapshot) = (Inr None, [])"
    using c(1) assms(2) by (simp add: access_round_def lift_def)
  moreover have "fst (start_waiting env signalled) = Inr True"
    using assms(3) by (simp add: start_waiting_def lift_def)
  then obtain es2 where "start_waiting env signalled = (Inr True, es2)" by (cases "start_waiting env signalled") simp
  ultimately show ?thesis using c(2) cw by (simp add: access_loop.simps)
qed

lemma cold_wait_served:
  assumes q: "ae_character env = Some character" "cfg_capacity_demand (ae_config env) = Some demand"
    and d: "decision env character api' now' best" and last: "wakes watch"
  shows "(\<forall>ev\<in>set changes. \<exists>w n a. ev = PodsChanged w n a \<and> wakes w \<and> fruitless env character a n) \<Longrightarrow>
    version \<noteq> [] \<Longrightarrow>
    fst (cold_wait env version (changes @ PodsChanged watch now' api' # rest))
      = fst (finish_access api' env character best)"
proof (induction changes arbitrary: version)
  case Nil
  obtain resources v candidates where s: "read_snapshot env api' = Inr (resources, v)"
    "build_candidates env now' resources = Inr candidates"
    "choose_candidate env character candidates = Some best"
    using d unfolding decision_def by blast
  obtain r es where fin: "finish_access api' env character best = (r, es)" by force
  have "wait_for_pod_change version watch = Inr ()" using last Nil by (simp add: wakes_def)
  then show ?case using s q(1) fin
    by (cases r) (simp_all add: access_loop.simps access_round_def lift_def)
next
  case (Cons ev changes)
  then obtain w n a where ev: "ev = PodsChanged w n a" "wakes w" "fruitless env character a n" by auto
  then obtain snapshot where s: "read_snapshot env a = Inr snapshot" unfolding fruitless_def by blast
  have "wait_for_pod_change version w = Inr ()" using ev(2) Cons.prems(2) by (simp add: wakes_def)
  moreover note fruitless_loop [OF ev(3) q s, of True "changes @ PodsChanged watch now' api' # rest"]
  ultimately show ?case using ev(1) s Cons by simp
qed

text \<open>
  C20. A waiting query is served by the first change that brings an eligible server: after any number
  of changes that bring none, it decides on the snapshot it takes then, without waiting for anything
  that comes later.
\<close>

theorem cold_query_served:
  assumes "server_mapping (qs_config qs) = Some mapping" and "valid_access (access_params request)"
    and "env = access_env_of qs client request mapping" and "ae_character env = Some character"
    and "cfg_capacity_demand (qs_config qs) = Some demand"
    and "fruitless env character api now"
    and "\<forall>ev\<in>set changes. \<exists>w n a. ev = PodsChanged w n a \<and> wakes w \<and> fruitless env character a n"
    and "wakes watch" and "decision env character api' now' best"
  shows "fst (process_access qs request client api now (changes @ PodsChanged watch now' api' # rest))
    = fst (finish_access api' env character best)"
proof -
  let ?events = "changes @ PodsChanged watch now' api' # rest"
  have d: "cfg_capacity_demand (ae_config env) = Some demand" using assms(3,5) by simp
  obtain snapshot where s: "read_snapshot env api = Inr snapshot" using assms(6) unfolding fruitless_def by blast
  note loop = fruitless_loop [OF assms(6,4) d s, of False ?events]
  obtain r es where run: "access_loop env False api now snapshot ?events = (r, es)" by force
  have "r = fst (finish_access api' env character best)"
    using loop run cold_wait_served [OF assms(4) d assms(9,8,7)] by simp
  then show ?thesis
    using assms(1-4) s run
    by (auto simp: process_access_def server_mapping_def drop_guard_def take_lock_def ensure_def Let_def
        split: option.splits if_splits)
qed

lemma cold_query_served_witness:
  "fst (process_access sample_server (Query ''m'' ''z'' [''a'']) sample_client full_api 5
      [PodsChanged (Inr [Inr Bookmark, Inr OtherEvent]) 5 full_api,
       PodsChanged (Inl (ApiError 410)) 5 sample_api, ClientLeft])
    = Inr (Answered (Success ''Allocated'' ''v'' [(''default'', 7777)]))"
proof -
  let ?q = "Query ''m'' ''z'' [''a'']"
  let ?best = "(sample_resource ''q'' ''10.0.0.2'' [], empty_pod, [])"
  have m: "server_mapping (qs_config sample_server) = Some sample_pod_mapping"
    by (simp add: sample_server_def sample_mapping_found)
  have d: "cfg_capacity_demand (qs_config sample_server) = Some \<lparr>cd_endpoint = ''http://demand'',
        cd_backend_groups = [(''tutorial'', ''g'')], cd_boot_timeout_seconds = 300\<rparr>"
    by (simp add: sample_server_def sample_config_def)
  have f: "fruitless (sample_env ?q) ''z'' full_api 5"
    unfolding fruitless_def using full_snapshot full_candidates full_not_eligible by auto
  have w: "wakes (Inr [Inr Bookmark, Inr OtherEvent])" "wakes (Inl (ApiError 410))"
    by (simp_all add: wakes_def wait_for_pod_change_def)
  have b: "decision (sample_env ?q) ''z'' sample_api 5 ?best"
    unfolding decision_def using sample_snapshot sample_candidates sample_choices(1) [OF refl refl refl] by blast
  have changes: "\<forall>ev\<in>set [PodsChanged (Inr [Inr Bookmark, Inr OtherEvent]) 5 full_api].
      \<exists>w n a. ev = PodsChanged w n a \<and> wakes w \<and> fruitless (sample_env ?q) ''z'' a n"
    using w f by simp
  have "ae_character (sample_env ?q) = Some ''z''" by (simp add: sample_env_character)
  from cold_query_served [OF m sample_valid sample_env_def this d f changes w(2) b, of "[ClientLeft]"]
  show ?thesis by (simp add: sample_finish)
qed

section \<open>Properties: character lists, replies and requests\<close>

lemma list_servers_set:
  "list_servers ids cs = Inr servers \<Longrightarrow>
     s \<in> set servers \<longleftrightarrow>
       (\<exists>resource p chars. (resource, p, chars) \<in> set cs \<and> om_uid (pod_metadata p) = Some (cs_server s)
          \<and> cs_characters s = filter (\<lambda>c. ids = [] \<or> ch_id c \<in> set ids) chars \<and> cs_characters s \<noteq> [])"
proof (induction cs arbitrary: servers)
  case (Cons cand cs)
  obtain resource p chars where cand: "cand = (resource, p, chars)" by (cases cand) auto
  let ?kept = "filter (\<lambda>c. ids = [] \<or> ch_id c \<in> set ids) chars"
  show ?case
  proof (cases "?kept = []")
    case True
    then show ?thesis using Cons cand by (auto simp: Let_def)
  next
    case False
    then obtain server rest where "om_uid (pod_metadata p) = Some server" "list_servers ids cs = Inr rest"
      "servers = \<lparr>cs_server = server, cs_characters = ?kept\<rparr> # rest"
      using Cons.prems cand by (auto simp: Let_def result_simps)
    moreover have "s = \<lparr>cs_server = a, cs_characters = b\<rparr> \<longleftrightarrow> cs_server s = a \<and> cs_characters s = b" for a b
      by (cases s) auto
    ultimately show ?thesis using Cons.IH [of rest] False cand
      by (simp del: filter_empty_conv) (metis option.inject prod.inject)
  qed
qed simp

text \<open>
  C31. A character list changes nothing: its only effect is one list request. It is sorted by server
  and names exactly the ready Pods of the snapshot, draining ones included, that show at least one
  character asked for, with exactly those characters.
\<close>

theorem character_list_exact:
  assumes "process_access qs (CharacterList map_name ids) client api now events
      = (Inr (Answered (CharacterListReply servers)), es)"
  shows "\<exists>lr resources version mapping. es = [ListPods lr] \<and> sorted (map cs_server servers)
    \<and> server_mapping (qs_config qs) = Some mapping
    \<and> read_snapshot (access_env_of qs client (CharacterList map_name ids) mapping) api = Inr (resources, version)
    \<and> (\<forall>s. s \<in> set servers \<longleftrightarrow> (\<exists>resource\<in>set resources. \<exists>p.
          qs_decode qs resource = Some p \<and> pod_ready p \<and> om_uid (pod_metadata p) = Some (cs_server s)
          \<and> cs_characters s = filter (\<lambda>c. ids = [] \<or> ch_id c \<in> set ids)
              (characters_on_pod (qs_codecs qs) (qs_config qs) p [] now)
          \<and> cs_characters s \<noteq> []))"
  using assms
proof (cases rule: process_access_env)
  case early
  then show ?thesis by auto
next
  case (env mapping env)
  have none: "ae_character env = None" using env(2) by simp
  obtain snapshot es' where snap: "read_snapshot env api = Inr snapshot"
    and loop: "access_loop env False api now snapshot events = (Inr (Answered (CharacterListReply servers)), es')"
    and es: "es = ListPods (pods_request env) # es' @ closing False es'"
    using env(4) none
    by (cases "read_snapshot env api"; cases "access_loop env False api now (projr (read_snapshot env api)) events")
       (auto simp: take_lock_def drop_guard_closing)
  from loop show ?thesis
  proof (cases rule: access_loop_cases)
    case (listed candidates servers')
    have "s \<in> set servers \<longleftrightarrow> (\<exists>resource\<in>set (fst snapshot). \<exists>p.
          qs_decode qs resource = Some p \<and> pod_ready p \<and> om_uid (pod_metadata p) = Some (cs_server s)
          \<and> cs_characters s = filter (\<lambda>c. ids = [] \<or> ch_id c \<in> set ids)
              (characters_on_pod (qs_codecs qs) (qs_config qs) p [] now)
          \<and> cs_characters s \<noteq> [])" for s
      using list_servers_set [OF listed(4), of s] build_candidates_set [OF listed(3)] listed(5) env(2)
      by (auto simp: Bex_def)
    then show ?thesis using es env(1,2) snap listed(2,5) by (cases snapshot) auto
  qed (use none in auto)
qed

lemma character_list_exact_witness:
  "\<exists>lr. snd (process_access sample_server (CharacterList ''m'' []) sample_client sample_api 5 []) = [ListPods lr]"
proof -
  let ?request = "CharacterList ''m'' []"
  let ?env = "sample_env ?request"
  let ?server = "\<lparr>cs_server = ''u'', cs_characters = [char_used, char_away]\<rparr>"
  have ids: "ae_ids ?env = []" by (simp add: sample_env_def)
  have uid: "om_uid (pod_metadata sample_pod) = Some ''u''" by (simp add: sample_pod_def)
  have "access_loop ?env False sample_api 5
      ([sample_resource ''p'' ''10.0.0.1'' [], sample_resource ''q'' ''10.0.0.2'' []], ''7'') [] =
      (Inr (Answered (CharacterListReply [?server])), [])"
    by (simp add: access_loop.simps access_round_def sample_candidates sample_env_character lift_def
        uid ids del: build_candidates.simps)
  moreover have "valid_access (access_params ?request)"
    by (simp add: valid_access_def valid_character_id_def is_ascii_alphanumeric_def)
  ultimately have run: "process_access sample_server ?request sample_client sample_api 5 [] =
      (Inr (Answered (CharacterListReply [?server])), [ListPods (pods_request ?env)])"
    using sample_snapshot [of ?request]
    by (simp add: process_access_def sample_env_def drop_guard_def take_lock_def holds_lock_def)
       (simp add: sample_server_def sample_config_defs)
  from run character_list_exact [OF run] show ?thesis by simp
qed

lemma finish_access_no_error_reply:
  "finish_access api env character best = (r, es) \<Longrightarrow> r \<noteq> Inr (Answered (ErrorReply text))"
  by (cases best) (auto elim: finish_access_cases)

lemma cold_wait_error_text:
  "cold_wait env version events = (Inr (Answered (ErrorReply text)), es) \<Longrightarrow> text = ''No server available''"
proof (induction events arbitrary: version es)
  case (Cons ev events)
  show ?case
  proof (cases ev)
    case (PodsChanged watch now api)
    from Cons.prems [unfolded PodsChanged] show ?thesis
    proof (cases rule: cold_wait_changed)
      case (woken snapshot es')
      from woken(3) show ?thesis
        by (cases rule: access_loop_cases) (use Cons.IH in \<open>auto dest: finish_access_no_error_reply\<close>)
    qed simp
  qed (use Cons.prems in \<open>auto simp: lift_def\<close>)
qed (simp add: lift_def)

lemma process_access_error_text:
  assumes "process_access qs request client api now events = (Inr (Answered (ErrorReply text)), es)"
  shows "text \<in> {''Invalid map or character ID'', ''No server available''}"
  using assms
proof (cases rule: process_access_env)
  case (env mapping env)
  obtain snapshot es' where "access_loop env False api now snapshot events = (Inr (Answered (ErrorReply text)), es')"
    using env(4)
    by (cases "read_snapshot env api"; cases "access_loop env False api now (projr (read_snapshot env api)) events")
       (auto simp: take_lock_def drop_guard_closing split: if_splits)
  then show ?thesis
    by (cases rule: access_loop_cases) (auto dest: cold_wait_error_text finish_access_no_error_reply)
qed simp

definition known_errors :: "string list" where
  "known_errors =
     [''Invalid map or character ID'', ''No server available'', ''Unable to establish route'',
      ''Unknown backend group'', ''Backend group is under maintenance'', ''Capacity demand unavailable'',
      ''Server startup timed out'']"

text \<open>
  An error reply of a query never carries an internal error: it is one of seven fixed texts; a
  query whose client has left gets no reply at all, and a route that could not be established is
  reported as such whatever went wrong inside.
\<close>

theorem query_errors_opaque:
  assumes "process_query qs request client api now events = (res, es)"
  shows "(\<forall>text. res = Replied (ErrorReply text) \<longrightarrow> text \<in> set known_errors)
    \<and> (fst (process_access qs request client api now events) = Inl (DemandFailed Cancelled) \<longrightarrow> res = NoReply)
    \<and> (\<forall>e. fst (process_access qs request client api now events) = Inl e \<and> e \<noteq> Panic
         \<and> (\<forall>d. e \<noteq> DemandFailed d) \<longrightarrow> res = Replied (ErrorReply ''Unable to establish route''))"
proof -
  obtain r where run: "process_access qs request client api now events = (r, es)"
    using assms by (cases "process_access qs request client api now events") (auto simp: process_query_def)
  have reply: "msg \<in> set known_errors" if r: "r = Inr (Answered (ErrorReply msg))" for msg
    using process_access_error_text [OF run [unfolded r]] by (auto simp: known_errors_def)
  show ?thesis
  proof (cases r)
    case (Inl e)
    show ?thesis
    proof (cases "\<exists>d. e = DemandFailed d")
      case True
      then obtain d where "e = DemandFailed d" by blast
      then show ?thesis using assms run Inl
        by (cases d) (auto simp: process_query_def known_errors_def)
    next
      case False
      then have "res = (if e = Panic then NoReply else Replied (ErrorReply ''Unable to establish route''))"
        using assms run Inl by (cases e) (simp_all add: process_query_def)
      then show ?thesis using run Inl False by (simp add: known_errors_def)
    qed
  next
    case (Inr out)
    then show ?thesis using assms run reply by (cases out) (auto simp: process_query_def)
  qed
qed

lemma query_errors_opaque_witness:
  "fst (process_query sample_server (Query ''m'' ''z'' [''a'']) sample_client full_api 5 [ClientLeft]) = NoReply"
  using query_errors_opaque [OF surjective_pairing, of sample_server "Query ''m'' ''z'' [''a'']" sample_client full_api 5 "[ClientLeft]"]
  by (simp add: sample_query_cold)

end
