(* ===== verification/Proxy.thy ===== *)
theory Proxy
  imports LoadBalancer Session
begin

text \<open>
  \<open>src/proxy.rs\<close>: the data proxy. A packet of a client with a session is sent to its route through the
  client's own upstream socket; the first packet of a client without one establishes a route to the
  default endpoint, from the cache or from a query that the load balancer decides. The network is a
  parameter: whether a socket could be bound, a datagram sent, a connection opened.
\<close>

section \<open>State\<close>

record default_endpoint_cache =
  dc_address :: string
  dc_port_mappings :: port_mappings

record data_proxy =
  px_store :: session_store
  px_cache :: "default_endpoint_cache option"
  px_lb :: load_balancer

definition proxy_new :: "config \<Rightarrow> session_store \<Rightarrow> default_endpoint_cache option \<Rightarrow> data_proxy" where
  "proxy_new cfg sessions cache =
     \<lparr>px_store = sessions, px_cache = cache, px_lb = lb_new (lb_strategy (get_load_balancing cfg))\<rparr>"

definition invalidate :: "default_endpoint_cache option \<Rightarrow> default_endpoint_cache option" where
  "invalidate cache = None"

section \<open>The default endpoint\<close>

definition extract_endpoint_target_multi_port ::
  "config \<Rightarrow> dynamic_object \<Rightarrow> resource_mapping \<Rightarrow> error + (string \<times> port_mappings)" where
  "extract_endpoint_target_multi_port cfg resource mapping =
     and_then (ok_or AddressPathRequired (rm_address_path mapping)) (\<lambda>address_path.
     and_then (extract_address resource address_path (rm_address_type mapping)) (\<lambda>address.
       case rm_ports mapping of
         Some port_mappings_config \<Rightarrow>
           and_then (extract_ports resource port_mappings_config) (\<lambda>ports_map.
             Inr (address, fold (\<lambda>p m. case hm_get ports_map (dp_name p) of
                 Some target \<Rightarrow> hm_insert (dp_port p, dp_protocol p) target m | None \<Rightarrow> m)
               (get_data_ports cfg) []))
       | None \<Rightarrow>
           and_then (extract_port resource (rm_port_path mapping) (rm_port_name mapping)) (\<lambda>port.
             Inr (address, fold (\<lambda>p. hm_insert (dp_port p, dp_protocol p) port) (get_data_ports cfg) []))))"

text \<open>The single-port helpers, which no handler calls at present.\<close>

definition extract_direct_endpoint ::
  "dynamic_object \<Rightarrow> resource_mapping \<Rightarrow> string \<Rightarrow> error + (string \<times> u16)" where
  "extract_direct_endpoint resource mapping address_path =
     and_then (extract_address resource address_path (rm_address_type mapping)) (\<lambda>address.
     and_then (extract_port resource (rm_port_path mapping) (rm_port_name mapping)) (\<lambda>port.
       Inr (address, port)))"

definition extract_service_endpoint ::
  "k8s_api \<Rightarrow> dynamic_object \<Rightarrow> resource_mapping \<Rightarrow> string \<Rightarrow> error + (string \<times> u16)" where
  "extract_service_endpoint api resource mapping namespace =
     (let resource_name = (case om_name (do_metadata resource) of None \<Rightarrow> ''unknown'' | Some n \<Rightarrow> n) in
      and_then (ok_or SelectorLabelRequired (rm_service_selector_label mapping)) (\<lambda>service_selector.
      and_then (ok_or TargetPortNameRequired (rm_service_target_port_name mapping)) (\<lambda>service_port_name.
      and_then (find_service_for_resource api namespace resource_name service_selector service_port_name)
        (\<lambda>found. ok_or NoService found))))"

definition extract_endpoint_target ::
  "k8s_api \<Rightarrow> dynamic_object \<Rightarrow> resource_mapping \<Rightarrow> string \<Rightarrow> error + (string \<times> u16)" where
  "extract_endpoint_target api resource mapping namespace =
     (case rm_address_path mapping of
        Some address_path \<Rightarrow> extract_direct_endpoint resource mapping address_path
      | None \<Rightarrow> extract_service_endpoint api resource mapping namespace)"

definition endpoint_status :: "default_endpoint \<Rightarrow> status_query option" where
  "endpoint_status de =
     map_option (\<lambda>s. \<lparr>json_path = sq_json_path s, expected_values = sq_expected_values s\<rparr>) (de_status_query de)"

definition endpoint_resources :: "k8s_api \<Rightarrow> default_endpoint \<Rightarrow> resource_mapping \<Rightarrow> error + dynamic_object list" where
  "endpoint_resources api de mapping =
     query_resources api (de_namespace de) mapping (endpoint_status de)
       (de_label_selector de) (de_annotation_selector de)"

definition query_default_endpoint ::
  "config \<Rightarrow> k8s_api \<Rightarrow> load_balancer \<Rightarrow> error + (string \<times> port_mappings)" where
  "query_default_endpoint cfg api lb =
     (let de = get_default_endpoint cfg in
      and_then (ok_or (UnknownResourceType (de_resource_type de))
        (hm_get (cfg_resource_query_mapping cfg) (de_resource_type de))) (\<lambda>mapping.
      and_then (endpoint_resources api de mapping) (\<lambda>resources.
      and_then (ensure (resources \<noteq> []) NoDefaultResources) (\<lambda>_.
      and_then (ok_or AddressPathRequired (rm_address_path mapping)) (\<lambda>address_path.
      and_then (select_backend lb resources address_path (rm_address_type mapping)) (\<lambda>selected.
        extract_endpoint_target_multi_port cfg selected mapping))))))"

text \<open>The route a client without a session gets, and the cache afterwards.\<close>

definition default_route ::
  "config \<Rightarrow> k8s_api \<Rightarrow> load_balancer \<Rightarrow> u16 \<Rightarrow> protocol \<Rightarrow> default_endpoint_cache option
   \<Rightarrow> (error + (string \<times> port_mappings)) \<times> default_endpoint_cache option" where
  "default_route cfg api lb proxy_port protocol cache =
     (let supported = (\<lambda>(address, mappings).
        if hm_get mappings (proxy_port, protocol) \<noteq> None then Inr (address, mappings)
        else Inl (PortUnsupported proxy_port)) in
      case cache of
        Some c \<Rightarrow>
          if hm_get (dc_port_mappings c) (proxy_port, protocol) \<noteq> None
          then (Inr (dc_address c, dc_port_mappings c), cache)
          else (and_then (query_default_endpoint cfg api lb) supported, cache)
      | None \<Rightarrow>
          (case query_default_endpoint cfg api lb of
             Inl e \<Rightarrow> (Inl e, cache)
           | Inr (address, mappings) \<Rightarrow>
               (supported (address, mappings),
                Some \<lparr>dc_address = address, dc_port_mappings = mappings\<rparr>)))"

definition establish_default_session ::
  "config \<Rightarrow> k8s_api \<Rightarrow> nat \<Rightarrow> socket_addr \<Rightarrow> u16 \<Rightarrow> protocol \<Rightarrow> data_proxy \<Rightarrow> (error + unit) \<times> data_proxy" where
  "establish_default_session cfg api now client proxy_port protocol px =
     (case default_route cfg api (px_lb px) proxy_port protocol (px_cache px) of
        (Inl e, cache) \<Rightarrow> (Inl e, px\<lparr>px_cache := cache\<rparr>)
      | (Inr (target_ip, port_mappings), cache) \<Rightarrow>
          (Inr (), \<lparr>px_store = upsert_multi_port now client target_ip port_mappings (px_store px),
                    px_cache = cache, px_lb = increment_session target_ip (px_lb px)\<rparr>))"

section \<open>Forwarding\<close>

text \<open>What the handlers send: a datagram from an upstream socket, or a TCP connection that is spliced.\<close>

datatype outgoing = Datagram sock_id socket_addr "u8 list" | Connection socket_addr socket_addr

record network =
  nw_bound :: bool
  nw_sent :: bool
  nw_connected :: bool

definition proxy_packet_bidirectional ::
  "network \<Rightarrow> socket_addr \<Rightarrow> u8 list \<Rightarrow> u16 \<Rightarrow> session_store \<Rightarrow> (error + unit) \<times> outgoing list \<times> session_store" where
  "proxy_packet_bidirectional nw client packet_data proxy_port st =
     (case get_mut_by_addr st client of
        None \<Rightarrow> (Inl SessionNotFound, [], st)
      | Some (key, session) \<Rightarrow>
          (case get_target_addr session proxy_port Udp of
             Inl e \<Rightarrow> (Inl e, [], st)
           | Inr target_addr \<Rightarrow>
               (case get_or_create_udp_socket (nw_bound nw) proxy_port client session (st_sockets st) of
                  Inl e \<Rightarrow> (Inl e, [], st)
                | Inr (sid, session', socks) \<Rightarrow>
                    (if nw_sent nw then Inr () else Inl IoError,
                     if nw_sent nw then [Datagram sid target_addr packet_data] else [],
                     put_session key session' (st\<lparr>st_sockets := socks\<rparr>)))))"

definition handle_first_packet ::
  "config \<Rightarrow> k8s_api \<Rightarrow> network \<Rightarrow> nat \<Rightarrow> socket_addr \<Rightarrow> u8 list \<Rightarrow> u16 \<Rightarrow> data_proxy
   \<Rightarrow> (error + unit) \<times> outgoing list \<times> data_proxy" where
  "handle_first_packet cfg api nw now client packet_data proxy_port px =
     (case establish_default_session cfg api now client proxy_port Udp px of
        (Inl e, px') \<Rightarrow> (Inl e, [], px')
      | (Inr _, px') \<Rightarrow>
          (case proxy_packet_bidirectional nw client packet_data proxy_port (px_store px') of
             (r, out, st) \<Rightarrow> (r, out, px'\<lparr>px_store := st\<rparr>)))"

definition handle_udp_data_packet ::
  "config \<Rightarrow> k8s_api \<Rightarrow> network \<Rightarrow> nat \<Rightarrow> socket_addr \<Rightarrow> u8 list \<Rightarrow> u16 \<Rightarrow> data_proxy
   \<Rightarrow> (error + unit) \<times> outgoing list \<times> data_proxy" where
  "handle_udp_data_packet cfg api nw now client packet_data proxy_port px =
     (if get_by_addr (px_store px) client \<noteq> None
      then (case proxy_packet_bidirectional nw client packet_data proxy_port (px_store px) of
          (Inl e, out, st) \<Rightarrow> (Inl e, out, px\<lparr>px_store := st\<rparr>)
        | (Inr _, out, st) \<Rightarrow> (Inr (), out, px\<lparr>px_store := touch_by_addr now client st\<rparr>))
      else handle_first_packet cfg api nw now client packet_data proxy_port px)"

text \<open>
  A TCP connection; \<open>closed\<close> is the time the copying ends, and the session is touched only then.
\<close>

definition handle_tcp_connection ::
  "config \<Rightarrow> k8s_api \<Rightarrow> network \<Rightarrow> nat \<Rightarrow> nat \<Rightarrow> socket_addr \<Rightarrow> u16 \<Rightarrow> data_proxy
   \<Rightarrow> (error + unit) \<times> outgoing list \<times> data_proxy" where
  "handle_tcp_connection cfg api nw now closed client proxy_port px =
     (case (if get_by_addr (px_store px) client = None
            then establish_default_session cfg api now client proxy_port Tcp px
            else (Inr (), px)) of
        (Inl e, px') \<Rightarrow> (Inl e, [], px')
      | (Inr _, px') \<Rightarrow>
          (case get_by_addr (px_store px') client of
             None \<Rightarrow> (Inl SessionNotEstablished, [], px')
           | Some session \<Rightarrow>
               (case get_target_addr session proxy_port Tcp of
                  Inl e \<Rightarrow> (Inl e, [], px')
                | Inr target_addr \<Rightarrow>
                    if nw_connected nw
                    then (Inr (), [Connection client target_addr],
                          px'\<lparr>px_store := touch_by_addr closed client (px_store px')\<rparr>)
                    else (Inl IoError, [], px'))))"

section \<open>Facts\<close>

lemma upsert_route:
  "isolated st \<Longrightarrow> route_of (upsert_multi_port now client ip m st) client = Some (ip, m)"
  using routes.route_install [where s = st and a = client and r = "(ip, m)" and now = now and b = client] by simp

lemma route_session:
  "isolated st \<Longrightarrow> route_of st client = Some (ip, m) \<longleftrightarrow>
     (\<exists>s. sm_get st (sa_ip client) = Some s \<and> s_target_ip s = ip \<and> s_port_mappings s = m)"
  by (auto simp: route_of_def get_by_addr_inv)

text \<open>Forwarding with a route, and the only ways it fails.\<close>

lemma proxy_packet_route:
  assumes iso: "isolated st" and s: "sm_get st (sa_ip client) = Some s"
    and target: "get_target_addr s proxy_port Udp = Inr target"
    and net: "nw_bound nw" "nw_sent nw"
  shows "\<exists>sid st'. proxy_packet_bidirectional nw client bytes proxy_port st
      = (Inr (), [Datagram sid target bytes], st')
    \<and> refers st' (sa_ip client) (proxy_port, sa_port client) sid \<and> isolated st'
    \<and> (no_leak st \<longrightarrow> no_leak st') \<and> (\<forall>addr. route_of st' addr = route_of st addr)
    \<and> (\<forall>ip pk i. refers st ip pk i \<longrightarrow> refers st' ip pk i)
    \<and> (\<forall>i. refers st (sa_ip client) (proxy_port, sa_port client) i \<longrightarrow> sid = i)"
proof -
  have mut: "get_mut_by_addr st client = Some (LegacyIp (sa_ip client), s)"
    by (simp add: get_mut_by_addr_inv [OF iso] s)
  obtain sid s' socks where create:
    "get_or_create_udp_socket (nw_bound nw) proxy_port client s (st_sockets st) = Inr (sid, s', socks)"
    using net(1) by (cases "hm_get (s_udp_sockets s) (proxy_port, sa_port client)")
      (auto simp: get_or_create_udp_socket_def socket_new_def)
  let ?st' = "put_session (LegacyIp (sa_ip client)) s' (st\<lparr>st_sockets := socks\<rparr>)"
  note iso' = isolated_create [OF iso s create]
  have s': "s_target_ip s' = s_target_ip s" "s_port_mappings s' = s_port_mappings s"
    "hm_get (s_udp_sockets s') (proxy_port, sa_port client) = Some sid"
    "\<And>pk i. hm_get (s_udp_sockets s) pk = Some i \<Longrightarrow> hm_get (s_udp_sockets s') pk = Some i"
    using create by (cases rule: get_or_create_cases; force)+
  have "\<forall>addr. route_of ?st' addr = route_of st addr"
    using s s' by (auto simp: route_of_def get_by_addr_inv iso iso')
  moreover have "refers ?st' (sa_ip client) (proxy_port, sa_port client) sid"
    using s'(3) by (simp add: refers_def)
  moreover have "\<forall>ip pk i. refers st ip pk i \<longrightarrow> refers ?st' ip pk i"
    using s s'(4) by (auto simp: refers_def)
  moreover have "\<forall>i. refers st (sa_ip client) (proxy_port, sa_port client) i \<longrightarrow> sid = i"
    using s s'(3,4) by (auto simp: refers_def)
  moreover have "proxy_packet_bidirectional nw client bytes proxy_port st
      = (Inr (), [Datagram sid target bytes], ?st')"
    using mut target create net(2) by (simp add: proxy_packet_bidirectional_def)
  ultimately show ?thesis using iso' no_leak_create [OF _ s create] by blast
qed

lemma default_route_cases:
  assumes "default_route cfg api lb proxy_port protocol cache = (r, cache')"
  obtains (ok) ip m where "r = Inr (ip, m)" "hm_get m (proxy_port, protocol) \<noteq> None"
  | (failed) e where "r = Inl e"
proof (cases r)
  case (Inr route)
  then obtain ip m where r: "r = Inr (ip, m)" by (cases route) auto
  then have "hm_get m (proxy_port, protocol) \<noteq> None"
    using assms
    by (auto simp: default_route_def Let_def result_simps split: option.splits if_splits sum.splits prod.splits)
  with r show thesis by (rule ok)
qed (rule failed)

text \<open>The address a route and a mapped port stand for, and what it is for the two families.\<close>

abbreviation upstream_addr :: "string \<Rightarrow> u16 \<Rightarrow> socket_addr option" where
  "upstream_addr ip port \<equiv> parse_socket_addr (ip @ '':'' @ show_nat (unat port))"

lemma upstream_ipv4: "upstream_addr (show_ipv4 a b c d) port = Some (addr_v4 a b c d port)"
  by (simp add: parse_show_socket_addr [simplified])

lemma upstream_bare_ipv6: "CHR '':'' \<in> set ip \<Longrightarrow> hd ip \<noteq> CHR ''['' \<Longrightarrow> upstream_addr ip port = None"
  by (simp add: parse_socket_addr_bare_colon [simplified])

text \<open>A packet of a client with a session, whose target address parses and whose does not.\<close>

lemma udp_packet_forwarded:
  assumes iso: "isolated (px_store px)" and s: "sm_get (px_store px) (sa_ip client) = Some s"
    and target: "get_target_addr s proxy_port Udp = Inr target"
    and net: "nw_bound nw" "nw_sent nw"
  shows "\<exists>sid px'. handle_udp_data_packet cfg api nw now client bytes proxy_port px
      = (Inr (), [Datagram sid target bytes], px')
    \<and> (\<exists>reply_to. receive_turn (st_sockets (px_store px')) sid (Received reply) = TaskForwards reply_to reply
        \<and> sa_ip reply_to = sa_ip client \<and> sa_port reply_to = sa_port client)
    \<and> (case hm_get (s_udp_sockets s) (proxy_port, sa_port client) of
         Some i \<Rightarrow> sid = i \<and> st_sockets (px_store px') = st_sockets (px_store px)
       | None \<Rightarrow> sid = length (st_sockets (px_store px))
           \<and> st_sockets (px_store px') = st_sockets (px_store px)
               @ [\<lparr>sk_client = client, sk_proxy_port = proxy_port, sk_shutdown = False\<rparr>])
    \<and> (\<exists>s'. sm_get (px_store px') (sa_ip client) = Some s'
         \<and> s' = s\<lparr>s_last_activity := now, s_udp_sockets := s_udp_sockets s'\<rparr>
         \<and> (\<forall>pk. hm_get (s_udp_sockets s') pk
              = (if pk = (proxy_port, sa_port client) then Some sid else hm_get (s_udp_sockets s) pk)))
    \<and> (\<forall>ip. ip \<noteq> sa_ip client \<longrightarrow> sm_get (px_store px') ip = sm_get (px_store px) ip)
    \<and> isolated (px_store px') \<and> px_cache px' = px_cache px \<and> px_lb px' = px_lb px"
proof -
  obtain sid s' socks where create:
    "get_or_create_udp_socket (nw_bound nw) proxy_port client s (st_sockets (px_store px)) = Inr (sid, s', socks)"
    using net(1) by (cases "hm_get (s_udp_sockets s) (proxy_port, sa_port client)")
      (auto simp: get_or_create_udp_socket_def socket_new_def)
  let ?st' = "put_session (LegacyIp (sa_ip client)) s' ((px_store px)\<lparr>st_sockets := socks\<rparr>)"
  let ?px' = "px\<lparr>px_store := touch_by_addr now client ?st'\<rparr>"
  note iso' = isolated_create [OF iso s create]
  have iso2: "isolated (touch_by_addr now client ?st')" by (rule isolated_touch [OF iso'])
  have s': "hm_get (s_udp_sockets s') pk
      = (if pk = (proxy_port, sa_port client) then Some sid else hm_get (s_udp_sockets s) pk)" for pk
    using create by (cases rule: get_or_create_cases) auto
  have same: "s' = s\<lparr>s_udp_sockets := s_udp_sockets s'\<rparr>"
    using create by (cases rule: get_or_create_cases) auto
  have get: "sm_get (px_store ?px') ip
      = (if ip = sa_ip client then Some (session_touch now s') else sm_get (px_store px) ip)" for ip
    by (simp add: sm_get_touch [OF iso'])
  have socks: "st_sockets (px_store ?px') = socks"
    by (simp add: touch_by_addr_ip [OF iso'] sm_touch_def)
  have "refers (px_store ?px') (sa_ip client) (proxy_port, sa_port client) sid"
    unfolding refers_def by (simp add: sm_get_touch [OF iso'] session_touch_def s')
  note D = isolatedD(4,5) [OF iso2 this [simplified]]
  have "\<exists>reply_to. receive_turn (st_sockets (px_store ?px')) sid (Received reply) = TaskForwards reply_to reply
        \<and> sa_ip reply_to = sa_ip client \<and> sa_port reply_to = sa_port client"
    using D by (simp add: receive_turn_def live_def serves_def)
  moreover have "case hm_get (s_udp_sockets s) (proxy_port, sa_port client) of
         Some i \<Rightarrow> sid = i \<and> st_sockets (px_store ?px') = st_sockets (px_store px)
       | None \<Rightarrow> sid = length (st_sockets (px_store px))
           \<and> st_sockets (px_store ?px') = st_sockets (px_store px)
               @ [\<lparr>sk_client = client, sk_proxy_port = proxy_port, sk_shutdown = False\<rparr>]"
    unfolding socks using create by (cases rule: get_or_create_cases) auto
  moreover have "handle_udp_data_packet cfg api nw now client bytes proxy_port px
      = (Inr (), [Datagram sid target bytes], ?px')"
    using net(2) by (simp add: handle_udp_data_packet_def get_by_addr_inv [OF iso] s proxy_packet_bidirectional_def
        get_mut_by_addr_inv [OF iso] target create)
  moreover have "session_touch now s' = s\<lparr>s_last_activity := now, s_udp_sockets := s_udp_sockets (session_touch now s')\<rparr>"
    by (subst same) (simp add: session_touch_def)
  then have "\<exists>s''. sm_get (px_store ?px') (sa_ip client) = Some s''
      \<and> s'' = s\<lparr>s_last_activity := now, s_udp_sockets := s_udp_sockets s''\<rparr>
      \<and> (\<forall>pk. hm_get (s_udp_sockets s'') pk
           = (if pk = (proxy_port, sa_port client) then Some sid else hm_get (s_udp_sockets s) pk))"
    using get [of "sa_ip client"] s' by (intro exI [of _ "session_touch now s'"]) (simp add: session_touch_def)
  moreover have "\<forall>ip. ip \<noteq> sa_ip client \<longrightarrow> sm_get (px_store ?px') ip = sm_get (px_store px) ip"
    using get by simp
  moreover have "isolated (px_store ?px')" "px_cache ?px' = px_cache px" "px_lb ?px' = px_lb px"
    using iso2 by simp_all
  ultimately show ?thesis by blast
qed

lemma udp_packet_unparsed:
  assumes iso: "isolated (px_store px)" and s: "sm_get (px_store px) (sa_ip client) = Some s"
    and target: "get_target_addr s proxy_port Udp = Inl e"
  shows "handle_udp_data_packet cfg api nw now client bytes proxy_port px = (Inl e, [], px)"
  by (simp add: handle_udp_data_packet_def get_by_addr_inv [OF iso] s proxy_packet_bidirectional_def
        get_mut_by_addr_inv [OF iso] target)

lemma route_target:
  assumes "isolated st" and "route_of st client = Some (ip, m)" and "hm_get m (proxy_port, Udp) = Some target_port"
  obtains s where "sm_get st (sa_ip client) = Some s" "s_target_ip s = ip" "s_port_mappings s = m"
    "get_target_addr s proxy_port Udp = (case upstream_addr ip target_port of
        Some target \<Rightarrow> Inr target | None \<Rightarrow> Inl (InvalidSocketAddr (ip @ '':'' @ show_nat (unat target_port))))"
proof -
  obtain s where s: "sm_get st (sa_ip client) = Some s" "s_target_ip s = ip" "s_port_mappings s = m"
    using assms(2) by (auto simp: route_session [OF assms(1)])
  then show thesis using assms(3)
    by (intro that [of s]) (simp_all add: get_target_addr_def Let_def split: option.splits)
qed

lemma udp_packet_routed:
  assumes iso: "isolated (px_store px)"
    and route: "route_of (px_store px) client = Some (ip, m)"
    and port: "hm_get m (proxy_port, Udp) = Some target_port"
    and net: "nw_bound nw" "nw_sent nw" and target: "upstream_addr ip target_port = Some target"
  shows "\<exists>sid px'. handle_udp_data_packet cfg api nw now client bytes proxy_port px
      = (Inr (), [Datagram sid target bytes], px')
    \<and> (\<exists>reply_to. receive_turn (st_sockets (px_store px')) sid (Received reply) = TaskForwards reply_to reply
        \<and> sa_ip reply_to = sa_ip client \<and> sa_port reply_to = sa_port client)"
proof -
  obtain s where s: "sm_get (px_store px) (sa_ip client) = Some s"
      "get_target_addr s proxy_port Udp = Inr target"
    by (rule route_target [OF iso route port], rule that, assumption, simp only: target option.case)
  from udp_packet_forwarded [OF iso s net] show ?thesis by blast
qed

lemma udp_packet_dropped:
  assumes iso: "isolated (px_store px)"
    and route: "route_of (px_store px) client = Some (ip, m)"
    and port: "hm_get m (proxy_port, Udp) = Some target_port"
    and target: "upstream_addr ip target_port = None"
  shows "handle_udp_data_packet cfg api nw now client bytes proxy_port px
      = (Inl (InvalidSocketAddr (ip @ '':'' @ show_nat (unat target_port))), [], px)"
  by (rule route_target [OF iso route port], rule udp_packet_unparsed [OF iso], assumption, simp only: target option.case)

section \<open>Properties\<close>

text \<open>
  C15. A UDP packet of a client with a route that maps its port, when the system lets the upstream
  socket be bound and the datagram be sent: if the route's address followed by the mapped port
  parses, the packet is forwarded exactly once, unchanged, to that address, from the socket kept for
  the client's port, whose replies go to the client's IP and port. The client's session is marked
  active and gains at most the entry of a new socket; no other session, no route, no existing
  socket, no cache entry and no session count changes. If it does not parse, the packet is an error,
  nothing is sent and nothing changes. An IPv4 address always parses, to itself; an IPv6 address
  without brackets never does.
\<close>

theorem udp_packet_follows_route:
  assumes iso: "isolated (px_store px)"
    and route: "route_of (px_store px) client = Some (ip, m)"
    and port: "hm_get m (proxy_port, Udp) = Some target_port"
    and net: "nw_bound nw" "nw_sent nw"
  shows "\<exists>s. sm_get (px_store px) (sa_ip client) = Some s \<and> s_target_ip s = ip \<and> s_port_mappings s = m
    \<and> (case upstream_addr ip target_port of
         None \<Rightarrow> handle_udp_data_packet cfg api nw now client bytes proxy_port px
             = (Inl (InvalidSocketAddr (ip @ '':'' @ show_nat (unat target_port))), [], px)
       | Some target \<Rightarrow> (\<exists>sid px'. handle_udp_data_packet cfg api nw now client bytes proxy_port px
             = (Inr (), [Datagram sid target bytes], px')
           \<and> (\<exists>reply_to. receive_turn (st_sockets (px_store px')) sid (Received reply) = TaskForwards reply_to reply
               \<and> sa_ip reply_to = sa_ip client \<and> sa_port reply_to = sa_port client)
           \<and> (case hm_get (s_udp_sockets s) (proxy_port, sa_port client) of
                Some i \<Rightarrow> sid = i \<and> st_sockets (px_store px') = st_sockets (px_store px)
              | None \<Rightarrow> sid = length (st_sockets (px_store px))
                  \<and> st_sockets (px_store px') = st_sockets (px_store px)
                      @ [\<lparr>sk_client = client, sk_proxy_port = proxy_port, sk_shutdown = False\<rparr>])
           \<and> (\<exists>s'. sm_get (px_store px') (sa_ip client) = Some s'
                \<and> s' = s\<lparr>s_last_activity := now, s_udp_sockets := s_udp_sockets s'\<rparr>
                \<and> (\<forall>pk. hm_get (s_udp_sockets s') pk
                     = (if pk = (proxy_port, sa_port client) then Some sid else hm_get (s_udp_sockets s) pk)))
           \<and> (\<forall>other. other \<noteq> sa_ip client \<longrightarrow> sm_get (px_store px') other = sm_get (px_store px) other)
           \<and> isolated (px_store px') \<and> px_cache px' = px_cache px \<and> px_lb px' = px_lb px))
    \<and> (\<forall>a b c d. ip = show_ipv4 a b c d \<longrightarrow> upstream_addr ip target_port = Some (addr_v4 a b c d target_port))
    \<and> (CHR '':'' \<in> set ip \<and> hd ip \<noteq> CHR ''['' \<longrightarrow> upstream_addr ip target_port = None)"
proof -
  obtain s where s: "sm_get (px_store px) (sa_ip client) = Some s" "s_target_ip s = ip" "s_port_mappings s = m"
    and t: "get_target_addr s proxy_port Udp = (case upstream_addr ip target_port of
        Some target \<Rightarrow> Inr target | None \<Rightarrow> Inl (InvalidSocketAddr (ip @ '':'' @ show_nat (unat target_port))))"
    by (rule route_target [OF iso route port])
  show ?thesis
  proof (intro exI [of _ s] conjI s, goal_cases)
    case 1
    show ?case
    proof (cases "upstream_addr ip target_port")
      case None
      with t have "get_target_addr s proxy_port Udp = Inl (InvalidSocketAddr (ip @ '':'' @ show_nat (unat target_port)))"
        by simp
      from udp_packet_unparsed [OF iso s(1) this] None show ?thesis by (simp only: option.case)
    next
      case (Some target)
      with t have "get_target_addr s proxy_port Udp = Inr target" by simp
      from udp_packet_forwarded [OF iso s(1) this net] Some show ?thesis by (simp only: option.case)
    qed
  next
    case 2
    show ?case by (intro allI impI, elim ssubst, rule upstream_ipv4)
  next
    case 3
    show ?case by (intro impI upstream_bare_ipv6; elim conjE)
  qed
qed

definition sample_network :: network where
  "sample_network = \<lparr>nw_bound = True, nw_sent = True, nw_connected = True\<rparr>"

text \<open>An API server with one backend of capacity one.\<close>

definition endpoint_api :: k8s_api where
  "endpoint_api =
     \<lparr>api_list = (\<lambda>_. Inr \<lparr>lresp_items = [sample_resource ''b'' ''10.0.0.1'' [(''max'', ''1'')]], lresp_version = None\<rparr>),
      api_services = (\<lambda>_. Inr []), api_patch = (\<lambda>_. Inr ())\<rparr>"

definition routed_proxy :: data_proxy where
  "routed_proxy = \<lparr>px_store = sample_store\<lparr>st_sessions := [(LegacyIp (IPv4 192 0 2 1),
        \<lparr>s_target_ip = show_ipv4 10 0 0 1, s_port_mappings = sample_ports, s_last_activity = 0,
         s_udp_sockets = [((7777, 5000), 0)]\<rparr>)]\<rparr>, px_cache = None, px_lb = lb_new LeastSessions\<rparr>"

lemma show_ipv4_sample: "show_ipv4 10 0 0 1 = ''10.0.0.1''"
  by code_simp

lemma routed_proxy_isolated: "isolated (px_store routed_proxy)"
proof -
  have "px_store routed_proxy = sample_store" by (simp add: routed_proxy_def show_ipv4_sample sample_store_def)
  then show ?thesis using store_inv_reachable [OF sample_store_reached] store_invD(1) by simp
qed

lemma udp_packet_follows_route_witness:
  "\<exists>sid px'. handle_udp_data_packet sample_config endpoint_api sample_network 7 sample_peer [1, 2] 7777 routed_proxy
      = (Inr (), [Datagram sid (addr_v4 10 0 0 1 31000) [1, 2]], px')"
proof -
  have r: "route_of (px_store routed_proxy) sample_peer = Some (show_ipv4 10 0 0 1, sample_ports)"
    by (simp add: route_session [OF routed_proxy_isolated]) (simp add: sm_get_def routed_proxy_def sample_defs)
  have m: "hm_get sample_ports (7777, Udp) = Some 31000" by (simp add: sample_ports_def)
  have n: "nw_bound sample_network" "nw_sent sample_network" by (simp_all add: sample_network_def)
  show ?thesis using udp_packet_follows_route [OF routed_proxy_isolated r m n] 
    by (simp only: upstream_ipv4 option.case) blast
qed

text \<open>
  A UDP packet to a port the client's route does not map is dropped: nothing is sent, no socket
  is created, and the packet does not keep the session alive.
\<close>

theorem unmapped_port_dropped:
  assumes "isolated (px_store px)" and "route_of (px_store px) client = Some (ip, m)"
    and "hm_get m (proxy_port, Udp) = None"
  shows "handle_udp_data_packet cfg api nw now client bytes proxy_port px = (Inl (NoPortMapping proxy_port), [], px)"
proof -
  obtain s where "sm_get (px_store px) (sa_ip client) = Some s" "s_port_mappings s = m"
    using assms(2) by (auto simp: route_session [OF assms(1)])
  then show ?thesis using assms(3)
    by (simp add: handle_udp_data_packet_def get_by_addr_inv [OF assms(1)] proxy_packet_bidirectional_def
        get_mut_by_addr_inv [OF assms(1)] get_target_addr_def)
qed

lemma unmapped_port_dropped_witness:
  "handle_udp_data_packet sample_config endpoint_api sample_network 7 sample_peer [1] 9999 routed_proxy
     = (Inl (NoPortMapping 9999), [], routed_proxy)"
proof -
  have "route_of (px_store routed_proxy) sample_peer = Some (show_ipv4 10 0 0 1, sample_ports)"
    by (simp add: route_session [OF routed_proxy_isolated]) (simp add: sm_get_def routed_proxy_def sample_defs)
  then show ?thesis by (rule unmapped_port_dropped [OF routed_proxy_isolated]) (simp add: sample_ports_def)
qed

text \<open>
  Establishing a default session is all or nothing: on success the client's route supports the
  port, no other client's route changes, and the route's backend, and no other, counts one session
  more; on any failure the session table and the counts stay as they were.
\<close>

theorem default_session_all_or_nothing:
  assumes "isolated (px_store px)"
    and "establish_default_session cfg api now client proxy_port protocol px = (r, px')"
  shows "(r = Inr () \<longrightarrow> (\<exists>ip m. hm_get m (proxy_port, protocol) \<noteq> None
        \<and> route_of (px_store px') addr
            = (if sa_ip client = sa_ip addr then Some (ip, m) else route_of (px_store px) addr)
        \<and> get_session_count (px_lb px') backend
            = (if backend = ip then Suc (get_session_count (px_lb px) backend) else get_session_count (px_lb px) backend)))
    \<and> ((\<exists>e. r = Inl e) \<longrightarrow> px_store px' = px_store px \<and> px_lb px' = px_lb px)"
proof -
  obtain route cache where dr: "default_route cfg api (px_lb px) proxy_port protocol (px_cache px) = (route, cache)"
    by force
  then show ?thesis
  proof (cases rule: default_route_cases)
    case (failed e)
    then show ?thesis using assms(2) dr by (auto simp: establish_default_session_def)
  next
    case (ok ip m)
    then have px': "r = Inr ()" "px' = \<lparr>px_store = upsert_multi_port now client ip m (px_store px),
        px_cache = cache, px_lb = increment_session ip (px_lb px)\<rparr>"
      using assms(2) dr by (auto simp: establish_default_session_def)
    have "route_of (upsert_multi_port now client ip m (px_store px)) addr
        = (if sa_ip client = sa_ip addr then Some (ip, m) else route_of (px_store px) addr)"
      using routes.route_install [OF assms(1), where a = client and r = "(ip, m)" and now = now and b = addr] by simp
    then show ?thesis using px' ok(2) lbc.count_inc [of ip "px_lb px" backend] by auto
  qed
qed

text \<open>A proxy with label arithmetic, on a backend that takes one session.\<close>

definition capacity_config :: config where
  "capacity_config = sample_config\<lparr>cfg_load_balancing := Some \<lparr>lb_strategy = LabelArithmetic ''cur'' ''max'' 0\<rparr>\<rparr>"

definition capacity_proxy :: data_proxy where
  "capacity_proxy = proxy_new capacity_config store_new None"

lemma endpoint_resources_sample:
  "endpoint_resources endpoint_api sample_default_endpoint sample_pod_mapping
     = Inr [sample_resource ''b'' ''10.0.0.1'' [(''max'', ''1'')]]"
  by (simp add: endpoint_resources_def query_resources_def query_resources_snapshot_def endpoint_api_def
      endpoint_status_def sample_default_endpoint_def)

lemma capacity_lookup:
  "get_default_endpoint capacity_config = sample_default_endpoint"
  "hm_get (cfg_resource_query_mapping capacity_config) (de_resource_type sample_default_endpoint) = Some sample_pod_mapping"
  "get_data_ports capacity_config = [\<lparr>dp_port = 7777, dp_protocol = Udp, dp_name = ''default''\<rparr>]"
  by (simp_all add: get_default_endpoint_def capacity_config_def sample_config_def sample_default_endpoint_def
      get_data_ports_def)

lemma capacity_query:
  "query_default_endpoint capacity_config endpoint_api lb =
     and_then (select_backend lb [sample_resource ''b'' ''10.0.0.1'' [(''max'', ''1'')]] ''status.podIP'' None)
       (\<lambda>r. extract_endpoint_target_multi_port capacity_config r sample_pod_mapping)"
  by (simp add: query_default_endpoint_def capacity_lookup endpoint_resources_sample)
     (simp add: sample_pod_mapping_def)

lemma capacity_target:
  "extract_endpoint_target_multi_port capacity_config (sample_resource ''b'' ''10.0.0.1'' labels) sample_pod_mapping
     = Inr (''10.0.0.1'', [((7777, Udp), 7777)])"
  by (simp add: extract_endpoint_target_multi_port_def sample_pod_mapping_def capacity_lookup)

lemma capacity_select:
  "select_backend (lb_new (LabelArithmetic ''cur'' ''max'' 0)) [sample_resource ''b'' ''10.0.0.1'' [(''max'', ''1'')]]
     ''status.podIP'' None = Inr (sample_resource ''b'' ''10.0.0.1'' [(''max'', ''1'')])"
  "select_backend (increment_session ''10.0.0.1'' (lb_new (LabelArithmetic ''cur'' ''max'' 0)))
     [sample_resource ''b'' ''10.0.0.1'' [(''max'', ''1'')]] ''status.podIP'' None = Inl (NoCapacity 1)"
  by (simp_all add: lb_eval increment_session_def)

lemma capacity_proxy_eval:
  "capacity_proxy = \<lparr>px_store = store_new, px_cache = None, px_lb = lb_new (LabelArithmetic ''cur'' ''max'' 0)\<rparr>"
  by (simp add: capacity_proxy_def proxy_new_def get_load_balancing_def capacity_config_def)

text \<open>
  Once the default endpoint is cached, a new client gets it whatever the backends report: the
  session is established without asking the API server or the load balancer, and the backend's
  count rises past any capacity.
\<close>

theorem cached_endpoint_bypasses_balancer:
  assumes "px_cache px = Some c" and "hm_get (dc_port_mappings c) (proxy_port, protocol) \<noteq> None"
  shows "establish_default_session cfg api now client proxy_port protocol px
      = establish_default_session cfg' api' now client proxy_port protocol px
    \<and> fst (establish_default_session cfg api now client proxy_port protocol px) = Inr ()
    \<and> px_cache (snd (establish_default_session cfg api now client proxy_port protocol px)) = Some c
    \<and> get_session_count (px_lb (snd (establish_default_session cfg api now client proxy_port protocol px))) (dc_address c)
      = Suc (get_session_count (px_lb px) (dc_address c))"
  using assms lbc.count_inc [of "dc_address c" "px_lb px" "dc_address c"]
  by (simp add: establish_default_session_def default_route_def)

lemma cached_endpoint_bypasses_balancer_witness:
  "(let px1 = snd (establish_default_session capacity_config endpoint_api 0 sample_client 7777 Udp capacity_proxy);
        px2 = snd (establish_default_session capacity_config endpoint_api 1 (addr_v4 192 0 2 9 1) 7777 Udp px1)
    in query_default_endpoint capacity_config endpoint_api (px_lb px1) = Inl (NoCapacity 1)
     \<and> get_session_count (px_lb px2) ''10.0.0.1'' = 2)"
proof -
  let ?px1 = "snd (establish_default_session capacity_config endpoint_api 0 sample_client 7777 Udp capacity_proxy)"
  let ?c = "\<lparr>dc_address = ''10.0.0.1'', dc_port_mappings = [((7777, Udp), 7777)]\<rparr>"
  have px1: "px_cache ?px1 = Some ?c"
    "px_lb ?px1 = increment_session ''10.0.0.1'' (lb_new (LabelArithmetic ''cur'' ''max'' 0))"
    by (simp_all add: establish_default_session_def default_route_def capacity_proxy_eval
        capacity_query capacity_select(1) capacity_target)
  have "hm_get (dc_port_mappings ?c) (7777, Udp) \<noteq> None" by simp
  note hit = cached_endpoint_bypasses_balancer [OF px1(1) this]
  show ?thesis
    using hit px1 capacity_select(2) lbc.count_inc by (simp add: capacity_query) (simp add: get_session_count_def lb_new_def)
qed

lemma default_session_all_or_nothing_witness:
  "\<exists>ip m. route_of (px_store (snd (establish_default_session capacity_config endpoint_api 0 sample_client 7777 Udp
      capacity_proxy))) sample_peer = Some (ip, m) \<and> hm_get m (7777, Udp) \<noteq> None"
proof -
  let ?run = "establish_default_session capacity_config endpoint_api 0 sample_client 7777 Udp capacity_proxy"
  have iso: "isolated (px_store capacity_proxy)"
    using store_inv_new store_invD(1) by (simp add: capacity_proxy_eval)
  have "fst ?run = Inr ()"
    by (simp add: establish_default_session_def default_route_def capacity_proxy_eval
        capacity_query capacity_select(1) capacity_target)
  with default_session_all_or_nothing [OF iso, of capacity_config endpoint_api 0 sample_client 7777 Udp "Inr ()"
      "snd ?run" sample_peer "''10.0.0.1''"]
  show ?thesis by (cases ?run) (auto simp: sample_client_def sample_peer_def addr_v4_def)
qed

lemma put_count:
  "sm_count (put_session k s st) = (if hm_get (st_sessions st) k = None then Suc (sm_count st) else sm_count st)"
  by (simp add: sm_count_def put_session_def hm_insert_length map_of_eq_None_iff)

lemma upsert_count:
  "sm_count (upsert_multi_port now client ip m st) = (if sm_get st (sa_ip client) = None then Suc (sm_count st) else sm_count st)"
proof -
  have "sm_count (upsert_shutdown_old client st) = sm_count st"
    by (auto simp: upsert_shutdown_old_def shutdown_sockets_def put_count sm_get_def split: option.splits)
       (simp add: sm_count_def)
  moreover have "sm_get (upsert_shutdown_old client st) (sa_ip client) = None \<longleftrightarrow> sm_get st (sa_ip client) = None"
    by (simp add: upsert_shutdown_old_get)
  ultimately show ?thesis
    by (simp add: upsert_multi_port_def upsert_insert_def put_count sm_get_def)
qed

text \<open>Forwarding adds and removes no session, whatever the network does.\<close>

lemma proxy_packet_keeps:
  assumes iso: "isolated st" and run: "proxy_packet_bidirectional nw client bytes proxy_port st = (r, out, st')"
  shows "isolated st'" "sm_count st' = sm_count st" "sm_get st' a = None \<longleftrightarrow> sm_get st a = None"
    "no_leak st \<Longrightarrow> no_leak st'"
proof -
  have "st' = st \<or> (\<exists>s sid s' socks. sm_get st (sa_ip client) = Some s
      \<and> get_or_create_udp_socket (nw_bound nw) proxy_port client s (st_sockets st) = Inr (sid, s', socks)
      \<and> st' = put_session (LegacyIp (sa_ip client)) s' (st\<lparr>st_sockets := socks\<rparr>))"
    using run by (auto simp: proxy_packet_bidirectional_def get_mut_by_addr_inv [OF iso]
        split: option.splits sum.splits)
  then consider (same) "st' = st" | (socket) s sid s' socks where "sm_get st (sa_ip client) = Some s"
      "get_or_create_udp_socket (nw_bound nw) proxy_port client s (st_sockets st) = Inr (sid, s', socks)"
      "st' = put_session (LegacyIp (sa_ip client)) s' (st\<lparr>st_sockets := socks\<rparr>)" by blast
  then have "isolated st' \<and> sm_count st' = sm_count st \<and> (sm_get st' a = None \<longleftrightarrow> sm_get st a = None)
      \<and> (no_leak st \<longrightarrow> no_leak st')"
  proof cases
    case socket
    have "hm_get (st_sessions st) (LegacyIp (sa_ip client)) = Some s" using socket(1) by (simp add: sm_get_def)
    then have "sm_count st' = sm_count st" by (simp add: socket(3) put_count) (simp add: sm_count_def)
    with isolated_create [OF iso socket(1,2)] no_leak_create [OF _ socket(1,2)] socket(1,3) show ?thesis by simp
  qed (use iso in simp)
  then show "isolated st'" "sm_count st' = sm_count st" "sm_get st' a = None \<longleftrightarrow> sm_get st a = None"
    "no_leak st \<Longrightarrow> no_leak st'" by blast+
qed

text \<open>
  Packets are handled by concurrent tasks, and a task that found no session establishes one even
  if another has done so since: two first packets of one client leave one session in the table and
  two in its backend's count.
\<close>

theorem concurrent_first_packets_overcount:
  assumes iso: "isolated (px_store px)" and none: "get_by_addr (px_store px) client = None"
    and cache: "px_cache px = Some c" and port: "hm_get (dc_port_mappings c) (proxy_port, Udp) \<noteq> None"
    and px1: "px1 = snd (snd (handle_first_packet cfg api nw now client bytes proxy_port px))"
    and px2: "px2 = snd (snd (handle_first_packet cfg api nw' now' client bytes' proxy_port px1))"
  shows "sm_count (px_store px2) = Suc (sm_count (px_store px))
    \<and> get_session_count (px_lb px2) (dc_address c) = get_session_count (px_lb px) (dc_address c) + 2"
proof -
  have first: "px_cache q' = Some c \<and> isolated (px_store q') \<and> sm_get (px_store q') (sa_ip client) \<noteq> None
      \<and> sm_count (px_store q') = (if sm_get (px_store q) (sa_ip client) = None then Suc (sm_count (px_store q))
          else sm_count (px_store q))
      \<and> get_session_count (px_lb q') (dc_address c) = Suc (get_session_count (px_lb q) (dc_address c))"
    if q: "px_cache q = Some c" "isolated (px_store q)"
      "q' = snd (snd (handle_first_packet cfg api n t client bs proxy_port q))" for q q' n t bs
  proof -
    let ?st = "upsert_multi_port t client (dc_address c) (dc_port_mappings c) (px_store q)"
    have iso: "isolated ?st" by (rule isolated_upsert [OF q(2)])
    obtain r out st where fwd: "proxy_packet_bidirectional n client bs proxy_port ?st = (r, out, st)"
      by (cases "proxy_packet_bidirectional n client bs proxy_port ?st")
    have q': "q' = \<lparr>px_store = st, px_cache = Some c, px_lb = increment_session (dc_address c) (px_lb q)\<rparr>"
      using q(1,3) port fwd by (simp add: handle_first_packet_def establish_default_session_def default_route_def)
    note keeps = proxy_packet_keeps [OF iso fwd]
    show ?thesis using keeps q' upsert_count sm_get_upsert
        lbc.count_inc [of "dc_address c" "px_lb q" "dc_address c"] by simp
  qed
  have "sm_get (px_store px) (sa_ip client) = None" using none by (simp add: get_by_addr_inv [OF iso])
  with first [OF cache iso px1] first [OF _ _ px2] show ?thesis by simp
qed

lemma concurrent_first_packets_overcount_witness:
  "(let px = capacity_proxy\<lparr>px_cache := Some \<lparr>dc_address = ''10.0.0.1'', dc_port_mappings = [((7777, Udp), 7777)]\<rparr>\<rparr>;
        px1 = snd (snd (handle_first_packet capacity_config endpoint_api sample_network 0 sample_client [1] 7777 px));
        px2 = snd (snd (handle_first_packet capacity_config endpoint_api sample_network 0 sample_client [2] 7777 px1))
    in sm_count (px_store px2) = 1 \<and> get_session_count (px_lb px2) ''10.0.0.1'' = 2)"
proof -
  let ?c = "\<lparr>dc_address = ''10.0.0.1'', dc_port_mappings = [((7777, Udp), 7777)]\<rparr>"
  let ?px = "capacity_proxy\<lparr>px_cache := Some ?c\<rparr>"
  have iso: "isolated (px_store ?px)"
    using store_inv_new store_invD(1) by (simp add: capacity_proxy_eval)
  have none: "get_by_addr (px_store ?px) sample_client = None"
    by (simp add: get_by_addr_def sm_get_def capacity_proxy_eval store_new_def)
  have hit: "px_cache ?px = Some ?c" "hm_get (dc_port_mappings ?c) (7777, Udp) \<noteq> None" by simp_all
  have "sm_count (px_store ?px) = 0" "get_session_count (px_lb ?px) ''10.0.0.1'' = 0"
    by (simp_all add: capacity_proxy_eval store_new_def sm_count_def get_session_count_def lb_new_def)
  then show ?thesis
    using concurrent_first_packets_overcount [OF iso none hit refl refl] by (simp add: Let_def)
qed

end
