(* ===== verification/ResourceMonitor.thy ===== *)
theory ResourceMonitor
  imports Proxy
begin

text \<open>
  \<open>src/resource_monitor.rs\<close>: the periodic check of the default endpoint, which compares a text that
  identifies the first matching resource with the text of the last check and invalidates the proxy's
  cache when they differ. The lemmas say exactly when it invalidates, that after a change of the text
  the next session is taken from a fresh query, and which changes the text does not show.
\<close>

section \<open>The check\<close>

definition target_text :: "string \<Rightarrow> string \<Rightarrow> u16 \<Rightarrow> string" where
  "target_text resource_name address port =
     resource_name @ '' ('' @ address @ '':'' @ show_nat (unat port) @ '')''"

text \<open>The text of the first resource; every error of the extraction but a panic is swallowed.\<close>

definition current_target :: "resource_mapping \<Rightarrow> dynamic_object list \<Rightarrow> error + string option" where
  "current_target mapping resources =
     (case resources of
        [] \<Rightarrow> Inr None
      | resource # _ \<Rightarrow>
          let resource_name = (case om_name (do_metadata resource) of None \<Rightarrow> ''unknown'' | Some n \<Rightarrow> n) in
          (case rm_address_path mapping of
             None \<Rightarrow> Inr (Some resource_name)
           | Some address_path \<Rightarrow>
               (case extract_address resource address_path (rm_address_type mapping) of
                  Inl Panic \<Rightarrow> Inl Panic
                | Inl _ \<Rightarrow> Inr (Some resource_name)
                | Inr address \<Rightarrow>
                    (case extract_port resource (rm_port_path mapping) (rm_port_name mapping) of
                       Inl Panic \<Rightarrow> Inl Panic
                     | Inl _ \<Rightarrow> Inr (Some resource_name)
                     | Inr port \<Rightarrow> Inr (Some (target_text resource_name address port))))))"

record monitor =
  mo_last :: "string option"
  mo_cache :: "default_endpoint_cache option"

definition monitor_new :: "default_endpoint_cache option \<Rightarrow> monitor" where
  "monitor_new cache = \<lparr>mo_last = None, mo_cache = cache\<rparr>"

definition compare_target :: "string option \<Rightarrow> monitor \<Rightarrow> monitor" where
  "compare_target current mo =
     (case (mo_last mo, current) of
        (None, None) \<Rightarrow> mo
      | (Some prev, None) \<Rightarrow> \<lparr>mo_last = None, mo_cache = invalidate (mo_cache mo)\<rparr>
      | (None, Some cur) \<Rightarrow> \<lparr>mo_last = current, mo_cache = invalidate (mo_cache mo)\<rparr>
      | (Some prev, Some cur) \<Rightarrow>
          if prev \<noteq> cur then \<lparr>mo_last = current, mo_cache = invalidate (mo_cache mo)\<rparr> else mo)"

definition check_default_endpoint :: "config \<Rightarrow> k8s_api \<Rightarrow> monitor \<Rightarrow> (error + unit) \<times> monitor" where
  "check_default_endpoint cfg api mo =
     (let de = get_default_endpoint cfg in
      case hm_get (cfg_resource_query_mapping cfg) (de_resource_type de) of
        None \<Rightarrow> (Inr (), mo)
      | Some mapping \<Rightarrow>
          (case and_then (endpoint_resources api de mapping) (current_target mapping) of
             Inl e \<Rightarrow> (Inl e, mo)
           | Inr current \<Rightarrow> (Inr (), compare_target current mo)))"

text \<open>The check of the active sessions only counts them.\<close>

definition check_active_sessions :: "session_store \<Rightarrow> nat" where
  "check_active_sessions st = sm_count st"

lemma compare_target_iff:
  "compare_target current mo = (if mo_last mo = current then mo
     else \<lparr>mo_last = current, mo_cache = None\<rparr>)"
  by (auto simp: compare_target_def invalidate_def split: option.splits)

section \<open>Properties\<close>

text \<open>
  A check that reaches the API remembers the text of the first matching resource, keeps the cache
  exactly when that text is the one of the last check, and empties it otherwise, so that the next
  client without a session is routed from a fresh query; a failed check changes nothing.
\<close>

theorem check_invalidates_on_change:
  assumes "hm_get (cfg_resource_query_mapping cfg) (de_resource_type (cfg_default_endpoint cfg)) = Some mapping"
    and "check_default_endpoint cfg api mo = (r, mo')"
  shows "(\<forall>resources current. endpoint_resources api (cfg_default_endpoint cfg) mapping = Inr resources
        \<and> current_target mapping resources = Inr current \<longrightarrow>
        r = Inr () \<and> mo_last mo' = current
        \<and> mo_cache mo' = (if mo_last mo = current then mo_cache mo else None))
    \<and> ((\<exists>e. r = Inl e) \<longrightarrow> mo' = mo)"
  using assms
  by (auto simp: check_default_endpoint_def get_default_endpoint_def Let_def compare_target_iff result_simps
      split: sum.splits)

text \<open>A cluster whose only backend has this address, and a mapping that gives several ports.\<close>

definition backend_api :: "string \<Rightarrow> k8s_api" where
  "backend_api address = endpoint_api\<lparr>api_list := (\<lambda>_. Inr \<lparr>lresp_items = [sample_resource ''b'' address []],
      lresp_version = None\<rparr>)\<rparr>"

definition ports_mapping :: resource_mapping where
  "ports_mapping = sample_pod_mapping\<lparr>rm_port_name := None,
     rm_ports := Some [\<lparr>pm_name = ''default'', pm_port_name = Some ''game'', pm_port_path = None\<rparr>]\<rparr>"

definition ports_config :: config where
  "ports_config = sample_config\<lparr>cfg_resource_query_mapping := [(''pod'', ports_mapping)]\<rparr>"

lemma ports_config_eval:
  "cfg_default_endpoint ports_config = sample_default_endpoint"
  "hm_get (cfg_resource_query_mapping ports_config) (de_resource_type (cfg_default_endpoint ports_config))
     = Some ports_mapping"
  by (simp_all add: ports_config_def sample_config_def sample_default_endpoint_def)

lemma backend_resources:
  "endpoint_resources (backend_api a) (cfg_default_endpoint ports_config) ports_mapping = Inr [sample_resource ''b'' a []]"
  by (simp add: ports_config_eval(1) endpoint_resources_def query_resources_def query_resources_snapshot_def backend_api_def endpoint_api_def
      endpoint_status_def sample_default_endpoint_def)

definition filled_monitor :: "string option \<Rightarrow> monitor" where
  "filled_monitor text_seen = \<lparr>mo_last = text_seen,
     mo_cache = Some \<lparr>dc_address = ''10.0.0.1'', dc_port_mappings = [((7777, Udp), 7777)]\<rparr>\<rparr>"

lemma ports_target: "current_target ports_mapping (sample_resource n a l # rs) = Inr (Some n)"
  by (simp add: current_target_def extract_port_def ports_mapping_def sample_pod_mapping_def)
     (simp add: sample_resource_def sample_meta_def)

lemma check_invalidates_on_change_witness:
  "mo_cache (snd (check_default_endpoint ports_config (backend_api ''10.0.0.1'') (filled_monitor (Some ''a'')))) = None
   \<and> mo_cache (snd (check_default_endpoint ports_config (backend_api ''10.0.0.1'') (filled_monitor (Some ''b'')))) \<noteq> None"
  using check_invalidates_on_change [OF ports_config_eval(2) surjective_pairing, of "backend_api ''10.0.0.1''" "filled_monitor (Some ''a'')"]
    check_invalidates_on_change [OF ports_config_eval(2) surjective_pairing, of "backend_api ''10.0.0.1''" "filled_monitor (Some ''b'')"]
    backend_resources [of "''10.0.0.1''"] ports_target [of "''b''" "''10.0.0.1''" "[]" "[]"]
  by (simp add: filled_monitor_def)

text \<open>
  The text names only the first resource, and only its name where the mapping gives several ports
  or the port cannot be read. A backend that keeps its name but gets another address is then not
  noticed: the cache keeps routing new clients to the old address after every check.
\<close>

theorem address_change_missed:
  assumes "hm_get (cfg_resource_query_mapping cfg) (de_resource_type (cfg_default_endpoint cfg)) = Some mapping"
    and "rm_port_path mapping = None" "rm_port_name mapping = None"
    and "rm_address_path mapping = Some ''status.podIP''" "rm_address_type mapping = None"
    and "endpoint_resources api (cfg_default_endpoint cfg) mapping = Inr (sample_resource n old_address labels # rest)"
    and "endpoint_resources api' (cfg_default_endpoint cfg) mapping = Inr (sample_resource n new_address labels' # rest')"
    and "mo_last mo = Some n" "mo_cache mo = Some c"
  shows "snd (check_default_endpoint cfg api mo) = mo \<and> snd (check_default_endpoint cfg api' mo) = mo
    \<and> extract_address (sample_resource n new_address labels') ''status.podIP'' None = Inr new_address"
proof -
  have "current_target mapping (sample_resource n a l # rs) = Inr (Some n)" for a l rs
    using assms(2-5)
    by (simp add: current_target_def extract_port_def) (simp add: sample_resource_def sample_meta_def)
  then show ?thesis using assms
    by (simp add: check_default_endpoint_def get_default_endpoint_def compare_target_iff)
qed

lemma address_change_missed_witness:
  "snd (check_default_endpoint ports_config (backend_api ''10.0.0.9'')
      (snd (check_default_endpoint ports_config (backend_api ''10.0.0.1'') (filled_monitor (Some ''b'')))))
    = filled_monitor (Some ''b'')"
proof -
  have m: "rm_port_path ports_mapping = None" "rm_port_name ports_mapping = None"
    "rm_address_path ports_mapping = Some ''status.podIP''" "rm_address_type ports_mapping = None"
    by (simp_all add: ports_mapping_def sample_pod_mapping_def)
  have l: "mo_last (filled_monitor (Some ''b'')) = Some ''b''"
    "mo_cache (filled_monitor (Some ''b'')) = Some \<lparr>dc_address = ''10.0.0.1'', dc_port_mappings = [((7777, Udp), 7777)]\<rparr>"
    by (simp_all add: filled_monitor_def)
  from address_change_missed [OF ports_config_eval(2) m backend_resources [of "''10.0.0.1''"]
      backend_resources [of "''10.0.0.9''"] l] show ?thesis by simp
qed

end
