(* ===== verification/Director.thy ===== *)
theory Director
  imports Access Proxy ResourceMonitor
begin

text \<open>
  \<open>src/main.rs\<close>: how the components are wired, and what follows for the whole program. The state is
  everything the tasks share; a step is one handler run to its end (a packet, a TCP connection, a
  query, a cleanup pass, a check of the monitor, the shutdown). The interleavings inside the handlers
  that share the session table are those of \<open>table_step\<close> in \<open>Session\<close>.
\<close>

section \<open>Wiring\<close>

text \<open>
  A session manager is cloned: the clones share the table, the callback is a field of each clone.
  \<open>SessionManager::new\<close> gives the cleanup task a clone made before any callback can be set.
\<close>

record session_manager =
  sm_timeout_seconds :: u64
  sm_cleanup_callback :: "load_balancer cleanup_callback"

definition manager_new :: "u64 \<Rightarrow> session_manager \<times> session_manager" where
  "manager_new timeout_seconds =
     (let manager = \<lparr>sm_timeout_seconds = timeout_seconds, sm_cleanup_callback = None\<rparr>;
          cleanup_manager = manager
      in (manager, cleanup_manager))"

definition set_cleanup_callback ::
  "(string \<Rightarrow> load_balancer \<Rightarrow> load_balancer) \<Rightarrow> session_manager \<Rightarrow> session_manager" where
  "set_cleanup_callback callback manager = manager\<lparr>sm_cleanup_callback := Some callback\<rparr>"

record director =
  di_store :: session_store
  di_cache :: "default_endpoint_cache option"
  di_proxy_lb :: load_balancer
  di_main_lb :: load_balancer
  di_manager :: session_manager
  di_cleanup_manager :: session_manager
  di_last :: "string option"

definition start_director :: "config \<Rightarrow> director" where
  "start_director cfg =
     (case manager_new (cfg_session_timeout_seconds cfg) of (manager, cleanup_manager) \<Rightarrow>
        \<lparr>di_store = store_new, di_cache = None,
         di_proxy_lb = px_lb (proxy_new cfg store_new None),
         di_main_lb = lb_new (lb_strategy (get_load_balancing cfg)),
         di_manager = set_cleanup_callback decrement_session manager,
         di_cleanup_manager = cleanup_manager, di_last = None\<rparr>)"

definition proxy_of :: "director \<Rightarrow> data_proxy" where
  "proxy_of d = \<lparr>px_store = di_store d, px_cache = di_cache d, px_lb = di_proxy_lb d\<rparr>"

definition put_proxy :: "data_proxy \<Rightarrow> director \<Rightarrow> director" where
  "put_proxy px d = d\<lparr>di_store := px_store px, di_cache := px_cache px, di_proxy_lb := px_lb px\<rparr>"

definition run_cleanup :: "nat \<Rightarrow> director \<Rightarrow> director" where
  "run_cleanup now d =
     (let m = di_cleanup_manager d in
      case cleanup_tick (sm_timeout_seconds m) (sm_cleanup_callback m) now (di_store d, di_main_lb d) of
        (st, lb) \<Rightarrow> d\<lparr>di_store := st, di_main_lb := lb\<rparr>)"

definition run_monitor :: "config \<Rightarrow> k8s_api \<Rightarrow> director \<Rightarrow> director" where
  "run_monitor cfg api d =
     (let mo = snd (check_default_endpoint cfg api \<lparr>mo_last = di_last d, mo_cache = di_cache d\<rparr>)
      in d\<lparr>di_last := mo_last mo, di_cache := mo_cache mo\<rparr>)"

inductive director_step :: "query_server \<Rightarrow> director \<Rightarrow> director \<Rightarrow> bool" for qs where
  step_udp: "handle_udp_data_packet (qs_config qs) api nw now client bytes port (proxy_of d) = (r, out, px)
    \<Longrightarrow> director_step qs d (put_proxy px d)"
| step_tcp: "handle_tcp_connection (qs_config qs) api nw now closed client port (proxy_of d) = (r, out, px)
    \<Longrightarrow> director_step qs d (put_proxy px d)"
| step_query: "process_query qs request client api t events = (res, es)
    \<Longrightarrow> director_step qs d (d\<lparr>di_store := apply_effects now es (di_store d)\<rparr>)"
| step_cleanup: "director_step qs d (run_cleanup now d)"
| step_monitor: "director_step qs d (run_monitor (qs_config qs) api d)"
| step_shutdown: "director_step qs d (d\<lparr>di_store := clear_all (di_store d)\<rparr>)"

section \<open>Invariants\<close>

text \<open>
  The cleanup task's callback stays unset, so main's balancer is never touched, and the session
  table keeps its invariant.
\<close>

definition director_inv :: "director \<Rightarrow> bool" where
  "director_inv d \<longleftrightarrow>
     store_inv (di_store d) \<and> sm_cleanup_callback (di_cleanup_manager d) = None
     \<and> (\<forall>backend. get_session_count (di_main_lb d) backend = 0)"

lemma proxy_of_sel [simp]: "px_store (proxy_of d) = di_store d" "px_lb (proxy_of d) = di_proxy_lb d"
  "px_cache (proxy_of d) = di_cache d"
  by (simp_all add: proxy_of_def)

lemma director_inv_start: "director_inv (start_director cfg)"
  by (simp add: director_inv_def start_director_def manager_new_def store_inv_new lb_new_def get_session_count_def Let_def)

lemma establish_inv:
  assumes "store_inv (px_store px)"
    and "establish_default_session cfg api now client port proto px = (r, px')"
  shows "store_inv (px_store px') \<and> get_session_count (px_lb px) b \<le> get_session_count (px_lb px') b"
  using assms lbc.count_inc
  by (auto simp: establish_default_session_def store_inv_upsert split: prod.splits sum.splits)

lemma proxy_packet_inv:
  assumes "store_inv st" and "proxy_packet_bidirectional nw client bytes port st = (r, out, st')"
  shows "store_inv st'"
  using proxy_packet_keeps(1,4) [OF store_invD(1) [OF assms(1)] assms(2)] assms(1)
  by (simp add: store_inv_def)

lemma udp_inv:
  assumes inv: "store_inv (px_store px)"
    and run: "handle_udp_data_packet cfg api nw now client bytes port px = (r, out, px')"
  shows "store_inv (px_store px') \<and> get_session_count (px_lb px) b \<le> get_session_count (px_lb px') b"
proof (cases "get_by_addr (px_store px) client")
  case None
  obtain r1 px1 where e: "establish_default_session cfg api now client port Udp px = (r1, px1)" by force
  note inv1 = establish_inv [OF inv e, of b]
  obtain r2 out2 st where f: "proxy_packet_bidirectional nw client bytes port (px_store px1) = (r2, out2, st)"
    by (cases "proxy_packet_bidirectional nw client bytes port (px_store px1)")
  show ?thesis using run None e f inv1 proxy_packet_inv [OF conjunct1 [OF inv1] f]
    by (auto simp: handle_udp_data_packet_def handle_first_packet_def split: sum.splits)
next
  case (Some s)
  obtain r2 out2 st where f: "proxy_packet_bidirectional nw client bytes port (px_store px) = (r2, out2, st)"
    by (cases "proxy_packet_bidirectional nw client bytes port (px_store px)")
  show ?thesis using run Some f proxy_packet_inv [OF inv f]
    by (auto simp: handle_udp_data_packet_def store_inv_touch split: sum.splits)
qed

lemma tcp_inv:
  assumes inv: "store_inv (px_store px)"
    and run: "handle_tcp_connection cfg api nw now closed client port px = (r, out, px')"
  shows "store_inv (px_store px') \<and> get_session_count (px_lb px) b \<le> get_session_count (px_lb px') b"
proof -
  obtain r1 px1 where e: "(if get_by_addr (px_store px) client = None
      then establish_default_session cfg api now client port Tcp px else (Inr (), px)) = (r1, px1)" by force
  then have "store_inv (px_store px1) \<and> get_session_count (px_lb px) b \<le> get_session_count (px_lb px1) b"
    using establish_inv [OF inv] inv by (auto split: if_splits)
  then show ?thesis using run unfolding handle_tcp_connection_def e
    by (auto simp: store_inv_touch split: sum.splits option.splits if_splits)
qed

lemma apply_effects_inv: "store_inv st \<Longrightarrow> store_inv (apply_effects now es st)"
  by (induction es arbitrary: st)
     (auto simp: apply_effects_def apply_effect_def store_inv_upsert split: query_effect.splits)

lemma apply_effects_isolated: "isolated st \<Longrightarrow> isolated (apply_effects now es st)"
  by (induction es arbitrary: st)
     (auto simp: apply_effects_def apply_effect_def isolated_upsert split: query_effect.splits)

lemma cleanup_no_callback: "snd (cleanup_tick t None now stw) = snd stw"
proof -
  have "snd (fold (cleanup_remove None) keys stw) = snd stw" for keys and stw :: "session_store \<times> 'w"
    by (induction keys arbitrary: stw) (auto simp: cleanup_remove_def Let_def split: option.splits)
  then show ?thesis by (simp add: cleanup_tick_def)
qed

inductive_cases director_stepE: "director_step qs d d'"

lemma director_inv_step:
  assumes "director_step qs d d'" and "director_inv d"
  shows "director_inv d' \<and> get_session_count (di_proxy_lb d) b \<le> get_session_count (di_proxy_lb d') b"
  using assms
proof (induction rule: director_step.induct)
  case (step_udp api nw now client bytes port d r out px)
  then show ?case using udp_inv [of "proxy_of d"] by (force simp: director_inv_def put_proxy_def)
next
  case (step_tcp api nw now closed client port d r out px)
  then show ?case using tcp_inv [of "proxy_of d"] by (force simp: director_inv_def put_proxy_def)
next
  case (step_cleanup d now)
  then show ?case
    using store_inv_cleanup [of "(di_store d, di_main_lb d)" "sm_timeout_seconds (di_cleanup_manager d)" None now]
      cleanup_no_callback [of "sm_timeout_seconds (di_cleanup_manager d)" now "(di_store d, di_main_lb d)"]
    by (auto simp: director_inv_def run_cleanup_def Let_def split: prod.splits)
qed (auto simp: director_inv_def apply_effects_inv run_monitor_def Let_def store_inv_clear_all)

interpretation director_run: step_invariant "director_step qs" "start_director cfg" director_inv
  for qs cfg
  by unfold_locales (use director_inv_start director_inv_step in blast)+

lemmas director_inv_reachable = director_run.inv_reachable

section \<open>Properties\<close>

text \<open>
  In every state the running program reaches by whole handlers, no receive task is leaked and
  none is shared: a socket is live exactly when a session refers to it, and then for the one IP, client
  port and proxy port it was created for.
\<close>

theorem director_sockets_accounted:
  assumes "(director_step qs)\<^sup>*\<^sup>* (start_director cfg) d"
  shows "(live (st_sockets (di_store d)) sid \<longleftrightarrow> (\<exists>ip pk. refers (di_store d) ip pk sid))
    \<and> (refers (di_store d) ip pk sid \<longrightarrow> serves (st_sockets (di_store d) ! sid) ip pk)"
proof -
  have inv: "store_inv (di_store d)" using director_inv_reachable [OF assms] by (simp add: director_inv_def)
  note iso = store_invD(1) [OF inv]
  show ?thesis using isolatedD(4,5) [OF iso] store_invD(2) [OF inv] by blast
qed

text \<open>
  C34. The session counts the data proxy balances by never go down: the cleanup task runs without the
  callback that main sets, and main's callback would decrement a balancer that no selection reads. So
  every session that ends, by timeout or shutdown, stays counted for its backend.
\<close>

theorem proxy_counts_never_decrease:
  assumes "(director_step qs)\<^sup>*\<^sup>* (start_director cfg) d" and "director_step qs d d'"
  shows "get_session_count (di_proxy_lb d) backend \<le> get_session_count (di_proxy_lb d') backend
    \<and> get_session_count (di_main_lb d') backend = 0
    \<and> sm_cleanup_callback (di_manager (start_director cfg)) \<noteq> None"
  using director_inv_step [OF assms(2) director_inv_reachable [OF assms(1)]]
  by (simp add: director_inv_def start_director_def manager_new_def set_cleanup_callback_def Let_def)

text \<open>The director of the capacity sample after its first packet.\<close>

definition capacity_server :: query_server where
  "capacity_server = sample_server\<lparr>qs_config := capacity_config\<rparr>"

definition first_packet :: "(error + unit) \<times> outgoing list \<times> data_proxy" where
  "first_packet = handle_udp_data_packet capacity_config endpoint_api sample_network 0 sample_client [1] 7777
     (proxy_of (start_director capacity_config))"

definition busy_director :: director where
  "busy_director = put_proxy (snd (snd first_packet)) (start_director capacity_config)"

lemma busy_director_step: "director_step capacity_server (start_director capacity_config) busy_director"
  unfolding busy_director_def first_packet_def
  by (rule step_udp [where r = "fst first_packet" and out = "fst (snd first_packet)"])
     (simp add: first_packet_def capacity_server_def)

lemma start_capacity: "proxy_of (start_director capacity_config) = capacity_proxy"
  by (simp add: proxy_of_def start_director_def manager_new_def proxy_new_def capacity_proxy_def store_new_def Let_def)

lemma capacity_target_addr:
  "get_target_addr (new_multi_port 0 ''10.0.0.1'' [((7777, Udp), 7777)]) 7777 Udp = Inr (addr_v4 10 0 0 1 7777)"
  using parse_show_socket_addr [of 10 0 0 1 7777, unfolded show_ipv4_sample]
  by (simp add: get_target_addr_def new_multi_port_def Let_def)

lemma first_packet_eval:
  "px_lb (snd (snd first_packet)) = increment_session ''10.0.0.1'' (lb_new (LabelArithmetic ''cur'' ''max'' 0))
   \<and> st_sessions (px_store (snd (snd first_packet))) = [(LegacyIp (IPv4 192 0 2 1),
     \<lparr>s_target_ip = ''10.0.0.1'', s_port_mappings = [((7777, Udp), 7777)], s_last_activity = 0,
      s_udp_sockets = [((7777, 5000), 0)]\<rparr>)]"
proof -
  let ?m = "[((7777, Udp), 7777)] :: port_mappings"
  let ?px = "\<lparr>px_store = upsert_multi_port 0 sample_client ''10.0.0.1'' ?m store_new,
     px_cache = Some \<lparr>dc_address = ''10.0.0.1'', dc_port_mappings = ?m\<rparr>,
     px_lb = increment_session ''10.0.0.1'' (lb_new (LabelArithmetic ''cur'' ''max'' 0))\<rparr>"
  have "establish_default_session capacity_config endpoint_api 0 sample_client 7777 Udp capacity_proxy = (Inr (), ?px)"
    by (simp add: establish_default_session_def default_route_def capacity_proxy_eval
        capacity_query capacity_select(1) capacity_target)
  moreover have "get_by_addr (px_store capacity_proxy) sample_client = None"
    by (simp add: get_by_addr_def sm_get_def capacity_proxy_eval store_new_def)
  moreover have "get_mut_by_addr (px_store ?px) sample_client =
      Some (LegacyIp (IPv4 192 0 2 1), new_multi_port 0 ''10.0.0.1'' ?m)"
    by (simp add: upsert_multi_port_def table_defs sample_client_def addr_v4_def)
  ultimately show ?thesis
    by (simp add: first_packet_def start_capacity handle_udp_data_packet_def handle_first_packet_def
        proxy_packet_bidirectional_def capacity_target_addr)
       (simp add: get_or_create_udp_socket_def socket_new_def upsert_multi_port_def table_defs sample_client_def addr_v4_def
          sample_network_def)
qed

lemma proxy_counts_never_decrease_witness:
  "get_session_count (di_proxy_lb (run_cleanup 300000000001 busy_director)) ''10.0.0.1'' = 1
   \<and> sm_count (di_store (run_cleanup 300000000001 busy_director)) = 0"
proof -
  have reached: "(director_step capacity_server)\<^sup>*\<^sup>* (start_director capacity_config) busy_director"
    using busy_director_step by (rule r_into_rtranclp)
  have "get_session_count (di_proxy_lb busy_director) ''10.0.0.1'' = 1"
    by (simp add: busy_director_def put_proxy_def first_packet_eval get_session_count_def increment_session_def lb_new_def)
  moreover have "di_proxy_lb (run_cleanup 300000000001 busy_director) = di_proxy_lb busy_director"
    by (simp add: run_cleanup_def Let_def split: prod.splits)
  moreover have "di_cleanup_manager busy_director = \<lparr>sm_timeout_seconds = 300, sm_cleanup_callback = None\<rparr>"
    by (simp add: busy_director_def put_proxy_def start_director_def manager_new_def Let_def capacity_config_def sample_config_def)
  then have "sm_count (di_store (run_cleanup 300000000001 busy_director)) = 0"
    using first_packet_eval
    by (simp add: run_cleanup_def cleanup_tick_def cleanup_scan_def is_timed_out_def busy_director_def put_proxy_def
        cleanup_remove_def shutdown_sockets_def sm_count_def Let_def)
  ultimately show ?thesis
    using proxy_counts_never_decrease [OF reached step_cleanup, of "''10.0.0.1''" 300000000001] by simp
qed

lemma director_sockets_accounted_witness: "live (st_sockets (di_store busy_director)) 0"
proof -
  have reached: "(director_step capacity_server)\<^sup>*\<^sup>* (start_director capacity_config) busy_director"
    using busy_director_step by (rule r_into_rtranclp)
  have "refers (di_store busy_director) (IPv4 192 0 2 1) (7777, 5000) 0"
    using first_packet_eval by (simp add: refers_def sm_get_def busy_director_def put_proxy_def)
  then show ?thesis using director_sockets_accounted [OF reached] by blast
qed

text \<open>
  C2. End to end: after a query is answered with success, a UDP packet that a socket of the
  client sends to a configured UDP data port, while the table is as the query left it, goes by the
  route the query installed, to the backend port the route maps the data port to, when the system lets the upstream socket be bound and the
  datagram be sent. If the route's address with that port parses, the packet goes to it unchanged and
  once and the answer comes back to that socket; an IPv4 address always parses, to itself. If it does
  not parse, the packet is an error and nothing is sent: this is so for every IPv6 address, which is
  reported without brackets.
\<close>

theorem query_then_packet_reaches_backend:
  assumes inv: "isolated (px_store px)"
    and query: "process_query qs request client api now events = (Replied (Success status server ports), es)"
    and p: "p \<in> set (get_data_ports (qs_config qs))" "dp_protocol p = Udp"
    and same_ip: "sa_ip sender = sa_ip client" and net: "nw_bound nw" "nw_sent nw"
    and px': "px' = px\<lparr>px_store := apply_effects clock es (px_store px)\<rparr>"
  shows "\<exists>ip routes target_port. InstallRoute client ip routes \<in> set es
    \<and> hm_get routes (dp_port p, Udp) = Some target_port
    \<and> (case upstream_addr ip target_port of
         Some target \<Rightarrow> (\<exists>sid px''.
           handle_udp_data_packet (qs_config qs) api' nw later sender bytes (dp_port p) px'
             = (Inr (), [Datagram sid target bytes], px'')
           \<and> (\<exists>reply_to. receive_turn (st_sockets (px_store px'')) sid (Received reply) = TaskForwards reply_to reply
                \<and> sa_ip reply_to = sa_ip sender \<and> sa_port reply_to = sa_port sender))
       | None \<Rightarrow> handle_udp_data_packet (qs_config qs) api' nw later sender bytes (dp_port p) px'
             = (Inl (InvalidSocketAddr (ip @ '':'' @ show_nat (unat target_port))), [], px'))
    \<and> (\<forall>a b c d. ip = show_ipv4 a b c d \<longrightarrow> upstream_addr ip target_port = Some (addr_v4 a b c d target_port))
    \<and> (CHR '':'' \<in> set ip \<and> hd ip \<noteq> CHR ''['' \<longrightarrow> upstream_addr ip target_port = None)"
proof -
  obtain ip routes where es: "InstallRoute client ip routes \<in> set es"
    and route: "route_of (apply_effects clock es (px_store px)) sender
        = (if sa_ip client = sa_ip sender then Some (ip, routes) else route_of (px_store px) sender)"
    and dom: "\<forall>pt proto. hm_get routes (pt, proto) \<noteq> None \<longleftrightarrow>
          (\<exists>p\<in>set (get_data_ports (qs_config qs)). dp_port p = pt \<and> dp_protocol p = proto)"
    using success_installs_route [OF query inv, of clock sender] by blast
  obtain target_port where t: "hm_get routes (dp_port p, Udp) = Some target_port"
    using dom p by (metis not_None_eq)
  have iso: "isolated (px_store px')" unfolding px' using apply_effects_isolated [OF inv] by simp
  have r: "route_of (px_store px') sender = Some (ip, routes)" using route same_ip by (simp add: px')
  show ?thesis
  proof (intro exI [of _ ip] exI [of _ routes] exI [of _ target_port] conjI es t, goal_cases)
    case 1
    show ?case
    proof (cases "upstream_addr ip target_port")
      case None
      show ?thesis unfolding None option.case by (rule udp_packet_dropped [OF iso r t None])
    next
      case (Some target)
      show ?thesis unfolding Some option.case by (rule udp_packet_routed [OF iso r t net Some])
    qed
  next
    case 2
    show ?case by (intro allI impI, elim ssubst, rule upstream_ipv4)
  next
    case 3
    show ?case by (intro impI upstream_bare_ipv6; elim conjE)
  qed
qed

lemma query_then_packet_reaches_backend_witness:
  "\<exists>sid px'. handle_udp_data_packet sample_config sample_api sample_network 12 sample_peer [1] 7777
      (routed_proxy\<lparr>px_store := apply_effects 9
        (snd (process_query sample_server (Query ''m'' ''z'' [''a'']) sample_client sample_api 5 [])) (px_store routed_proxy)\<rparr>)
    = (Inr (), [Datagram sid (addr_v4 10 0 0 2 7777) [1]], px')"
proof -
  let ?es = "[LockAssignments, ListPods sample_list, PatchLabel sample_patch,
      InstallRoute sample_client ''10.0.0.2'' [((7777, Udp), 7777)], UnlockAssignments]"
  let ?p = "\<lparr>dp_port = 7777, dp_protocol = Udp, dp_name = ''default''\<rparr>"
  have run: "process_query sample_server (Query ''m'' ''z'' [''a'']) sample_client sample_api 5 [] =
      (Replied (Success ''Allocated'' ''v'' [(''default'', 7777)]), ?es)"
    by (simp add: process_query_def sample_query)
  have p: "?p \<in> set (get_data_ports (qs_config sample_server))"
    by (simp add: sample_server_def sample_config_defs get_data_ports_def)
  have udp: "dp_protocol ?p = Udp" by simp
  have ip: "sa_ip sample_peer = sa_ip sample_client" by (simp add: sample_peer_def sample_client_def addr_v4_def)
  have net: "nw_bound sample_network" "nw_sent sample_network" by (simp_all add: sample_network_def)
  have addr: "upstream_addr ''10.0.0.2'' 7777 = Some (addr_v4 10 0 0 2 7777)"
  proof -
    have "''10.0.0.2'' = show_ipv4 10 0 0 2" by code_simp
    then show ?thesis using upstream_ipv4 [of 10 0 0 2 7777] by (simp only:)
  qed
  from query_then_packet_reaches_backend [OF routed_proxy_isolated run p udp ip net refl,
      where api' = sample_api and later = 12 and bytes = "[1]" and clock = 9 and reply = "[]"]
  obtain ip routes t where r: "InstallRoute sample_client ip routes \<in> set ?es" "hm_get routes (dp_port ?p, Udp) = Some t"
    and sent: "\<And>target. upstream_addr ip t = Some target \<Longrightarrow> \<exists>sid px''.
         handle_udp_data_packet (qs_config sample_server) sample_api sample_network 12 sample_peer [1] (dp_port ?p)
            (routed_proxy\<lparr>px_store := apply_effects 9 ?es (px_store routed_proxy)\<rparr>)
           = (Inr (), [Datagram sid target [1]], px'')"
    apply -
    apply (elim exE conjE)
    apply (rule that, assumption+, simp only: option.case, blast)
    done
  have "ip = ''10.0.0.2''" "t = 7777" using r by auto
  then show ?thesis using sent addr by (simp only: run snd_conv) (simp add: sample_server_def)
qed

end
