(* ===== verification/Listeners.thy ===== *)
theory Listeners
  imports Proxy QueryServer
begin

text \<open>
  The accept and receive loops: \<open>run\<close> of \<open>src/proxy.rs\<close> with its UDP and TCP loops, \<open>run\<close> of
  \<open>src/query_server.rs\<close> and \<open>run_metrics_server\<close> of \<open>src/metrics_server.rs\<close>. A loop that runs as long as the process does is a function of what its socket
  delivers, in order, to the handler tasks it spawns. Binding is a parameter, as the operating system decides it;
  \<open>exclusive\<close> is the documented rule that a port in use cannot be bound again.
\<close>

section \<open>Binding\<close>

type_synonym listener = "u16 \<times> protocol"

text \<open>\<open>can_bind bound l\<close>: the operating system gives \<open>l\<close> while \<open>bound\<close> are bound.\<close>

type_synonym port_binder = "listener list \<Rightarrow> listener \<Rightarrow> bool"

text \<open>
  Each port is bound and its task spawned before the next: the first failure returns, and the tasks
  spawned so far keep serving.
\<close>

fun bind_data_ports :: "port_binder \<Rightarrow> data_port_config list \<Rightarrow> listener list \<Rightarrow> (error + unit) \<times> listener list" where
  "bind_data_ports can_bind [] bound = (Inr (), bound)"
| "bind_data_ports can_bind (p # ps) bound =
     (let l = (dp_port p, dp_protocol p) in
      if can_bind bound l then bind_data_ports can_bind ps (bound @ [l])
      else (Inl (BindFailed (dp_port p)), bound))"

text \<open>
  How \<open>run\<close> goes on: it fails, it returns (joining no task at all), or it serves forever. The second
  component are the sockets that are bound and served.
\<close>

datatype run_end = Fails error | Returns | Serves

definition run_data_proxy :: "port_binder \<Rightarrow> config \<Rightarrow> listener list \<Rightarrow> run_end \<times> listener list" where
  "run_data_proxy can_bind cfg bound =
     (let ports = get_data_ports cfg in
      case bind_data_ports can_bind ports bound of
        (Inl e, bound') \<Rightarrow> (Fails e, bound')
      | (Inr _, bound') \<Rightarrow> (if ports = [] then Returns else Serves, bound'))"

definition run_query_server :: "port_binder \<Rightarrow> config \<Rightarrow> listener list \<Rightarrow> run_end \<times> listener list" where
  "run_query_server can_bind cfg bound =
     (let l = (cfg_query_port cfg, Tcp) in
      if can_bind bound l then (Serves, bound @ [l]) else (Fails (BindFailed (cfg_query_port cfg)), bound))"

definition run_metrics_server :: "port_binder \<Rightarrow> u16 \<Rightarrow> listener list \<Rightarrow> run_end \<times> listener list" where
  "run_metrics_server can_bind port bound =
     (let l = (port, Tcp) in
      if can_bind bound l then (Serves, bound @ [l]) else (Fails (BindFailed port), bound))"

section \<open>Loops\<close>

text \<open>What a socket delivers: a datagram or an accepted connection, or an error, which is only logged.\<close>

datatype handler =
    UdpPacket socket_addr "u8 list" u16
  | TcpStream socket_addr u16
  | QueryStream socket_addr
  | MetricsStream socket_addr

fun run_udp_socket :: "u16 \<Rightarrow> (string + (u8 list \<times> socket_addr)) list \<Rightarrow> handler list" where
  "run_udp_socket proxy_port [] = []"
| "run_udp_socket proxy_port (Inr (packet_data, client) # results) =
     UdpPacket client packet_data proxy_port # run_udp_socket proxy_port results"
| "run_udp_socket proxy_port (Inl e # results) = run_udp_socket proxy_port results"

fun run_tcp_listener :: "u16 \<Rightarrow> (string + socket_addr) list \<Rightarrow> handler list" where
  "run_tcp_listener proxy_port [] = []"
| "run_tcp_listener proxy_port (Inr client # results) =
     TcpStream client proxy_port # run_tcp_listener proxy_port results"
| "run_tcp_listener proxy_port (Inl e # results) = run_tcp_listener proxy_port results"

fun query_accept_loop :: "(string + socket_addr) list \<Rightarrow> handler list" where
  "query_accept_loop [] = []"
| "query_accept_loop (Inr addr # results) = QueryStream addr # query_accept_loop results"
| "query_accept_loop (Inl e # results) = query_accept_loop results"

fun metrics_accept_loop :: "(string + socket_addr) list \<Rightarrow> handler list" where
  "metrics_accept_loop [] = []"
| "metrics_accept_loop (Inr addr # results) = MetricsStream addr # metrics_accept_loop results"
| "metrics_accept_loop (Inl e # results) = metrics_accept_loop results"

definition handle_udp_packet ::
  "config \<Rightarrow> k8s_api \<Rightarrow> network \<Rightarrow> nat \<Rightarrow> socket_addr \<Rightarrow> u8 list \<Rightarrow> u16 \<Rightarrow> data_proxy
   \<Rightarrow> (error + unit) \<times> outgoing list \<times> data_proxy" where
  "handle_udp_packet cfg api nw now client packet_data proxy_port px =
     handle_udp_data_packet cfg api nw now client packet_data proxy_port px"

text \<open>
  A schedule of spawned packet tasks, each run to its end at a time: an error of one is logged and
  does not stop the others. The datagrams the proxy sends come out in order.
\<close>

fun run_packets ::
  "config \<Rightarrow> k8s_api \<Rightarrow> network \<Rightarrow> (nat \<times> handler) list \<Rightarrow> data_proxy \<Rightarrow> outgoing list \<times> data_proxy" where
  "run_packets cfg api nw [] px = ([], px)"
| "run_packets cfg api nw ((now, UdpPacket client packet_data proxy_port) # tasks) px =
     (case handle_udp_packet cfg api nw now client packet_data proxy_port px of
        (_, out, px') \<Rightarrow> (case run_packets cfg api nw tasks px' of (outs, px'') \<Rightarrow> (out @ outs, px'')))"
| "run_packets cfg api nw ((now, _) # tasks) px = run_packets cfg api nw tasks px"

section \<open>Binding all ports\<close>

definition exclusive :: "port_binder \<Rightarrow> bool" where
  "exclusive can_bind \<longleftrightarrow> (\<forall>bound l. l \<in> set bound \<longrightarrow> \<not> can_bind bound l)"

abbreviation port_listeners :: "data_port_config list \<Rightarrow> listener list" where
  "port_listeners ps \<equiv> map (\<lambda>p. (dp_port p, dp_protocol p)) ps"

abbreviation listener_of :: "data_port_config \<Rightarrow> listener" where
  "listener_of p \<equiv> (dp_port p, dp_protocol p)"

text \<open>How far the binding gets: to the end, or to the first port that is refused while those before it are bound.\<close>

lemma bind_data_ports_exact:
  "bind_data_ports can_bind ps bound = (r, bound') \<Longrightarrow>
     \<exists>k \<le> length ps. bound' = bound @ port_listeners (take k ps)
       \<and> (\<forall>i < k. can_bind (bound @ port_listeners (take i ps)) (listener_of (ps ! i)))
       \<and> (if k < length ps then \<not> can_bind bound' (listener_of (ps ! k)) \<and> r = Inl (BindFailed (dp_port (ps ! k)))
          else r = Inr ())"
proof (induction ps arbitrary: bound)
  case (Cons p ps)
  show ?case
  proof (cases "can_bind bound (listener_of p)")
    case True
    then have "bind_data_ports can_bind ps (bound @ [listener_of p]) = (r, bound')"
      using Cons.prems by (simp add: Let_def)
    from Cons.IH [OF this] obtain k where k: "k \<le> length ps"
      "bound' = (bound @ [listener_of p]) @ port_listeners (take k ps)"
      "\<forall>i < k. can_bind ((bound @ [listener_of p]) @ port_listeners (take i ps)) (listener_of (ps ! i))"
      "if k < length ps then \<not> can_bind bound' (listener_of (ps ! k)) \<and> r = Inl (BindFailed (dp_port (ps ! k)))
       else r = Inr ()" by blast
    have given: "\<forall>i < Suc k. can_bind (bound @ port_listeners (take i (p # ps))) (listener_of ((p # ps) ! i))"
      using True k(3) by (simp add: All_less_Suc2)
    have all: "bound' = bound @ port_listeners (take (Suc k) (p # ps))" using k(2) by simp
    have stop: "if Suc k < length (p # ps) then \<not> can_bind bound' (listener_of ((p # ps) ! Suc k))
        \<and> r = Inl (BindFailed (dp_port ((p # ps) ! Suc k))) else r = Inr ()"
      using k(4) by simp
    have "Suc k \<le> length (p # ps)" using k(1) by simp
    with all given stop show ?thesis by blast
  next
    case False
    then show ?thesis using Cons.prems by (intro exI [of _ 0]) (simp add: Let_def)
  qed
qed simp

lemma bind_data_ports_distinct:
  "exclusive can_bind \<Longrightarrow> bind_data_ports can_bind ps bound = (r, bound') \<Longrightarrow> distinct bound \<Longrightarrow> distinct bound'"
proof (induction ps arbitrary: bound)
  case (Cons p ps)
  show ?case
  proof (cases "can_bind bound (dp_port p, dp_protocol p)")
    case True
    then have "(dp_port p, dp_protocol p) \<notin> set bound" using Cons.prems(1) by (auto simp: exclusive_def)
    then show ?thesis
      using Cons.IH [of "bound @ [(dp_port p, dp_protocol p)]"] Cons.prems True by (simp add: Let_def)
  qed (use Cons.prems in \<open>simp add: Let_def\<close>)
qed simp

section \<open>Properties\<close>

text \<open>An operating system on which every port is free.\<close>

definition free_ports :: port_binder where
  "free_ports bound l \<longleftrightarrow> l \<notin> set bound"

lemma free_ports_exclusive: "exclusive free_ports"
  by (simp add: exclusive_def free_ports_def)

text \<open>A configuration with the same UDP port under two names.\<close>

definition twice_config :: config where
  "twice_config = sample_config\<lparr>cfg_capacity_demand := None, cfg_data_ports :=
     Some [\<lparr>dp_port = 7777, dp_protocol = Udp, dp_name = ''a''\<rparr>, \<lparr>dp_port = 7777, dp_protocol = Udp, dp_name = ''b''\<rparr>]\<rparr>"

text \<open>
  C35. The data proxy binds its ports in order and stops at the first one that cannot be bound while those
  before it are bound: it then fails with the error that names that port, the ports before it stay bound and
  served, and none after it is tried. It fails for no other reason: if each port can be bound in its turn, it
  serves with all of them (or returns, where there is none). So a configuration with the same port and
  protocol twice, which validation accepts, never serves.
\<close>

theorem data_proxy_serves_all_or_fails:
  assumes "exclusive can_bind" and "run_data_proxy can_bind cfg bound = (r, bound')" and "distinct bound"
    and ports: "ports = get_data_ports cfg"
  shows "(\<exists>k \<le> length ports. bound' = bound @ port_listeners (take k ports)
        \<and> (\<forall>i < k. can_bind (bound @ port_listeners (take i ports)) (listener_of (ports ! i)))
        \<and> (if k < length ports
           then \<not> can_bind bound' (listener_of (ports ! k)) \<and> r = Fails (BindFailed (dp_port (ports ! k)))
           else r = (if ports = [] then Returns else Serves)))
    \<and> ((\<exists>e. r = Fails e) \<longleftrightarrow>
        (\<exists>i < length ports. \<not> can_bind (bound @ port_listeners (take i ports)) (listener_of (ports ! i))))
    \<and> (r = Serves \<longrightarrow> bound' = bound @ port_listeners ports \<and> distinct bound')
    \<and> (\<not> distinct (port_listeners ports) \<longrightarrow> (\<exists>e. r = Fails e))"
proof -
  obtain r' b where b: "bind_data_ports can_bind ports bound = (r', b)" by force
  have out: "bound' = b" "r = (case r' of Inl e \<Rightarrow> Fails e | Inr _ \<Rightarrow> if ports = [] then Returns else Serves)"
    using assms(2) b by (auto simp: run_data_proxy_def ports [symmetric] Let_def split: sum.splits)
  have ok: "distinct bound'"
    using bind_data_ports_distinct [OF assms(1) b assms(3)] out(1) by simp
  obtain k where k: "k \<le> length ports" "bound' = bound @ port_listeners (take k ports)"
    "\<forall>i < k. can_bind (bound @ port_listeners (take i ports)) (listener_of (ports ! i))"
    "if k < length ports then \<not> can_bind bound' (listener_of (ports ! k)) \<and> r' = Inl (BindFailed (dp_port (ports ! k)))
     else r' = Inr ()"
    using bind_data_ports_exact [OF b] unfolding out(1) by blast
  have r: "if k < length ports then \<not> can_bind bound' (listener_of (ports ! k)) \<and> r = Fails (BindFailed (dp_port (ports ! k)))
      else r = (if ports = [] then Returns else Serves)"
    using k(4) by (auto simp: out(2))
  have fails: "(\<exists>e. r = Fails e) \<longleftrightarrow> k < length ports" using r by (auto split: if_splits)
  have "(\<exists>i < length ports. \<not> can_bind (bound @ port_listeners (take i ports)) (listener_of (ports ! i)))
      \<longleftrightarrow> k < length ports"
  proof
    assume "\<exists>i < length ports. \<not> can_bind (bound @ port_listeners (take i ports)) (listener_of (ports ! i))"
    then obtain i where "i < length ports" "\<not> i < k" using k(3) by blast
    then show "k < length ports" by simp
  next
    assume "k < length ports"
    moreover from this have "\<not> can_bind (bound @ port_listeners (take k ports)) (listener_of (ports ! k))"
      using r unfolding k(2) by auto
    ultimately show "\<exists>i < length ports. \<not> can_bind (bound @ port_listeners (take i ports)) (listener_of (ports ! i))"
      by blast
  qed
  moreover have "r = Serves \<longrightarrow> bound' = bound @ port_listeners ports \<and> distinct bound'"
    using ok k(1,2) r by (auto split: if_splits)
  moreover have "k < length ports" if "\<not> distinct (port_listeners ports)"
  proof (rule ccontr)
    assume "\<not> k < length ports"
    then show False using that ok k(1) by (simp add: k(2))
  qed
  ultimately have rest: "((\<exists>e. r = Fails e) \<longleftrightarrow>
        (\<exists>i < length ports. \<not> can_bind (bound @ port_listeners (take i ports)) (listener_of (ports ! i))))
    \<and> (r = Serves \<longrightarrow> bound' = bound @ port_listeners ports \<and> distinct bound')
    \<and> (\<not> distinct (port_listeners ports) \<longrightarrow> (\<exists>e. r = Fails e))" using fails by blast
  show ?thesis by (intro conjI [OF _ rest] exI [of _ k] conjI k(1-3) r)
qed

lemma data_proxy_serves_all_or_fails_witness:
  "validate (\<lambda>_. None) twice_config = Inr ()
   \<and> run_data_proxy free_ports twice_config [] = (Fails (BindFailed 7777), [(7777, Udp)])
   \<and> (\<exists>e. fst (run_data_proxy free_ports twice_config []) = Fails e)"
proof -
  have run: "run_data_proxy free_ports twice_config [] = (Fails (BindFailed 7777), [(7777, Udp)])"
    by (simp add: run_data_proxy_def twice_config_def get_data_ports_def free_ports_def Let_def)
  have "\<not> distinct (port_listeners (get_data_ports twice_config))"
    by (simp add: twice_config_def get_data_ports_def)
  then have "\<exists>e. Fails (BindFailed 7777) = Fails e"
    using data_proxy_serves_all_or_fails [OF free_ports_exclusive run _ refl] by simp
  moreover have "validate (\<lambda>_. None) twice_config = Inr ()"
    by (simp add: validate_def twice_config_def sample_config_defs get_data_ports_def Let_def)
  ultimately show ?thesis using run by simp
qed

end
