(* ===== verification/Metrics.thy ===== *)
theory Metrics
  imports Prelude Errors Complex_Main
begin

text \<open>
  \<open>src/metrics.rs\<close> and \<open>src/metrics_server.rs\<close>: the metric families, the recording functions and the
  HTTP endpoint. A recording function is the list of the library calls it makes. A family is a lazy static: its
  first use registers it, with an \<open>unwrap\<close>. The Prometheus library is a parameter (\<open>prometheus\<close>): what it
  registers, and which label values it accepts; \<open>documented\<close> is what its documentation promises. Bucket bounds
  are the exact decimals of the source, measured values are of a type parameter.
\<close>

section \<open>Metric families\<close>

datatype metric_kind =
    IntGauge
  | Gauge
  | IntCounterVec
  | IntGaugeVec
  | GaugeVec
  | HistogramVec "rat list"

record metric =
  m_name :: string
  m_help :: string
  m_kind :: metric_kind
  m_labels :: "string list"

definition ACTIVE_SESSIONS :: metric where
  "ACTIVE_SESSIONS = \<lparr>m_name = ''udp_director_active_sessions'',
     m_help = ''Number of active UDP sessions'',
     m_kind = IntGauge, m_labels = []\<rparr>"

definition TOTAL_SESSIONS :: metric where
  "TOTAL_SESSIONS = \<lparr>m_name = ''udp_director_total_sessions'',
     m_help = ''Total number of sessions created'',
     m_kind = IntCounterVec, m_labels = [''session_type'']\<rparr>"

definition SESSION_DURATION :: metric where
  "SESSION_DURATION = \<lparr>m_name = ''udp_director_session_duration_seconds'',
     m_help = ''Duration of sessions in seconds'',
     m_kind = HistogramVec [1, 5, 10, 30, 60, 300, 600, 1800, 3600], m_labels = [''session_type'']\<rparr>"

definition PACKETS_RECEIVED :: metric where
  "PACKETS_RECEIVED = \<lparr>m_name = ''udp_director_packets_received_total'',
     m_help = ''Total number of packets received'',
     m_kind = IntCounterVec, m_labels = [''source'']\<rparr>"

definition PACKETS_SENT :: metric where
  "PACKETS_SENT = \<lparr>m_name = ''udp_director_packets_sent_total'',
     m_help = ''Total number of packets sent'',
     m_kind = IntCounterVec, m_labels = [''destination'']\<rparr>"

definition BYTES_RECEIVED :: metric where
  "BYTES_RECEIVED = \<lparr>m_name = ''udp_director_bytes_received_total'',
     m_help = ''Total bytes received'',
     m_kind = IntCounterVec, m_labels = [''source'']\<rparr>"

definition BYTES_SENT :: metric where
  "BYTES_SENT = \<lparr>m_name = ''udp_director_bytes_sent_total'',
     m_help = ''Total bytes sent'',
     m_kind = IntCounterVec, m_labels = [''destination'']\<rparr>"

definition PACKET_SIZE :: metric where
  "PACKET_SIZE = \<lparr>m_name = ''udp_director_packet_size_bytes'',
     m_help = ''Size of packets in bytes'',
     m_kind = HistogramVec [64, 128, 256, 512, 1024, 2048, 4096, 8192, 16384], m_labels = [''direction'']\<rparr>"

definition QUERY_REQUESTS :: metric where
  "QUERY_REQUESTS = \<lparr>m_name = ''udp_director_query_requests_total'',
     m_help = ''Total number of query requests'',
     m_kind = IntCounterVec, m_labels = [''status'']\<rparr>"

definition QUERY_DURATION :: metric where
  "QUERY_DURATION = \<lparr>m_name = ''udp_director_query_duration_seconds'',
     m_help = ''Duration of query processing'',
     m_kind = HistogramVec [1 / 1000, 5 / 1000, 1 / 100, 25 / 1000, 5 / 100, 1 / 10, 25 / 100, 5 / 10, 1], m_labels = [''status'']\<rparr>"

definition K8S_QUERIES :: metric where
  "K8S_QUERIES = \<lparr>m_name = ''udp_director_k8s_queries_total'',
     m_help = ''Kubernetes API queries'',
     m_kind = IntCounterVec, m_labels = [''resource_type'', ''status'']\<rparr>"

definition K8S_QUERY_DURATION :: metric where
  "K8S_QUERY_DURATION = \<lparr>m_name = ''udp_director_k8s_query_duration_seconds'',
     m_help = ''Duration of Kubernetes queries'',
     m_kind = HistogramVec [1 / 100, 5 / 100, 1 / 10, 25 / 100, 5 / 10, 1, 25 / 10, 5, 10], m_labels = [''resource_type'']\<rparr>"

definition DEFAULT_ENDPOINT_AVAILABLE :: metric where
  "DEFAULT_ENDPOINT_AVAILABLE = \<lparr>m_name = ''udp_director_default_endpoint_available'',
     m_help = ''Whether default endpoint is available (1=yes, 0=no)'',
     m_kind = IntGauge, m_labels = []\<rparr>"

definition AVAILABLE_RESOURCES :: metric where
  "AVAILABLE_RESOURCES = \<lparr>m_name = ''udp_director_available_resources'',
     m_help = ''Number of available resources by type'',
     m_kind = IntGaugeVec, m_labels = [''resource_type'', ''namespace'']\<rparr>"

definition ERRORS :: metric where
  "ERRORS = \<lparr>m_name = ''udp_director_errors_total'',
     m_help = ''Total errors by type'',
     m_kind = IntCounterVec, m_labels = [''error_type'', ''component'']\<rparr>"

definition SESSION_AGE :: metric where
  "SESSION_AGE = \<lparr>m_name = ''udp_director_session_age_seconds'',
     m_help = ''Age of active sessions in seconds'',
     m_kind = GaugeVec, m_labels = [''client_addr'']\<rparr>"

definition UNIQUE_CLIENTS :: metric where
  "UNIQUE_CLIENTS = \<lparr>m_name = ''udp_director_unique_clients'',
     m_help = ''Number of unique client addresses'',
     m_kind = IntGauge, m_labels = []\<rparr>"

definition UPTIME_SECONDS :: metric where
  "UPTIME_SECONDS = \<lparr>m_name = ''udp_director_uptime_seconds'',
     m_help = ''Server uptime in seconds'',
     m_kind = Gauge, m_labels = []\<rparr>"

definition all_metrics :: "metric list" where
  "all_metrics =
     [ACTIVE_SESSIONS, TOTAL_SESSIONS, SESSION_DURATION, PACKETS_RECEIVED, PACKETS_SENT,
      BYTES_RECEIVED, BYTES_SENT, PACKET_SIZE, QUERY_REQUESTS, QUERY_DURATION,
      K8S_QUERIES, K8S_QUERY_DURATION, DEFAULT_ENDPOINT_AVAILABLE, AVAILABLE_RESOURCES, ERRORS,
      SESSION_AGE, UNIQUE_CLIENTS, UPTIME_SECONDS]"

lemmas metric_defs = ACTIVE_SESSIONS_def TOTAL_SESSIONS_def SESSION_DURATION_def PACKETS_RECEIVED_def PACKETS_SENT_def
  BYTES_RECEIVED_def BYTES_SENT_def PACKET_SIZE_def QUERY_REQUESTS_def QUERY_DURATION_def
  K8S_QUERIES_def K8S_QUERY_DURATION_def DEFAULT_ENDPOINT_AVAILABLE_def AVAILABLE_RESOURCES_def ERRORS_def
  SESSION_AGE_def UNIQUE_CLIENTS_def UPTIME_SECONDS_def

section \<open>Recording\<close>

datatype 'f metric_op = Inc | IncBy u64 | Dec | SetInt i64 | SetFloat 'f | Observe 'f

text \<open>A library call: the family, the label values (none for a family without labels) and the method.\<close>

type_synonym 'f metric_call = "metric \<times> string list \<times> 'f metric_op"

definition record_session_start :: "string \<Rightarrow> 'f metric_call list" where
  "record_session_start session_type =
     [(TOTAL_SESSIONS, [session_type], Inc), (ACTIVE_SESSIONS, [], Inc)]"

definition record_session_end :: "string \<Rightarrow> 'f \<Rightarrow> 'f metric_call list" where
  "record_session_end session_type duration_seconds =
     [(ACTIVE_SESSIONS, [], Dec), (SESSION_DURATION, [session_type], Observe duration_seconds)]"

text \<open>\<open>as_f64\<close> is the cast \<open>size as f64\<close>; \<open>usize\<close> has 64 bits.\<close>

definition record_packet_received :: "(u64 \<Rightarrow> 'f) \<Rightarrow> string \<Rightarrow> u64 \<Rightarrow> 'f metric_call list" where
  "record_packet_received as_f64 src n =
     [(PACKETS_RECEIVED, [src], Inc), (BYTES_RECEIVED, [src], IncBy n),
      (PACKET_SIZE, [''inbound''], Observe (as_f64 n))]"

definition record_packet_sent :: "(u64 \<Rightarrow> 'f) \<Rightarrow> string \<Rightarrow> u64 \<Rightarrow> 'f metric_call list" where
  "record_packet_sent as_f64 destination n =
     [(PACKETS_SENT, [destination], Inc), (BYTES_SENT, [destination], IncBy n),
      (PACKET_SIZE, [''outbound''], Observe (as_f64 n))]"

definition record_query_request :: "string \<Rightarrow> 'f \<Rightarrow> 'f metric_call list" where
  "record_query_request status duration_seconds =
     [(QUERY_REQUESTS, [status], Inc), (QUERY_DURATION, [status], Observe duration_seconds)]"

definition record_k8s_query :: "string \<Rightarrow> string \<Rightarrow> 'f \<Rightarrow> 'f metric_call list" where
  "record_k8s_query resource_type status duration_seconds =
     [(K8S_QUERIES, [resource_type, status], Inc), (K8S_QUERY_DURATION, [resource_type], Observe duration_seconds)]"

definition record_error :: "string \<Rightarrow> string \<Rightarrow> 'f metric_call list" where
  "record_error error_type component = [(ERRORS, [error_type, component], Inc)]"

definition update_default_endpoint_available :: "bool \<Rightarrow> 'f metric_call list" where
  "update_default_endpoint_available available =
     [(DEFAULT_ENDPOINT_AVAILABLE, [], SetInt (if available then 1 else 0))]"

definition update_available_resources :: "string \<Rightarrow> string \<Rightarrow> i64 \<Rightarrow> 'f metric_call list" where
  "update_available_resources resource_type namespace count =
     [(AVAILABLE_RESOURCES, [resource_type, namespace], SetInt count)]"

datatype 'f recording =
    SessionStart string
  | SessionEnd string 'f
  | PacketReceived string u64
  | PacketSent string u64
  | QueryRequest string 'f
  | K8sQuery string string 'f
  | ErrorSeen string string
  | EndpointAvailable bool
  | ResourcesAvailable string string i64

fun calls_of :: "(u64 \<Rightarrow> 'f) \<Rightarrow> 'f recording \<Rightarrow> 'f metric_call list" where
  "calls_of as_f64 (SessionStart ty) = record_session_start ty"
| "calls_of as_f64 (SessionEnd ty d) = record_session_end ty d"
| "calls_of as_f64 (PacketReceived src n) = record_packet_received as_f64 src n"
| "calls_of as_f64 (PacketSent dst n) = record_packet_sent as_f64 dst n"
| "calls_of as_f64 (QueryRequest status d) = record_query_request status d"
| "calls_of as_f64 (K8sQuery rt status d) = record_k8s_query rt status d"
| "calls_of as_f64 (ErrorSeen ty c) = record_error ty c"
| "calls_of as_f64 (EndpointAvailable b) = update_default_endpoint_available b"
| "calls_of as_f64 (ResourcesAvailable rt ns n) = update_available_resources rt ns n"

section \<open>The registry\<close>

record prometheus =
  registers :: "metric \<Rightarrow> metric list \<Rightarrow> bool"
  label_values_ok :: "metric \<Rightarrow> string list \<Rightarrow> bool"

definition is_vec :: "metric_kind \<Rightarrow> bool" where
  "is_vec k \<longleftrightarrow> (case k of IntGauge \<Rightarrow> False | Gauge \<Rightarrow> False | _ \<Rightarrow> True)"

text \<open>The first use of a family registers it; \<open>unwrap\<close> and \<open>with_label_values\<close> may panic.\<close>

definition force_family :: "prometheus \<Rightarrow> metric \<Rightarrow> metric list \<Rightarrow> error + metric list" where
  "force_family lib m registered =
     (if m \<in> set registered then Inr registered
      else if registers lib m registered then Inr (registered @ [m]) else Inl Panic)"

fun run_call :: "prometheus \<Rightarrow> 'f metric_call \<Rightarrow> metric list \<Rightarrow> error + metric list" where
  "run_call lib (m, vals, op) registered =
     and_then (force_family lib m registered) (\<lambda>registered'.
       if is_vec (m_kind m) \<and> \<not> label_values_ok lib m vals then Inl Panic else Inr registered')"

fun run_calls :: "prometheus \<Rightarrow> 'f metric_call list \<Rightarrow> metric list \<Rightarrow> error + metric list" where
  "run_calls lib [] registered = Inr registered"
| "run_calls lib (c # cs) registered = and_then (run_call lib c registered) (run_calls lib cs)"

text \<open>
  \<open>encode\<close> is the text encoder, which may fail, \<open>utf8\<close> the check of \<open>String::from_utf8\<close>; both are unwrapped.
\<close>

definition gather_metrics ::
  "(metric list \<Rightarrow> string option) \<Rightarrow> (string \<Rightarrow> bool) \<Rightarrow> metric list \<Rightarrow> error + string" where
  "gather_metrics encode utf8 registered =
     and_then (ok_or Panic (encode registered)) (\<lambda>buffer. if utf8 buffer then Inr buffer else Inl Panic)"

section \<open>The HTTP endpoint\<close>

record http_response =
  hr_status :: nat
  hr_content_type :: "string option"
  hr_body :: string

definition handle_request :: "(unit \<Rightarrow> error + string) \<Rightarrow> string \<Rightarrow> error + http_response" where
  "handle_request gather path =
     (if path = ''/metrics'' then
        and_then (gather ()) (\<lambda>body.
          Inr \<lparr>hr_status = 200, hr_content_type = Some ''text/plain; version=0.0.4'', hr_body = body\<rparr>)
      else if path = ''/health'' then
        Inr \<lparr>hr_status = 200, hr_content_type = None, hr_body = ''OK''\<rparr>
      else Inr \<lparr>hr_status = 404, hr_content_type = None, hr_body = ''Not Found''\<rparr>)"

section \<open>What the library accepts\<close>

definition letter_char :: "char \<Rightarrow> bool" where
  "letter_char c \<longleftrightarrow> c \<in> set ''abcdefghijklmnopqrstuvwxyzABCDEFGHIJKLMNOPQRSTUVWXYZ_''"

definition name_char :: "char \<Rightarrow> bool" where
  "name_char c \<longleftrightarrow> letter_char c \<or> c \<in> set ''0123456789''"

definition valid_name :: "string \<Rightarrow> bool" where
  "valid_name s \<longleftrightarrow> (case s of [] \<Rightarrow> False | c # cs \<Rightarrow> letter_char c \<and> list_all name_char cs)"

text \<open>A family that can be registered: names, labels, and increasing buckets.\<close>

definition valid_metric :: "metric \<Rightarrow> bool" where
  "valid_metric m \<longleftrightarrow>
     valid_name (m_name m) \<and> m_help m \<noteq> [] \<and> list_all valid_name (m_labels m) \<and> distinct (m_labels m)
     \<and> (is_vec (m_kind m) \<longleftrightarrow> m_labels m \<noteq> [])
     \<and> (case m_kind m of HistogramVec buckets \<Rightarrow>
          buckets \<noteq> [] \<and> sorted_wrt (<) buckets \<and> ''le'' \<notin> set (m_labels m) | _ \<Rightarrow> True)"

definition documented :: "prometheus \<Rightarrow> bool" where
  "documented lib \<longleftrightarrow>
     (\<forall>m registered. valid_metric m \<and> m_name m \<notin> set (map m_name registered) \<longrightarrow> registers lib m registered)
     \<and> (\<forall>m vals. length vals = length (m_labels m) \<longrightarrow> label_values_ok lib m vals)"

text \<open>Which methods a family of a kind has.\<close>

fun has_method :: "metric_kind \<Rightarrow> 'f metric_op \<Rightarrow> bool" where
  "has_method IntGauge op = (case op of Inc \<Rightarrow> True | Dec \<Rightarrow> True | SetInt _ \<Rightarrow> True | _ \<Rightarrow> False)"
| "has_method Gauge op = (case op of SetFloat _ \<Rightarrow> True | _ \<Rightarrow> False)"
| "has_method IntCounterVec op = (case op of Inc \<Rightarrow> True | IncBy _ \<Rightarrow> True | _ \<Rightarrow> False)"
| "has_method IntGaugeVec op = (case op of SetInt _ \<Rightarrow> True | _ \<Rightarrow> False)"
| "has_method GaugeVec op = (case op of SetFloat _ \<Rightarrow> True | _ \<Rightarrow> False)"
| "has_method (HistogramVec _) op = (case op of Observe _ \<Rightarrow> True | _ \<Rightarrow> False)"

definition well_typed :: "'f metric_call \<Rightarrow> bool" where
  "well_typed c \<longleftrightarrow> (case c of (m, vals, op) \<Rightarrow>
     m \<in> set all_metrics \<and> length vals = length (m_labels m) \<and> has_method (m_kind m) op)"

lemma all_metrics_valid: "list_all valid_metric all_metrics"
  by code_simp

lemma all_metrics_distinct: "distinct (map m_name all_metrics)"
  by code_simp

lemma calls_well_typed: "list_all well_typed (calls_of as_f64 r)"
  by (cases r)
     (simp_all add: well_typed_def all_metrics_def record_session_start_def record_session_end_def
       record_packet_received_def record_packet_sent_def record_query_request_def record_k8s_query_def
       record_error_def update_default_endpoint_available_def update_available_resources_def metric_defs)

definition registry_ok :: "metric list \<Rightarrow> bool" where
  "registry_ok registered \<longleftrightarrow> set registered \<subseteq> set all_metrics \<and> distinct (map m_name registered)"

lemma run_call_ok:
  assumes "documented lib" and "well_typed c" and "registry_ok registered"
  obtains registered' where "run_call lib c registered = Inr registered'" "registry_ok registered'"
    "set registered' = insert (fst c) (set registered)"
proof -
  obtain m vals op where c: "c = (m, vals, op)" by (cases c) auto
  have m: "m \<in> set all_metrics" "label_values_ok lib m vals"
    using assms(1,2) by (auto simp: well_typed_def c documented_def)
  show thesis
  proof (cases "m \<in> set registered")
    case True
    then show thesis using that [of registered] assms(3) m by (auto simp: c force_family_def)
  next
    case False
    have new: "m_name m \<notin> set (map m_name registered)"
    proof
      assume "m_name m \<in> set (map m_name registered)"
      then obtain m' where "m' \<in> set registered" "m_name m' = m_name m" by auto
      then have "m' = m" using m(1) assms(3) all_metrics_distinct
        by (auto simp: registry_ok_def distinct_map dest: inj_onD)
      with False \<open>m' \<in> set registered\<close> show False by simp
    qed
    moreover have "valid_metric m" using m(1) all_metrics_valid by (auto simp: list_all_iff)
    ultimately have "registers lib m registered" using assms(1) by (simp add: documented_def)
    then show thesis using that [of "registered @ [m]"] False m new assms(3)
      by (auto simp: c force_family_def registry_ok_def)
  qed
qed

lemma run_calls_ok:
  "documented lib \<Longrightarrow> list_all well_typed cs \<Longrightarrow> registry_ok registered \<Longrightarrow>
     \<exists>registered'. run_calls lib cs registered = Inr registered' \<and> registry_ok registered'
       \<and> set registered' = fst ` set cs \<union> set registered"
proof (induction cs arbitrary: registered)
  case (Cons c cs)
  have "well_typed c" using Cons.prems by simp
  from run_call_ok [OF Cons.prems(1) this Cons.prems(3)] obtain r where
    r: "run_call lib c registered = Inr r" "registry_ok r" "set r = insert (fst c) (set registered)" .
  with Cons.IH [OF Cons.prems(1) _ r(2)] Cons.prems(2) show ?case by auto
qed simp

section \<open>Properties\<close>

text \<open>
  C37. Recording metrics never panics: every recording function calls only registered families, each with a
  method its kind has and with one value per label of the family, and, the eighteen families having
  valid and different names, labels and increasing buckets, no first use of one fails. After any sequence of
  recordings, in any order and with any values, exactly the families that were used are registered, once each.
\<close>

theorem recording_never_panics:
  assumes "documented lib"
  shows "\<exists>registered. run_calls lib (concat (map (calls_of as_f64) recordings)) [] = Inr registered
    \<and> set registered = fst ` set (concat (map (calls_of as_f64) recordings))
    \<and> distinct (map m_name registered)
    \<and> list_all well_typed (concat (map (calls_of as_f64) recordings))"
proof -
  have typed: "list_all well_typed (concat (map (calls_of as_f64) recordings))"
    using calls_well_typed by (induction recordings) auto
  have "registry_ok []" by (simp add: registry_ok_def)
  from run_calls_ok [OF assms typed this] typed show ?thesis by (auto simp: registry_ok_def)
qed

text \<open>A library that accepts exactly what the documentation says.\<close>

definition strict_prometheus :: prometheus where
  "strict_prometheus =
     \<lparr>registers = (\<lambda>m registered. valid_metric m \<and> m_name m \<notin> set (map m_name registered)),
      label_values_ok = (\<lambda>m vals. length vals = length (m_labels m))\<rparr>"

lemma strict_prometheus_documented: "documented strict_prometheus"
  by (simp add: documented_def strict_prometheus_def)

lemma recording_never_panics_witness:
  "\<exists>registered. run_calls strict_prometheus
       (concat (map (calls_of unat) [SessionStart ''query'', K8sQuery ''pod'' ''error'' 3, SessionEnd ''query'' 10])) []
     = Inr registered \<and> TOTAL_SESSIONS \<in> set registered \<and> K8S_QUERY_DURATION \<in> set registered"
proof -
  from recording_never_panics [OF strict_prometheus_documented, of unat
      "[SessionStart ''query'', K8sQuery ''pod'' ''error'' 3, SessionEnd ''query'' 10]"]
  obtain registered where r: "run_calls strict_prometheus
       (concat (map (calls_of unat) [SessionStart ''query'', K8sQuery ''pod'' ''error'' 3, SessionEnd ''query'' 10])) []
     = Inr registered" "set registered = fst ` set
       (concat (map (calls_of unat) [SessionStart ''query'', K8sQuery ''pod'' ''error'' 3, SessionEnd ''query'' 10]))"
    by blast
  have "TOTAL_SESSIONS \<in> set registered" "K8S_QUERY_DURATION \<in> set registered"
    unfolding r(2) by (simp_all add: record_session_start_def record_k8s_query_def record_session_end_def)
  with r(1) show ?thesis by blast
qed

end
