(* ===== verification/Startup.thy ===== *)
theory Startup
  imports ResourceMonitor
begin

text \<open>
  The startup check of \<open>src/main.rs\<close>: \<open>verify_default_endpoint\<close> and its helpers query the default
  endpoint once and write what they find to the log. They decide nothing, so what they do is what they
  report: each log statement is a constructor of \<open>report\<close>, and the functions return the reports in
  order. A panic of the extraction ends the program before it serves. The properties compare
  the reports with what the data proxy does when clients come.
\<close>

section \<open>Reports\<close>

datatype report =
    EndpointHeader | ResourceType string | Namespace string
  | LabelSelectorHeader | SelectedLabel string string
  | StatusHeader | StatusPath string | StatusValues "string list"
  | TypeNotFound string | Misconfigured
  | MappingFound | MappingGroup string | MappingResource string
  | NoMatchingResources | ClientsWillFail
  | FoundResources nat | SelectedResource string
  | DefaultTargetPorts string nat | NamedPort string u16 | PortsFailed error
  | DefaultTarget string u16 | PortFailed error | AddressFailed error
  | QueryFailed error | QueryNamespace string | QueryResource string string string | CheckPermissions
  | EndRule

definition log_endpoint_config :: "default_endpoint \<Rightarrow> report list" where
  "log_endpoint_config endpoint =
     [EndpointHeader, ResourceType (de_resource_type endpoint), Namespace (de_namespace endpoint)]
     @ (case de_label_selector endpoint of
          Some labels \<Rightarrow> LabelSelectorHeader # map (\<lambda>(key, v). SelectedLabel key v) labels
        | None \<Rightarrow> [])
     @ (case de_status_query endpoint of
          Some q \<Rightarrow> [StatusHeader, StatusPath (sq_json_path q), StatusValues (sq_expected_values q)]
        | None \<Rightarrow> [])"

definition log_resource_mapping :: "resource_mapping \<Rightarrow> report list" where
  "log_resource_mapping mapping =
     [MappingFound, MappingGroup (rm_group mapping), MappingResource (rm_resource mapping)]"

text \<open>\<open>logged\<close>: an error is written to the log, a panic is not caught.\<close>

definition logged :: "(error \<Rightarrow> report list) \<Rightarrow> ('a \<Rightarrow> error + report list) \<Rightarrow> error + 'a \<Rightarrow> error + report list" where
  "logged failed ok r = (case r of Inl Panic \<Rightarrow> Inl Panic | Inl e \<Rightarrow> Inr (failed e) | Inr x \<Rightarrow> ok x)"

definition extract_and_log_target :: "dynamic_object \<Rightarrow> resource_mapping \<Rightarrow> string \<Rightarrow> error + report list" where
  "extract_and_log_target resource mapping address_path =
     logged (\<lambda>e. [AddressFailed e]) (\<lambda>address.
       case rm_ports mapping of
         Some port_mappings \<Rightarrow>
           logged (\<lambda>e. [PortsFailed e])
             (\<lambda>ports. Inr (DefaultTargetPorts address (length ports) # map (\<lambda>(name, port). NamedPort name port) ports))
             (extract_ports resource port_mappings)
       | None \<Rightarrow>
           logged (\<lambda>e. [PortFailed e]) (\<lambda>port. Inr [DefaultTarget address port])
             (extract_port resource (rm_port_path mapping) (rm_port_name mapping)))
       (extract_address resource address_path (rm_address_type mapping))"

definition handle_query_success :: "dynamic_object list \<Rightarrow> resource_mapping \<Rightarrow> error + report list" where
  "handle_query_success resources mapping =
     (case resources of
        [] \<Rightarrow> Inr [NoMatchingResources, ClientsWillFail]
      | resource # _ \<Rightarrow>
          let resource_name = (case om_name (do_metadata resource) of None \<Rightarrow> ''unknown'' | Some n \<Rightarrow> n);
              found = [FoundResources (length resources), SelectedResource resource_name] in
          (case rm_address_path mapping of
             Some address_path \<Rightarrow>
               and_then (extract_and_log_target resource mapping address_path) (\<lambda>target. Inr (found @ target))
           | None \<Rightarrow> Inr found))"

definition handle_query_error :: "error \<Rightarrow> default_endpoint \<Rightarrow> resource_mapping \<Rightarrow> report list" where
  "handle_query_error e endpoint mapping =
     [QueryFailed e, QueryNamespace (de_namespace endpoint),
      QueryResource (rm_group mapping) (rm_version mapping) (rm_resource mapping), CheckPermissions, ClientsWillFail]"

definition verify_default_endpoint :: "config \<Rightarrow> k8s_api \<Rightarrow> error + report list" where
  "verify_default_endpoint cfg api =
     (let default_endpoint = get_default_endpoint cfg;
          intro = log_endpoint_config default_endpoint in
      case hm_get (cfg_resource_query_mapping cfg) (de_resource_type default_endpoint) of
        None \<Rightarrow> Inr (intro @ [TypeNotFound (de_resource_type default_endpoint), Misconfigured, EndRule])
      | Some mapping \<Rightarrow>
          and_then (logged (\<lambda>e. handle_query_error e default_endpoint mapping)
              (\<lambda>resources. handle_query_success resources mapping)
              (endpoint_resources api default_endpoint mapping)) (\<lambda>outcome.
            Inr (intro @ log_resource_mapping mapping @ outcome @ [EndRule])))"

section \<open>What the reports say\<close>

lemma logged_ok [simp]: "logged failed ok (Inr x) = ok x"
  by (simp add: logged_def)

lemma logged_Inr:
  assumes "logged failed ok r = Inr out"
  obtains (failed) e where "r = Inl e" "e \<noteq> Panic" "out = failed e" | (ok) x where "r = Inr x" "ok x = Inr out"
  using assms by (cases r) (auto simp: logged_def split: error.splits)

lemma intro_reports [simp]:
  "ClientsWillFail \<notin> set (log_endpoint_config de)" "Misconfigured \<notin> set (log_endpoint_config de)"
  "DefaultTarget a p \<notin> set (log_endpoint_config de)"
  by (auto simp: log_endpoint_config_def split: option.splits)

lemma success_reports:
  assumes "handle_query_success resources mapping = Inr out"
  shows "(DefaultTarget a p \<in> set out \<longrightarrow> (\<exists>r rs path. resources = r # rs \<and> rm_address_path mapping = Some path
            \<and> rm_ports mapping = None \<and> extract_address r path (rm_address_type mapping) = Inr a
            \<and> extract_port r (rm_port_path mapping) (rm_port_name mapping) = Inr p))
    \<and> (ClientsWillFail \<in> set out \<longrightarrow> resources = []) \<and> Misconfigured \<notin> set out"
proof -
  have target: "(DefaultTarget a p \<in> set t \<longrightarrow> rm_ports mapping = None
        \<and> extract_address r path (rm_address_type mapping) = Inr a
        \<and> extract_port r (rm_port_path mapping) (rm_port_name mapping) = Inr p)
      \<and> ClientsWillFail \<notin> set t \<and> Misconfigured \<notin> set t"
    if "extract_and_log_target r mapping path = Inr t" for r path t
    using that by (auto simp: extract_and_log_target_def elim!: logged_Inr split: option.splits)
  show ?thesis
  proof (cases resources)
    case (Cons r rs)
    show ?thesis
    proof (cases "rm_address_path mapping")
      case (Some path)
      then obtain t where "extract_and_log_target r mapping path = Inr t"
        and "set out \<subseteq> {FoundResources (length resources), SelectedResource
            (case om_name (do_metadata r) of None \<Rightarrow> ''unknown'' | Some n \<Rightarrow> n)} \<union> set t"
        using assms by (auto simp: handle_query_success_def Cons Let_def result_simps)
      with target [of r path t] show ?thesis by (auto simp: Cons Some)
    qed (use assms Cons in \<open>auto simp: handle_query_success_def Let_def\<close>)
  qed (use assms in \<open>auto simp: handle_query_success_def\<close>)
qed

lemma verify_cases:
  assumes "verify_default_endpoint cfg api = Inr reports"
  obtains (unknown) "hm_get (cfg_resource_query_mapping cfg) (de_resource_type (get_default_endpoint cfg)) = None"
      "DefaultTarget a p \<notin> set reports"
  | (failed) mapping e where
      "hm_get (cfg_resource_query_mapping cfg) (de_resource_type (get_default_endpoint cfg)) = Some mapping"
      "endpoint_resources api (get_default_endpoint cfg) mapping = Inl e" "DefaultTarget a p \<notin> set reports"
  | (found) mapping resources out where
      "hm_get (cfg_resource_query_mapping cfg) (de_resource_type (get_default_endpoint cfg)) = Some mapping"
      "endpoint_resources api (get_default_endpoint cfg) mapping = Inr resources"
      "handle_query_success resources mapping = Inr out"
      "\<And>a p. DefaultTarget a p \<in> set reports \<longleftrightarrow> DefaultTarget a p \<in> set out"
      "ClientsWillFail \<in> set reports \<longleftrightarrow> ClientsWillFail \<in> set out" "Misconfigured \<notin> set reports"
proof -
  let ?de = "get_default_endpoint cfg"
  show thesis
  proof (cases "hm_get (cfg_resource_query_mapping cfg) (de_resource_type ?de)")
    case None
    then show thesis using assms
      by (intro unknown) (auto simp: verify_default_endpoint_def Let_def)
  next
    case (Some mapping)
    then obtain out where out: "logged (\<lambda>e. handle_query_error e ?de mapping)
        (\<lambda>resources. handle_query_success resources mapping) (endpoint_resources api ?de mapping) = Inr out"
      and reports: "reports = log_endpoint_config ?de @ log_resource_mapping mapping @ out @ [EndRule]"
      using assms by (auto simp: verify_default_endpoint_def Let_def result_simps)
    have in_out: "rep \<in> set reports \<longleftrightarrow> rep \<in> set out"
      if "rep \<in> {ClientsWillFail, Misconfigured} \<union> range (case_prod DefaultTarget)" for rep
      using that unfolding reports
      by (auto simp: log_resource_mapping_def)
    show thesis using out
    proof (cases rule: logged_Inr)
      case (failed e)
      then have "DefaultTarget a p \<notin> set reports" using in_out [of "DefaultTarget a p"]
        by (force simp: handle_query_error_def)
      with failed Some show thesis by (intro that(2))
    next
      case (ok resources)
      have "Misconfigured \<notin> set reports" using in_out [of Misconfigured] success_reports [OF ok(2)] by simp
      with ok Some in_out show thesis by (intro that(3)) (auto simp: image_iff)
    qed
  qed
qed

section \<open>What the proxy does then\<close>

text \<open>The number of resources reported is the number listed.\<close>

lemma target_no_count: "extract_and_log_target r mapping path = Inr out \<Longrightarrow> FoundResources n \<notin> set out"
  by (auto simp: extract_and_log_target_def elim!: logged_Inr split: option.splits)

lemma found_count:
  assumes "verify_default_endpoint cfg api = Inr reports" and "FoundResources n \<in> set reports"
    and "hm_get (cfg_resource_query_mapping cfg) (de_resource_type (get_default_endpoint cfg)) = Some mapping"
    and "endpoint_resources api (get_default_endpoint cfg) mapping = Inr resources"
  shows "length resources = n"
proof -
  obtain out where out: "handle_query_success resources mapping = Inr out"
    and reports: "reports = log_endpoint_config (get_default_endpoint cfg) @ log_resource_mapping mapping @ out @ [EndRule]"
    using assms(1,3,4) by (auto simp: verify_default_endpoint_def Let_def result_simps)
  have "FoundResources n \<in> set out"
    using assms(2) by (auto simp: reports log_endpoint_config_def log_resource_mapping_def split: option.splits)
  then show ?thesis using out
    by (auto simp: handle_query_success_def Let_def result_simps dest: target_no_count
        split: list.splits option.splits)
qed

text \<open>Whether a part of a path panics does not depend on the value it is looked up in.\<close>

lemma path_part_panics_anywhere: "path_part j part = Inl e \<Longrightarrow> path_part j' part = Inl e"
  by (auto simp: path_part_def and_then_Inl_iff ok_or_Inl_iff split: option.splits)

lemma walk_path_reads_all:
  "walk_path j parts = Inr (Some v) \<Longrightarrow> part \<in> set parts \<Longrightarrow> path_part j' part \<noteq> Inl e"
proof (induction parts arbitrary: j)
  case (Cons q parts)
  then obtain j1 where step: "path_part j q = Inr (Some j1)" "walk_path j1 parts = Inr (Some v)"
    by (auto simp: result_simps split: option.splits)
  show ?case
  proof (cases "part = q")
    case True
    then show ?thesis using step(1) path_part_panics_anywhere [of j' q e j] by auto
  next
    case False
    then show ?thesis using Cons.IH [OF step(2)] Cons.prems(2) by simp
  qed
qed simp

lemma address_panic: "extract_address r path ty = Inl Panic \<Longrightarrow> \<exists>j. extract_json_path j path = Inl Panic"
proof -
  have "(case ty of
      Some t \<Rightarrow> (case v of JArray addresses \<Rightarrow> ok_or (AddressTypeNotFound t) (find_address t addresses)
        | _ \<Rightarrow> Inl (AddressNotArray path))
    | None \<Rightarrow> (case v of JString s \<Rightarrow> Inr s | _ \<Rightarrow> Inl (AddressNotString path))) \<noteq> Inl Panic" for v
    by (cases v; cases ty) (simp_all add: ok_or_Inl_iff)
  then show "extract_address r path ty = Inl Panic \<Longrightarrow> \<exists>j. extract_json_path j path = Inl Panic"
    by (auto simp: extract_address_def and_then_Inl_iff ok_or_Inl_iff)
qed

lemma readable_no_panic: "extract_address r path ty = Inr a \<Longrightarrow> no_panic path ty rs"
proof -
  assume "extract_address r path ty = Inr a"
  then obtain j v where "walk_path j (split_on CHR ''.'' path) = Inr (Some v)"
    by (auto simp: extract_address_def extract_json_path_def result_simps)
  note reads = walk_path_reads_all [OF this]
  have "extract_address r' path ty \<noteq> Inl Panic" for r'
    using address_panic [of r' path ty] reads walk_path_panic unfolding extract_json_path_def by blast
  then show ?thesis by (simp add: no_panic_def list_all_iff)
qed

text \<open>With no session counted yet, least sessions takes the first resource.\<close>

lemma fresh_selection:
  assumes "extract_address r path ty = Inr a"
  shows "select_backend (lb_new LeastSessions) (r # rs) path ty = Inr r"
proof -
  have "\<exists>bs. least_backends (lb_new LeastSessions) path ty rs' = Inr bs" if "no_panic path ty rs'" for rs'
    using that
  proof (induction rs')
    case (Cons r rs')
    then obtain bs where "least_backends (lb_new LeastSessions) path ty rs' = Inr bs" by (auto simp: no_panic_def)
    with Cons.prems show ?case
      by (cases "extract_address r path ty") (auto simp: no_panic_def split: error.splits)
  qed simp
  then obtain bs where bs: "least_backends (lb_new LeastSessions) path ty rs = Inr bs"
    using readable_no_panic [OF assms] by blast
  have zero: "get_session_count (lb_new LeastSessions) b = 0" for b
    by (simp add: get_session_count_def lb_new_def)
  have "snd (snd b) = 0" if "b \<in> set bs" for b
    using that unfolding least_backends_Inr [OF bs] by (auto simp: set_map_filter sum_case_Some_iff zero)
  then have "first_least (\<lambda>(_, _, count). count) ((r, a, 0) # bs) = Some (r, a, 0 :: nat)"
    by (intro least.pick_unique) auto
  moreover have "lb_strategy_of (lb_new LeastSessions) = LeastSessions" by (simp add: lb_new_def)
  ultimately show ?thesis using assms bs zero
    by (simp add: select_backend_def select_least_sessions_def)
qed

lemma every_port_mapped:
  "p \<in> set ps \<or> hm_get m (dp_port p, dp_protocol p) = Some port \<Longrightarrow>
   hm_get (fold (\<lambda>p. hm_insert (dp_port p, dp_protocol p) port) ps m) (dp_port p, dp_protocol p) = Some port"
  by (induction ps arbitrary: m) auto

text \<open>
  Clients without a session, one after another, as the proxy's tasks establish their default sessions, and the
  checks of the resource monitor between them; the state is the proxy's, and the text of the last check.
\<close>

datatype endpoint_event = Arrival nat socket_addr data_port_config | MonitorCheck

fun default_sessions ::
  "config \<Rightarrow> k8s_api \<Rightarrow> endpoint_event list \<Rightarrow> data_proxy \<times> string option \<Rightarrow> data_proxy \<times> string option" where
  "default_sessions cfg api [] s = s"
| "default_sessions cfg api (Arrival now client p # events) (px, prev) =
     default_sessions cfg api events
       (snd (establish_default_session cfg api now client (dp_port p) (dp_protocol p) px), prev)"
| "default_sessions cfg api (MonitorCheck # events) (px, prev) =
     (let mo = snd (check_default_endpoint cfg api \<lparr>mo_last = prev, mo_cache = px_cache px\<rparr>) in
      default_sessions cfg api events (px\<lparr>px_cache := mo_cache mo\<rparr>, mo_last mo))"

text \<open>The next default session goes to the address \<open>a\<close> with the ports \<open>m\<close>.\<close>

definition routed_to :: "config \<Rightarrow> k8s_api \<Rightarrow> string \<Rightarrow> port_mappings \<Rightarrow> data_proxy \<Rightarrow> bool" where
  "routed_to cfg api a m px \<longleftrightarrow> isolated (px_store px)
     \<and> (px_cache px = None \<and> query_default_endpoint cfg api (px_lb px) = Inr (a, m)
        \<or> px_cache px = Some \<lparr>dc_address = a, dc_port_mappings = m\<rparr>)"

lemma routed_arrival:
  assumes all: "routed_to cfg api a m px" and port: "hm_get m (proxy_port, protocol) \<noteq> None"
    and px': "px' = snd (establish_default_session cfg api now client proxy_port protocol px)"
  shows "routed_to cfg api a m px'" "px_lb px' = increment_session a (px_lb px)"
    "route_of (px_store px') x = (if sa_ip client = sa_ip x then Some (a, m) else route_of (px_store px) x)"
proof -
  have iso: "isolated (px_store px)" using all by (simp add: routed_to_def)
  have px'_eq: "px_store px' = upsert_multi_port now client a m (px_store px)"
    "px_cache px' = Some \<lparr>dc_address = a, dc_port_mappings = m\<rparr>"
    "px_lb px' = increment_session a (px_lb px)"
    using all port unfolding px' routed_to_def
    by (auto simp: establish_default_session_def default_route_def Let_def)
  show "routed_to cfg api a m px'" using px'_eq isolated_upsert [OF iso] by (simp add: routed_to_def)
  show "px_lb px' = increment_session a (px_lb px)" by (rule px'_eq(3))
  show "route_of (px_store px') x = (if sa_ip client = sa_ip x then Some (a, m) else route_of (px_store px) x)"
    using routes.route_install [OF iso, where a = client and r = "(a, m)" and now = now and b = x]
    by (simp add: px'_eq(1))
qed

text \<open>
  Why it stays so: no check is still to come, or the last check saw what the next will see, or the answer does
  not depend on the counts.
\<close>

definition pinned ::
  "config \<Rightarrow> k8s_api \<Rightarrow> string \<Rightarrow> port_mappings \<Rightarrow> string \<Rightarrow> endpoint_event list \<Rightarrow> data_proxy \<times> string option \<Rightarrow> bool" where
  "pinned cfg api a m current events s \<longleftrightarrow>
     MonitorCheck \<notin> set events \<or> snd s = Some current
     \<or> lb_strategy_of (px_lb (fst s)) = LeastSessions
        \<and> (\<forall>lb. lb_strategy_of lb = LeastSessions \<longrightarrow> query_default_endpoint cfg api lb = Inr (a, m))"

lemma pinned_run:
  assumes ports: "\<And>p. p \<in> set (get_data_ports cfg) \<Longrightarrow> hm_get m (dp_port p, dp_protocol p) \<noteq> None"
    and check: "\<And>mo. snd (check_default_endpoint cfg api mo) = compare_target (Some current) mo"
  shows "routed_to cfg api a m (fst s) \<Longrightarrow> pinned cfg api a m current events s
    \<Longrightarrow> \<forall>now client p. Arrival now client p \<in> set events \<longrightarrow> p \<in> set (get_data_ports cfg)
    \<Longrightarrow> (\<exists>now p. Arrival now client p \<in> set events) \<or> route_of (px_store (fst s)) client = Some (a, m)
    \<Longrightarrow> route_of (px_store (fst (default_sessions cfg api events s))) client = Some (a, m)"
proof (induction events arbitrary: s)
  case (Cons e events)
  obtain px prev where s: "s = (px, prev)" by force
  show ?case
  proof (cases e)
    case (Arrival now c p)
    let ?px = "snd (establish_default_session cfg api now c (dp_port p) (dp_protocol p) px)"
    have p: "hm_get m (dp_port p, dp_protocol p) \<noteq> None" using Cons.prems(3) ports by (simp add: Arrival)
    note step = routed_arrival [OF Cons.prems(1) [unfolded s fst_conv] p refl, of now c]
    have "pinned cfg api a m current events (?px, prev)"
      using Cons.prems(2) step(2) by (auto simp: pinned_def s increment_session_def)
    moreover have "(\<exists>now p. Arrival now client p \<in> set events) \<or> route_of (px_store ?px) client = Some (a, m)"
      using Cons.prems(4) step(3) [of client] by (auto simp: Arrival s)
    ultimately show ?thesis using Cons.IH [of "(?px, prev)"] step(1) Cons.prems(3) by (simp add: Arrival s)
  next
    case MonitorCheck
    let ?mo = "\<lparr>mo_last = prev, mo_cache = px_cache px\<rparr>"
    let ?s = "(px\<lparr>px_cache := mo_cache (compare_target (Some current) ?mo)\<rparr>, Some current)"
    have last: "mo_last (compare_target (Some current) ?mo) = Some current" by (simp add: compare_target_iff)
    have "routed_to cfg api a m (fst ?s)"
      using Cons.prems(1,2) by (auto simp: pinned_def s MonitorCheck routed_to_def compare_target_iff)
    moreover have "pinned cfg api a m current events ?s" by (simp add: pinned_def)
    ultimately show ?thesis using Cons.IH [of ?s] Cons.prems(3,4)
      by (simp add: MonitorCheck s check last Let_def)
  qed
qed simp

lemma reported_target_query:
  assumes "verify_default_endpoint cfg api = Inr reports" and "DefaultTarget a port \<in> set reports"
  shows "query_default_endpoint cfg api (lb_new LeastSessions)
    = Inr (a, fold (\<lambda>p. hm_insert (dp_port p, dp_protocol p) port) (get_data_ports cfg) [])"
  using assms(1)
proof (cases rule: verify_cases [where a = a and p = port])
  case (found mapping resources out)
  then obtain r rs path where r: "resources = r # rs" "rm_address_path mapping = Some path" "rm_ports mapping = None"
    "extract_address r path (rm_address_type mapping) = Inr a"
    "extract_port r (rm_port_path mapping) (rm_port_name mapping) = Inr port"
    using assms(2) success_reports [OF found(3), of a port] by blast
  then show ?thesis using found(1,2) fresh_selection [OF r(4), of rs]
    by (simp add: query_default_endpoint_def extract_endpoint_target_multi_port_def)
qed (use assms(2) in simp_all)

text \<open>With one resource least sessions takes it whatever the counts are.\<close>

lemma single_selection:
  "extract_address r path ty = Inr a \<Longrightarrow> lb_strategy_of lb = LeastSessions \<Longrightarrow> select_backend lb [r] path ty = Inr r"
  by (simp add: select_backend_def select_least_sessions_def first_least_def)

lemma reported_target_single:
  assumes "verify_default_endpoint cfg api = Inr reports" and "DefaultTarget a port \<in> set reports"
    and "FoundResources 1 \<in> set reports" and "lb_strategy_of lb = LeastSessions"
  shows "query_default_endpoint cfg api lb
    = Inr (a, fold (\<lambda>p. hm_insert (dp_port p, dp_protocol p) port) (get_data_ports cfg) [])"
  using assms(1)
proof (cases rule: verify_cases [where a = a and p = port])
  case (found mapping resources out)
  then obtain r rs path where r: "resources = r # rs" "rm_address_path mapping = Some path" "rm_ports mapping = None"
    "extract_address r path (rm_address_type mapping) = Inr a"
    "extract_port r (rm_port_path mapping) (rm_port_name mapping) = Inr port"
    using assms(2) success_reports [OF found(3), of a port] by blast
  have "length resources = 1" using found_count [OF assms(1,3) found(1,2)] .
  then have "rs = []" by (simp add: r(1))
  then show ?thesis using r found(1,2) single_selection [OF r(4) assms(4)]
    by (simp add: query_default_endpoint_def extract_endpoint_target_multi_port_def)
qed (use assms(2) in simp_all)

text \<open>What the monitor's checks see is then the target too, so they all see the same text.\<close>

lemma reported_target_check:
  assumes "verify_default_endpoint cfg api = Inr reports" and "DefaultTarget a port \<in> set reports"
  obtains current where "\<And>mo. snd (check_default_endpoint cfg api mo) = compare_target (Some current) mo"
  using assms(1)
proof (cases rule: verify_cases [where a = a and p = port])
  case (found mapping resources out)
  then obtain r rs path where r: "resources = r # rs" "rm_address_path mapping = Some path"
    "extract_address r path (rm_address_type mapping) = Inr a"
    "extract_port r (rm_port_path mapping) (rm_port_name mapping) = Inr port"
    using assms(2) success_reports [OF found(3), of a port] by blast
  then obtain current where "current_target mapping resources = Inr (Some current)"
    by (simp add: current_target_def Let_def)
  then show thesis using found(1,2) by (intro that [of current]) (simp add: check_default_endpoint_def Let_def)
qed (use assms(2) in simp_all)

section \<open>Paths that cannot panic\<close>

definition safe_path :: "string \<Rightarrow> bool" where
  "safe_path path \<longleftrightarrow> is_ascii path \<and> (\<forall>part \<in> set (split_on CHR ''.'' path). \<not> dangling_bracket part)"

abbreviation safe_option :: "string option \<Rightarrow> bool" where
  "safe_option x \<equiv> (case x of None \<Rightarrow> True | Some path \<Rightarrow> safe_path path)"

definition safe_endpoint :: "config \<Rightarrow> bool" where
  "safe_endpoint cfg =
     (let de = get_default_endpoint cfg in
      safe_option (map_option sq_json_path (de_status_query de))
      \<and> (case hm_get (cfg_resource_query_mapping cfg) (de_resource_type de) of
           None \<Rightarrow> True
         | Some m \<Rightarrow> safe_option (rm_address_path m) \<and> safe_option (rm_port_path m)
             \<and> (case rm_ports m of None \<Rightarrow> True | Some pms \<Rightarrow> list_all (\<lambda>pm. safe_option (pm_port_path pm)) pms)))"

lemma safe_path_no_bracket: "is_ascii path \<Longrightarrow> CHR ''['' \<notin> set path \<Longrightarrow> safe_path path"
  using set_split_on by (fastforce simp: safe_path_def dangling_bracket_def)

lemma safe_path_walks: "safe_path path \<Longrightarrow> extract_json_path j path \<noteq> Inl e"
  using extract_json_path_failure by (auto simp: safe_path_def)

lemma safe_address: "safe_path path \<Longrightarrow> extract_address r path ty \<noteq> Inl Panic"
  using address_panic safe_path_walks by blast

lemma safe_port: "safe_option path \<Longrightarrow> extract_port r path name \<noteq> Inl Panic"
proof -
  have num: "port_of_number n \<noteq> Inl Panic" for n by (simp add: ok_or_Inl_iff)
  have "(case v of JNumber n \<Rightarrow> port_of_number n | _ \<Rightarrow> Inl (PortNotNumber p)) \<noteq> Inl Panic" for v p
    using num by (cases v) simp_all
  then show "safe_option path \<Longrightarrow> extract_port r path name \<noteq> Inl Panic"
    using num safe_path_walks
    by (auto simp: extract_port_def and_then_Inl_iff ok_or_Inl_iff simp del: port_of_number.simps split: option.splits)
qed

lemma safe_ports: "list_all (\<lambda>pm. safe_option (pm_port_path pm)) pms \<Longrightarrow> extract_ports r pms \<noteq> Inl Panic"
proof -
  have "list_all (\<lambda>pm. safe_option (pm_port_path pm)) pms \<Longrightarrow> collect_ports r ports pms \<noteq> Inl Panic" for ports
    by (induction pms arbitrary: ports) (auto simp: and_then_Inl_iff safe_port)
  then show "list_all (\<lambda>pm. safe_option (pm_port_path pm)) pms \<Longrightarrow> extract_ports r pms \<noteq> Inl Panic"
    by (simp add: extract_ports_def)
qed

lemma try_filter_Inl: "try_filter p xs = Inl e \<Longrightarrow> \<exists>x. p x = Inl e"
  by (induction xs) (auto simp: and_then_Inl_iff)

lemma safe_resources:
  assumes "safe_option (map_option sq_json_path (de_status_query de))"
  shows "endpoint_resources api de mapping \<noteq> Inl Panic"
proof
  assume "endpoint_resources api de mapping = Inl Panic"
  then obtain q xs where q: "endpoint_status de = Some q" "try_filter (\<lambda>r. matches_status_query r q) xs = Inl Panic"
    by (auto simp: endpoint_resources_def query_resources_def query_resources_snapshot_def and_then_Inl_iff
        split: sum.splits option.splits)
  then obtain j where "extract_json_path j (json_path q) = Inl Panic"
    using try_filter_Inl [OF q(2)] by (auto simp: matches_status_query_def and_then_Inl_iff split: option.splits)
  moreover have "safe_path (json_path q)"
    using q(1) assms by (auto simp: endpoint_status_def split: option.splits)
  ultimately show False using safe_path_walks by blast
qed

lemma logged_total:
  "r \<noteq> Inl Panic \<Longrightarrow> (\<And>x. \<exists>out. ok x = Inr out) \<Longrightarrow> \<exists>out. logged failed ok r = Inr out"
  by (cases r) (auto simp: logged_def split: error.splits)

text \<open>With such paths the check ends with a report.\<close>

lemma verify_total:
  assumes "safe_endpoint cfg"
  shows "\<exists>reports. verify_default_endpoint cfg api = Inr reports"
proof (cases "hm_get (cfg_resource_query_mapping cfg) (de_resource_type (get_default_endpoint cfg))")
  case None
  then show ?thesis by (simp add: verify_default_endpoint_def Let_def)
next
  case (Some m)
  note safe = assms [unfolded safe_endpoint_def Let_def Some option.case]
  have target: "\<exists>out. extract_and_log_target r m path = Inr out" if "rm_address_path m = Some path" for r path
    unfolding extract_and_log_target_def
  proof (rule logged_total)
    show "extract_address r path (rm_address_type m) \<noteq> Inl Panic" using safe that safe_address by auto
    show "\<exists>out. (case rm_ports m of
         Some port_mappings \<Rightarrow> logged (\<lambda>e. [PortsFailed e])
             (\<lambda>ports. Inr (DefaultTargetPorts address (length ports) # map (\<lambda>(name, port). NamedPort name port) ports))
             (extract_ports r port_mappings)
       | None \<Rightarrow> logged (\<lambda>e. [PortFailed e]) (\<lambda>port. Inr [DefaultTarget address port])
             (extract_port r (rm_port_path m) (rm_port_name m))) = Inr out" for address
      using safe safe_port safe_ports by (auto split: option.splits intro!: logged_total)
  qed
  have "\<exists>out. handle_query_success resources m = Inr out" for resources
    using target by (auto simp: handle_query_success_def Let_def result_simps split: list.splits option.splits)
  then have "\<exists>out. logged (\<lambda>e. handle_query_error e (get_default_endpoint cfg) m)
      (\<lambda>resources. handle_query_success resources m) (endpoint_resources api (get_default_endpoint cfg) m) = Inr out"
    using safe safe_resources by (intro logged_total) auto
  then show ?thesis by (auto simp: verify_default_endpoint_def Let_def Some)
qed

section \<open>Properties\<close>

text \<open>
  C27. What a reported default target means for the clients: while the API server answers as it did at the
  startup check and the strategy is least sessions, clients without a session that come one after
  another to configured data ports all get a route to exactly the reported address, with every configured
  data port mapped to the reported port, in these cases: the resource monitor's first check, which
  is due as soon as the program runs, comes before the first of them, whatever checks come later; or
  no check comes; or the check found one resource. The first check alone empties the cache, so
  outside these cases a later client can be sent to another backend.
\<close>

theorem reported_default_target_is_used:
  assumes "verify_default_endpoint cfg api = Inr reports" and "DefaultTarget address port \<in> set reports"
    and "lb_strategy (get_load_balancing cfg) = LeastSessions" and "isolated sessions"
    and "\<forall>now client p. Arrival now client p \<in> set events \<longrightarrow> p \<in> set (get_data_ports cfg)"
    and "(\<exists>later. events = MonitorCheck # later) \<or> MonitorCheck \<notin> set events \<or> FoundResources 1 \<in> set reports"
    and "Arrival now client p \<in> set events"
  shows "\<exists>m. route_of (px_store (fst (default_sessions cfg api events (proxy_new cfg sessions None, None)))) client
        = Some (address, m)
    \<and> (\<forall>q \<in> set (get_data_ports cfg). hm_get m (dp_port q, dp_protocol q) = Some port)"
proof -
  let ?m = "fold (\<lambda>p. hm_insert (dp_port p, dp_protocol p) port) (get_data_ports cfg) []"
  let ?px = "proxy_new cfg sessions None"
  have ports: "q \<in> set (get_data_ports cfg) \<Longrightarrow> hm_get ?m (dp_port q, dp_protocol q) = Some port" for q
    by (rule every_port_mapped) simp
  obtain current where check: "\<And>mo. snd (check_default_endpoint cfg api mo) = compare_target (Some current) mo"
    by (rule reported_target_check [OF assms(1,2)], rule that)
  have px: "px_cache ?px = None" "px_lb ?px = lb_new LeastSessions" using assms(3) by (simp_all add: proxy_new_def)
  then have start: "routed_to cfg api address ?m ?px"
    using assms(4) reported_target_query [OF assms(1,2)] by (simp add: routed_to_def proxy_new_def)
  note run = pinned_run [OF _ check, where m = ?m and a = address and client = client]
  have "route_of (px_store (fst (default_sessions cfg api events (?px, None)))) client = Some (address, ?m)"
    using assms(6)
  proof (elim disjE exE)
    fix later
    assume e: "events = MonitorCheck # later"
    have px_same: "px_cache_update (\<lambda>_. mo_cache (compare_target (Some current) \<lparr>mo_last = None, mo_cache = px_cache ?px\<rparr>)) ?px = ?px"
      using px(1) by (simp add: compare_target_iff)
    have "default_sessions cfg api events (?px, None) = default_sessions cfg api later (?px, Some current)"
      using px_same by (simp add: e check Let_def) (simp add: compare_target_iff)
    then show ?thesis using run [of "(?px, Some current)" later] ports start assms(5,7)
      by (auto simp: e pinned_def)
  next
    assume "MonitorCheck \<notin> set events"
    then show ?thesis using run [of "(?px, None)" events] ports start assms(5,7) by (auto simp: pinned_def)
  next
    assume "FoundResources 1 \<in> set reports"
    then have "pinned cfg api address ?m current events (?px, None)"
      using reported_target_single [OF assms(1,2)] px(2) by (simp add: pinned_def lb_new_def)
    then show ?thesis using run [of "(?px, None)" events] ports start assms(5,7) by auto
  qed
  with ports show ?thesis by blast
qed

lemma sample_verify:
  "\<exists>reports. verify_default_endpoint sample_config endpoint_api = Inr reports
     \<and> DefaultTarget ''10.0.0.1'' 7777 \<in> set reports"
proof -
  have "get_default_endpoint sample_config = sample_default_endpoint"
    "hm_get (cfg_resource_query_mapping sample_config) (de_resource_type sample_default_endpoint) = Some sample_pod_mapping"
    by (simp_all add: get_default_endpoint_def sample_config_def sample_default_endpoint_def)
  then show ?thesis
    by (simp add: verify_default_endpoint_def endpoint_resources_sample handle_query_success_def Let_def)
       (simp add: extract_and_log_target_def sample_pod_mapping_def)
qed

abbreviation sample_port :: data_port_config where
  "sample_port \<equiv> \<lparr>dp_port = 7777, dp_protocol = Udp, dp_name = ''default''\<rparr>"

lemma sample_strategy: "lb_strategy (get_load_balancing sample_config) = LeastSessions"
  by (simp add: get_load_balancing_def sample_config_def default_load_balancing_def)

lemma reported_default_target_is_used_witness:
  "\<exists>m. route_of (px_store (fst (default_sessions sample_config endpoint_api
       [MonitorCheck, Arrival 0 sample_client sample_port, MonitorCheck]
       (proxy_new sample_config store_new None, None)))) sample_client = Some (''10.0.0.1'', m)"
proof -
  obtain reports where r: "verify_default_endpoint sample_config endpoint_api = Inr reports"
    "DefaultTarget ''10.0.0.1'' 7777 \<in> set reports" using sample_verify by blast
  note sample_strategy
  moreover have "isolated store_new" using store_inv_new store_invD(1) by blast
  ultimately show ?thesis
    using reported_default_target_is_used [OF r, of store_new
        "[MonitorCheck, Arrival 0 sample_client sample_port, MonitorCheck]" 0 sample_client sample_port]
    by (simp add: sample_config_def get_data_ports_def del: default_sessions.simps) blast
qed

text \<open>
  Two backends: a client that comes before the first check gets the reported one, the check finds nothing changed
  since the startup and yet empties the cache, and the next client gets the other one.
\<close>

definition two_backends :: k8s_api where
  "two_backends = endpoint_api\<lparr>api_list := (\<lambda>_. Inr \<lparr>lresp_items =
     [sample_resource ''b'' ''10.0.0.1'' [], sample_resource ''c'' ''10.0.0.2'' []], lresp_version = None\<rparr>)\<rparr>"

lemma sample_lookup: "get_default_endpoint sample_config = sample_default_endpoint"
    "cfg_default_endpoint sample_config = sample_default_endpoint"
    "hm_get (cfg_resource_query_mapping sample_config) (de_resource_type sample_default_endpoint) = Some sample_pod_mapping"
    "get_data_ports sample_config = [sample_port]"
  by (simp_all add: get_default_endpoint_def sample_config_def sample_default_endpoint_def get_data_ports_def)

lemma two_backends_resources:
  "endpoint_resources two_backends sample_default_endpoint sample_pod_mapping
     = Inr [sample_resource ''b'' ''10.0.0.1'' [], sample_resource ''c'' ''10.0.0.2'' []]"
  by (simp add: endpoint_resources_def query_resources_def query_resources_snapshot_def two_backends_def endpoint_api_def
      endpoint_status_def sample_default_endpoint_def)

lemma two_backends_query:
  "query_default_endpoint sample_config two_backends (lb_new LeastSessions) = Inr (''10.0.0.1'', [((7777, Udp), 7777)])"
  "query_default_endpoint sample_config two_backends (increment_session ''10.0.0.1'' (lb_new LeastSessions))
     = Inr (''10.0.0.2'', [((7777, Udp), 7777)])"
  by (simp_all add: query_default_endpoint_def sample_lookup two_backends_resources ensure_def)
     (simp_all add: select_backend_def select_least_sessions_def first_least_def lb_new_def increment_session_def
        get_session_count_def sample_pod_mapping_def extract_endpoint_target_multi_port_def sample_lookup)

lemma two_backends_check:
  "snd (check_default_endpoint sample_config two_backends \<lparr>mo_last = None, mo_cache = c\<rparr>)
     = \<lparr>mo_last = Some (target_text ''b'' ''10.0.0.1'' 7777), mo_cache = None\<rparr>"
  by (simp add: check_default_endpoint_def sample_lookup two_backends_resources compare_target_iff)
     (simp add: current_target_def sample_pod_mapping_def compare_target_iff, simp add: sample_resource_def sample_meta_def)

definition other_client :: socket_addr where "other_client = addr_v4 192 0 2 9 5000"

theorem first_check_moves_clients:
  "(\<exists>reports. verify_default_endpoint sample_config two_backends = Inr reports \<and> DefaultTarget ''10.0.0.1'' 7777 \<in> set reports)
   \<and> (\<exists>m. route_of (px_store (fst (default_sessions sample_config two_backends
       [Arrival 0 sample_client sample_port, MonitorCheck, Arrival 7 other_client sample_port]
       (proxy_new sample_config store_new None, None)))) other_client = Some (''10.0.0.2'', m))"
proof
  show "\<exists>reports. verify_default_endpoint sample_config two_backends = Inr reports
      \<and> DefaultTarget ''10.0.0.1'' 7777 \<in> set reports"
    by (simp add: verify_default_endpoint_def sample_lookup two_backends_resources handle_query_success_def Let_def)
       (simp add: extract_and_log_target_def sample_pod_mapping_def)
  have first: "establish_default_session sample_config two_backends 0 sample_client 7777 Udp (proxy_new sample_config store_new None)
      = (Inr (), \<lparr>px_store = upsert_multi_port 0 sample_client ''10.0.0.1'' [((7777, Udp), 7777)] store_new,
          px_cache = Some \<lparr>dc_address = ''10.0.0.1'', dc_port_mappings = [((7777, Udp), 7777)]\<rparr>,
          px_lb = increment_session ''10.0.0.1'' (lb_new LeastSessions)\<rparr>)"
    by (simp add: establish_default_session_def default_route_def proxy_new_def sample_strategy two_backends_query)
  let ?st = "upsert_multi_port 0 sample_client ''10.0.0.1'' [((7777, Udp), 7777)] store_new"
  obtain c where c: "establish_default_session sample_config two_backends 7 other_client 7777 Udp
        \<lparr>px_store = ?st, px_cache = None, px_lb = increment_session ''10.0.0.1'' (lb_new LeastSessions)\<rparr>
      = (Inr (), \<lparr>px_store = upsert_multi_port 7 other_client ''10.0.0.2'' [((7777, Udp), 7777)] ?st, px_cache = Some c,
          px_lb = increment_session ''10.0.0.2'' (increment_session ''10.0.0.1'' (lb_new LeastSessions))\<rparr>)"
    by (rule that) (simp add: establish_default_session_def default_route_def two_backends_query)
  have "isolated ?st" using store_invD(1) [OF store_inv_new] by (rule isolated_upsert)
  from upsert_route [OF this, of 7 other_client "''10.0.0.2''" "[((7777, Udp), 7777)]"]
  show "\<exists>m. route_of (px_store (fst (default_sessions sample_config two_backends
       [Arrival 0 sample_client sample_port, MonitorCheck, Arrival 7 other_client sample_port]
       (proxy_new sample_config store_new None, None)))) other_client = Some (''10.0.0.2'', m)"
    by (simp add: first two_backends_check c Let_def)
qed

text \<open>
  When the startup check reports that the default endpoint is misconfigured or that clients will fail, they
  do: while the API server answers the same, no client without a session gets one from an empty
  cache, and neither the session table nor the cache nor a count changes.
\<close>

theorem reported_failure_holds:
  assumes "verify_default_endpoint cfg api = Inr reports"
    and "Misconfigured \<in> set reports \<or> ClientsWillFail \<in> set reports" and "px_cache px = None"
  shows "\<exists>e. establish_default_session cfg api now client proxy_port protocol px = (Inl e, px)"
proof -
  have "\<exists>e. query_default_endpoint cfg api (px_lb px) = Inl e"
    using assms(1)
  proof (cases rule: verify_cases)
    case (found mapping resources out)
    then have "resources = []" using assms(2) success_reports [OF found(3)] by blast
    with found(1,2) show ?thesis by (simp add: query_default_endpoint_def ensure_def)
  qed (simp_all add: query_default_endpoint_def)
  then show ?thesis using assms(3) by (auto simp: establish_default_session_def default_route_def)
qed

definition no_backends :: k8s_api where
  "no_backends = endpoint_api\<lparr>api_list := (\<lambda>_. Inl (ApiError 403))\<rparr>"

lemma reported_failure_holds_witness:
  "\<exists>e. establish_default_session sample_config no_backends 5 sample_client 7777 Udp (proxy_new sample_config store_new None)
     = (Inl e, proxy_new sample_config store_new None)"
proof -
  have "\<exists>reports. verify_default_endpoint sample_config no_backends = Inr reports \<and> ClientsWillFail \<in> set reports"
    by (simp add: verify_default_endpoint_def logged_def endpoint_resources_def query_resources_def
        query_resources_snapshot_def no_backends_def sample_config_def sample_default_endpoint_def
        get_default_endpoint_def handle_query_error_def Let_def)
  then obtain reports where r: "verify_default_endpoint sample_config no_backends = Inr reports"
    "Misconfigured \<in> set reports \<or> ClientsWillFail \<in> set reports" by blast
  have "px_cache (proxy_new sample_config store_new None) = None" by (simp add: proxy_new_def)
  then show ?thesis by (rule reported_failure_holds [OF r])
qed

end
