(* ===== verification/Program.thy ===== *)
theory Program
  imports Director Listeners Metrics Startup
begin

text \<open>
  \<open>main\<close> of \<open>src/main.rs\<close> from its first line to its last: loading, the startup check, the four tasks that
  bind their ports, the wait for a signal or for the end of a task, and the shutdown. The tasks run
  concurrently: a step is one bind, one handler (\<open>director_step\<close>), one tick of the uptime loop, the end
  of a task, or a step of \<open>main\<close> itself. Handlers and the clearing of the table are whole steps here, where only
  ports and phases matter; \<open>Shutdown\<close> has the clearing between the steps of the other tasks.
\<close>

section \<open>Before the tasks\<close>

datatype start_failure = ConfigFailed config_error | ClientFailed | CheckPanicked

datatype task = QueryTask | ProxyTask | MonitorTask | MetricsTask

datatype cause = ShutdownSignal | TaskEnded task

datatype phase = Running | Stopping cause | Exited cause

text \<open>The ports a task still has to bind are \<open>pg_pending\<close>, in its order.\<close>

record program =
  pg_phase :: phase
  pg_pending :: "task \<Rightarrow> listener list"
  pg_bound :: "listener list"
  pg_ended :: "task \<Rightarrow> bool"
  pg_registry :: "metric list"
  pg_director :: director

fun task_ports :: "config \<Rightarrow> task \<Rightarrow> listener list" where
  "task_ports cfg QueryTask = [(cfg_query_port cfg, Tcp)]"
| "task_ports cfg ProxyTask = port_listeners (get_data_ports cfg)"
| "task_ports cfg MonitorTask = []"
| "task_ports cfg MetricsTask = [(9090, Tcp)]"

definition start_program :: "config \<Rightarrow> program" where
  "start_program cfg =
     \<lparr>pg_phase = Running, pg_pending = task_ports cfg, pg_bound = [], pg_ended = (\<lambda>_. False),
      pg_registry = [], pg_director = start_director cfg\<rparr>"

text \<open>
  \<open>client\<close> tells whether the Kubernetes client could be made; the result is what the startup check
  reported and the program with its tasks spawned.
\<close>

definition main_start ::
  "config_error + config \<Rightarrow> bool \<Rightarrow> k8s_api \<Rightarrow> start_failure + (report list \<times> program)" where
  "main_start loaded client api =
     (case loaded of
        Inl e \<Rightarrow> Inl (ConfigFailed e)
      | Inr cfg \<Rightarrow>
          if \<not> client then Inl ClientFailed
          else (case verify_default_endpoint cfg api of
              Inl _ \<Rightarrow> Inl CheckPanicked
            | Inr reports \<Rightarrow> Inr (reports, start_program cfg)))"

section \<open>Running\<close>

definition monitor_of :: "director \<Rightarrow> monitor" where
  "monitor_of d = \<lparr>mo_last = di_last d, mo_cache = di_cache d\<rparr>"

definition shutdown :: "cause \<Rightarrow> program \<Rightarrow> program" where
  "shutdown c p = p\<lparr>pg_phase := Stopping c,
     pg_director := (pg_director p)\<lparr>di_store := clear_all (di_store (pg_director p))\<rparr>\<rparr>"

definition alive :: "program \<Rightarrow> bool" where
  "alive p = (case pg_phase p of Exited _ \<Rightarrow> False | _ \<Rightarrow> True)"

definition end_task :: "task \<Rightarrow> program \<Rightarrow> program" where
  "end_task t p = p\<lparr>pg_ended := (pg_ended p)(t := True)\<rparr>"

text \<open>
  The tasks go on during the 500 milliseconds between the shutdown and the exit. A task ends when a port
  cannot be bound, when the proxy has no port to join, or, for the monitor, when a check panics; what the
  task bound before stays bound, since the loops are tasks of their own.
\<close>

inductive program_step :: "query_server \<Rightarrow> prometheus \<Rightarrow> port_binder \<Rightarrow> program \<Rightarrow> program \<Rightarrow> bool"
  for qs lib can_bind where
  bind: "alive p \<Longrightarrow> \<not> pg_ended p t \<Longrightarrow> pg_pending p t = l # ls \<Longrightarrow> can_bind (pg_bound p) l
    \<Longrightarrow> program_step qs lib can_bind p
          (p\<lparr>pg_pending := (pg_pending p)(t := ls), pg_bound := pg_bound p @ [l]\<rparr>)"
| bind_fails: "alive p \<Longrightarrow> \<not> pg_ended p t \<Longrightarrow> pg_pending p t = l # ls \<Longrightarrow> \<not> can_bind (pg_bound p) l
    \<Longrightarrow> program_step qs lib can_bind p (end_task t p)"
| nothing_to_join: "alive p \<Longrightarrow> get_data_ports (qs_config qs) = []
    \<Longrightarrow> program_step qs lib can_bind p (end_task ProxyTask p)"
| monitor_panics: "alive p \<Longrightarrow> fst (check_default_endpoint (qs_config qs) api (monitor_of (pg_director p))) = Inl Panic
    \<Longrightarrow> program_step qs lib can_bind p (end_task MonitorTask p)"
| handler: "alive p \<Longrightarrow> director_step qs (pg_director p) d
    \<Longrightarrow> program_step qs lib can_bind p (p\<lparr>pg_director := d\<rparr>)"
| uptime_tick: "alive p \<Longrightarrow> force_family lib UPTIME_SECONDS (pg_registry p) = Inr registered
    \<Longrightarrow> program_step qs lib can_bind p (p\<lparr>pg_registry := registered\<rparr>)"
| stop: "pg_phase p = Running \<Longrightarrow> c = ShutdownSignal \<or> (\<exists>t. c = TaskEnded t \<and> pg_ended p t)
    \<Longrightarrow> program_step qs lib can_bind p (shutdown c p)"
| leave: "pg_phase p = Stopping c \<Longrightarrow> program_step qs lib can_bind p (p\<lparr>pg_phase := Exited c\<rparr>)"

section \<open>Ports\<close>

text \<open>An operating system: a port is given when it is available and not bound already.\<close>

definition os_ports :: "(listener \<Rightarrow> bool) \<Rightarrow> port_binder" where
  "os_ports available bound l \<longleftrightarrow> available l \<and> l \<notin> set bound"

definition wanted :: "config \<Rightarrow> listener list" where
  "wanted cfg = concat (map (task_ports cfg) [QueryTask, ProxyTask, MetricsTask])"

definition pending :: "program \<Rightarrow> listener list" where
  "pending p = concat (map (pg_pending p) [QueryTask, ProxyTask, MetricsTask])"

definition blocked :: "(listener \<Rightarrow> bool) \<Rightarrow> listener list \<Rightarrow> listener list \<Rightarrow> bool" where
  "blocked available bound ls = (case ls of [] \<Rightarrow> False | l # _ \<Rightarrow> l \<in> set bound \<or> \<not> available l)"

definition boot_inv :: "config \<Rightarrow> (listener \<Rightarrow> bool) \<Rightarrow> program \<Rightarrow> bool" where
  "boot_inv cfg available p \<longleftrightarrow>
     distinct (pg_bound p) \<and> list_all available (pg_bound p) \<and> pg_pending p MonitorTask = []
     \<and> mset (pg_bound p) + mset (pending p) = mset (wanted cfg)
     \<and> (\<forall>t. pg_ended p t \<and> t \<noteq> MonitorTask \<longrightarrow> blocked available (pg_bound p) (pg_pending p t))"

lemma boot_inv_start: "boot_inv cfg available (start_program cfg)"
  by (simp add: boot_inv_def start_program_def pending_def wanted_def)

lemma boot_inv_step:
  assumes "program_step qs lib (os_ports available) p p'" and "boot_inv (qs_config qs) available p"
    and "get_data_ports (qs_config qs) \<noteq> []"
  shows "boot_inv (qs_config qs) available p'"
  using assms
proof (induction rule: program_step.induct)
  case (bind p t l ls)
  let ?p' = "p\<lparr>pg_pending := (pg_pending p)(t := ls), pg_bound := pg_bound p @ [l]\<rparr>"
  have new: "mset (pending ?p') + {#l#} = mset (pending p)"
    using bind.hyps(3) bind.prems(1) by (cases t) (auto simp: pending_def boot_inv_def)
  have all: "mset (pg_bound p) + mset (pending p) = mset (wanted (qs_config qs))"
    using bind.prems(1) by (simp add: boot_inv_def)
  have "mset (pg_bound p @ [l]) + mset (pending ?p') = mset (pg_bound p) + (mset (pending ?p') + {#l#})" by simp
  also have "\<dots> = mset (wanted (qs_config qs))" by (simp only: new all)
  finally have "mset (pg_bound p @ [l]) + mset (pending ?p') = mset (wanted (qs_config qs))" .
  moreover have "blocked available (pg_bound p @ [l]) ps" if "blocked available (pg_bound p) ps" for ps
    using that by (auto simp: blocked_def split: list.splits)
  ultimately show ?case using bind by (auto simp: boot_inv_def os_ports_def)
next
  case (bind_fails p t l ls)
  then show ?case by (auto simp: boot_inv_def os_ports_def end_task_def pending_def blocked_def)
qed (auto simp: boot_inv_def end_task_def pending_def shutdown_def)

lemma boot_inv_reachable:
  "(program_step qs lib (os_ports available))\<^sup>*\<^sup>* (start_program (qs_config qs)) p \<Longrightarrow>
     get_data_ports (qs_config qs) \<noteq> [] \<Longrightarrow> boot_inv (qs_config qs) available p"
  by (induction rule: rtranclp_induct) (auto intro: boot_inv_start boot_inv_step)

text \<open>Every port is bound, or one of the tasks that bind has ended; never both.\<close>

lemma boot_decided:
  assumes inv: "boot_inv cfg available p"
  shows "t \<noteq> MonitorTask \<Longrightarrow> pg_ended p t \<Longrightarrow> \<not> (distinct (wanted cfg) \<and> list_all available (wanted cfg))"
    and "pending p = [] \<Longrightarrow> distinct (wanted cfg) \<and> list_all available (wanted cfg)
      \<and> set (pg_bound p) = set (wanted cfg)"
proof -
  have all: "mset (pg_bound p) + mset (pending p) = mset (wanted cfg)" using inv by (simp add: boot_inv_def)
  then have eq: "mset (wanted cfg) = mset (pg_bound p @ pending p)" by simp
  show "\<not> (distinct (wanted cfg) \<and> list_all available (wanted cfg))" if "t \<noteq> MonitorTask" "pg_ended p t"
  proof -
    have "blocked available (pg_bound p) (pg_pending p t)" using inv that by (simp add: boot_inv_def)
    then obtain l ls where l: "pg_pending p t = l # ls" "l \<in> set (pg_bound p) \<or> \<not> available l"
      by (cases "pg_pending p t") (auto simp: blocked_def)
    have mem: "l \<in> set (pending p)" using l(1) that(1) by (cases t) (auto simp: pending_def)
    then have "l \<in> set (wanted cfg)" using eq by (metis Un_iff mset_eq_setD set_append)
    then show ?thesis using l(2) mem mset_eq_imp_distinct_iff [OF eq] by (auto simp: list_all_iff)
  qed
  show "distinct (wanted cfg) \<and> list_all available (wanted cfg) \<and> set (pg_bound p) = set (wanted cfg)"
    if "pending p = []"
    using that eq inv mset_eq_imp_distinct_iff [OF eq] mset_eq_setD [OF eq]
    by (auto simp: boot_inv_def list_all_iff)
qed

section \<open>The end of tasks, and the director inside\<close>

lemma safe_check: "safe_endpoint cfg \<Longrightarrow> fst (check_default_endpoint cfg api mo) \<noteq> Inl Panic"
proof (cases "hm_get (cfg_resource_query_mapping cfg) (de_resource_type (get_default_endpoint cfg))")
  case None
  then show ?thesis by (simp add: check_default_endpoint_def Let_def)
next
  case (Some m)
  assume "safe_endpoint cfg"
  note safe = this [unfolded safe_endpoint_def Let_def Some option.case]
  have "current_target m resources \<noteq> Inl Panic" for resources
    using safe safe_address safe_port
    by (auto simp: current_target_def Let_def split: list.splits option.splits sum.splits error.splits)
  moreover have "endpoint_resources api (get_default_endpoint cfg) m \<noteq> Inl Panic"
    using safe safe_resources by blast
  ultimately have "and_then (endpoint_resources api (get_default_endpoint cfg) m) (current_target m) \<noteq> Inl Panic"
    by (auto simp: and_then_Inl_iff)
  then show ?thesis by (auto simp: check_default_endpoint_def Let_def Some split: sum.splits)
qed

text \<open>The program runs the director: what it does to the shared state is a run of \<open>director_step\<close>.\<close>

lemma program_step_director:
  "program_step qs lib can_bind p p' \<Longrightarrow> (director_step qs)\<^sup>*\<^sup>* (pg_director p) (pg_director p')"
  by (cases rule: program_step.cases, assumption) (auto simp: end_task_def shutdown_def intro: step_shutdown)

interpretation program_run: simulation "program_step qs lib can_bind" "start_program (qs_config qs)" "\<lambda>_. True"
    pg_director "director_step qs"
  for qs lib can_bind
  by unfold_locales (simp_all add: program_step_director)

lemma program_director:
  "(program_step qs lib can_bind)\<^sup>*\<^sup>* (start_program (qs_config qs)) p \<Longrightarrow>
     (director_step qs)\<^sup>*\<^sup>* (start_director (qs_config qs)) (pg_director p)"
  using program_run.reachable_simulated by (simp add: start_program_def)

definition quiet :: "program \<Rightarrow> bool" where
  "quiet p \<longleftrightarrow> (\<forall>t. \<not> pg_ended p t)
     \<and> (case pg_phase p of Running \<Rightarrow> True | Stopping c \<Rightarrow> c = ShutdownSignal | Exited c \<Rightarrow> c = ShutdownSignal)"

lemma quiet_reachable:
  assumes "(program_step qs lib (os_ports available))\<^sup>*\<^sup>* (start_program (qs_config qs)) p"
    and ports: "get_data_ports (qs_config qs) \<noteq> []" and safe: "safe_endpoint (qs_config qs)"
    and good: "distinct (wanted (qs_config qs))" "list_all available (wanted (qs_config qs))"
  shows "quiet p"
  using assms(1)
proof (induction rule: rtranclp_induct)
  case base
  show ?case by (simp add: quiet_def start_program_def)
next
  case (step p p')
  have reach: "(program_step qs lib (os_ports available))\<^sup>*\<^sup>* (start_program (qs_config qs)) p'"
    using step(1,2) by (rule rtranclp.rtrancl_into_rtrancl)
  have running: "\<not> pg_ended p' t" if "t \<noteq> MonitorTask" for t
    using boot_decided(1) [OF boot_inv_reachable [OF reach ports] that] good by blast
  from step(2) have "pg_ended p' MonitorTask = pg_ended p MonitorTask"
  proof cases
    case (bind_fails t l ls)
    then have "t \<noteq> MonitorTask" using boot_inv_reachable [OF step(1) ports] by (auto simp: boot_inv_def)
    with bind_fails show ?thesis by (simp add: end_task_def)
  qed (use safe_check [OF safe] in \<open>auto simp: end_task_def shutdown_def\<close>)
  then have "\<forall>t. \<not> pg_ended p' t" using running step.IH by (metis quiet_def)
  with step(2) step.IH show ?case
    by (cases rule: program_step.cases) (auto simp: quiet_def end_task_def shutdown_def)
qed

section \<open>Properties\<close>

definition quiet_config :: config where
  "quiet_config = sample_config\<lparr>cfg_capacity_demand := None\<rparr>"

lemma quiet_config_ok:
  "load (\<lambda>_. None) (\<lambda>_. Some []) (\<lambda>_. Some quiet_config) None = Inr quiet_config"
  "wanted quiet_config = [(9000, Tcp), (7777, Udp), (9090, Tcp)]"
  by (simp_all add: load_def validate_def quiet_config_def sample_config_defs get_data_ports_def wanted_def Let_def)

lemma quiet_config_safe: "safe_endpoint quiet_config"
proof -
  have "safe_path ''status.podIP''" by (rule safe_path_no_bracket) simp_all
  then show ?thesis
    by (simp add: safe_endpoint_def quiet_config_def sample_config_defs get_default_endpoint_def Let_def)
qed

text \<open>
  C14. A program whose configuration passes validation, whose query, data and metrics ports are free and
  different, and whose default endpoint's paths are ASCII texts without a dangling bracket starts exactly
  when its Kubernetes client can be made, and then only a shutdown signal ends it: whatever its tasks do in
  whatever order, no port fails to bind and no check panics. Without the client it stops with that
  error before anything is bound.
\<close>

theorem only_signal_stops:
  assumes "load parse_uri read_file parse_yaml env = Inr (qs_config qs)"
    and "distinct (wanted (qs_config qs))" and "list_all available (wanted (qs_config qs))"
    and "safe_endpoint (qs_config qs)"
  shows "(client \<longleftrightarrow> (\<exists>reports p0. main_start (load parse_uri read_file parse_yaml env) client api = Inr (reports, p0)))
    \<and> (\<not> client \<longrightarrow> main_start (load parse_uri read_file parse_yaml env) client api = Inl ClientFailed)
    \<and> (\<forall>reports p0 p c. main_start (load parse_uri read_file parse_yaml env) client api = Inr (reports, p0)
          \<and> (program_step qs lib (os_ports available))\<^sup>*\<^sup>* p0 p
          \<and> (pg_phase p = Stopping c \<or> pg_phase p = Exited c) \<longrightarrow> c = ShutdownSignal)"
proof -
  have ports: "get_data_ports (qs_config qs) \<noteq> []"
    using assms(1) by (auto simp: load_def validate_def Let_def result_simps split: if_splits)
  obtain reports where "verify_default_endpoint (qs_config qs) api = Inr reports"
    using verify_total [OF assms(4)] by blast
  then have start: "main_start (load parse_uri read_file parse_yaml env) client api
      = (if client then Inr (reports, start_program (qs_config qs)) else Inl ClientFailed)"
    using assms(1) by (simp add: main_start_def)
  have "c = ShutdownSignal" if "(program_step qs lib (os_ports available))\<^sup>*\<^sup>* (start_program (qs_config qs)) p"
    "pg_phase p = Stopping c \<or> pg_phase p = Exited c" for p c
    using quiet_reachable [OF that(1) ports assms(4,2,3)] that(2) by (auto simp: quiet_def)
  with start show ?thesis by (simp split: if_splits) blast
qed

lemma only_signal_stops_witness:
  "(\<exists>reports p0. main_start (load (\<lambda>_. None) (\<lambda>_. Some []) (\<lambda>_. Some quiet_config) None) True endpoint_api = Inr (reports, p0))
   \<and> main_start (load (\<lambda>_. None) (\<lambda>_. Some []) (\<lambda>_. Some quiet_config) None) False endpoint_api = Inl ClientFailed"
proof -
  let ?qs = "sample_server\<lparr>qs_config := quiet_config\<rparr>"
  have "load (\<lambda>_. None) (\<lambda>_. Some []) (\<lambda>_. Some quiet_config) None = Inr (qs_config ?qs)"
    "distinct (wanted (qs_config ?qs))" "list_all (\<lambda>_. True) (wanted (qs_config ?qs))" "safe_endpoint (qs_config ?qs)"
    using quiet_config_ok quiet_config_safe by simp_all
  note used = only_signal_stops [OF this, of _ endpoint_api]
  show ?thesis using used [of True] used [of False] by blast
qed

text \<open>
  C26. Which ports the program gets does not depend on the order in which its tasks bind them: once each task
  has bound all its ports or has ended, no task has failed exactly when the ports are free and
  different, and then exactly these are bound; otherwise a task has ended, and the program with it. In particular
  a query port or TCP data port 9090, which validation accepts, collides with the metrics server.
\<close>

theorem ports_decide_startup:
  assumes "(program_step qs lib (os_ports available))\<^sup>*\<^sup>* (start_program (qs_config qs)) p"
    and "get_data_ports (qs_config qs) \<noteq> []"
    and "list_all (\<lambda>t. pg_ended p t \<or> pg_pending p t = []) [QueryTask, ProxyTask, MetricsTask]"
  shows "(list_all (\<lambda>t. \<not> pg_ended p t) [QueryTask, ProxyTask, MetricsTask]
        \<longleftrightarrow> distinct (wanted (qs_config qs)) \<and> list_all available (wanted (qs_config qs)))
    \<and> (list_all (\<lambda>t. \<not> pg_ended p t) [QueryTask, ProxyTask, MetricsTask] \<longrightarrow> mset (pg_bound p) = mset (wanted (qs_config qs)))
    \<and> distinct (pg_bound p)"
proof -
  note inv = boot_inv_reachable [OF assms(1,2)]
  note decided = boot_decided [OF inv]
  show ?thesis
  proof (cases "list_all (\<lambda>t. \<not> pg_ended p t) [QueryTask, ProxyTask, MetricsTask]")
    case True
    then have "pending p = []" using assms(3) by (simp add: pending_def)
    then show ?thesis using True decided(2) inv by (simp add: boot_inv_def)
  next
    case False
    then have "\<exists>t. t \<noteq> MonitorTask \<and> pg_ended p t" by auto
    then show ?thesis using False decided(1) inv unfolding boot_inv_def by blast
  qed
qed

definition clash_config :: config where
  "clash_config = quiet_config\<lparr>cfg_query_port := 9090\<rparr>"

definition clash_server :: query_server where
  "clash_server = sample_server\<lparr>qs_config := clash_config\<rparr>"

text \<open>The query port takes 9090 first, then the data port is bound, and the metrics server fails.\<close>

definition clash_program :: program where
  "clash_program = (start_program clash_config)
     \<lparr>pg_pending := (task_ports clash_config)(QueryTask := [], ProxyTask := []),
      pg_bound := [(9090, Tcp), (7777, Udp)], pg_ended := (\<lambda>_. False)(MetricsTask := True)\<rparr>"

lemma clash_program_reached:
  "(program_step clash_server lib (os_ports (\<lambda>_. True)))\<^sup>*\<^sup>* (start_program (qs_config clash_server)) clash_program"
proof -
  let ?step = "program_step clash_server lib (os_ports (\<lambda>_. True))"
  let ?q0 = "start_program clash_config"
  let ?q1 = "?q0\<lparr>pg_pending := (pg_pending ?q0)(QueryTask := []), pg_bound := pg_bound ?q0 @ [(9090, Tcp)]\<rparr>"
  let ?q2 = "?q1\<lparr>pg_pending := (pg_pending ?q1)(ProxyTask := []), pg_bound := pg_bound ?q1 @ [(7777, Udp)]\<rparr>"
  have "?step ?q0 ?q1"
    by (rule bind) (simp_all add: alive_def start_program_def os_ports_def clash_config_def)
  moreover have "?step ?q1 ?q2"
    by (rule bind) (simp_all add: alive_def start_program_def os_ports_def clash_config_def quiet_config_def
        sample_config_def get_data_ports_def)
  moreover have "?step ?q2 (end_task MetricsTask ?q2)"
    by (rule bind_fails [where l = "(9090, Tcp)" and ls = "[]"])
       (simp_all add: alive_def start_program_def os_ports_def)
  moreover have "end_task MetricsTask ?q2 = clash_program"
    by (simp add: end_task_def clash_program_def start_program_def)
  ultimately show ?thesis by (simp add: clash_server_def)
qed

lemma ports_decide_startup_witness:
  "validate (\<lambda>_. None) clash_config = Inr ()
   \<and> \<not> list_all (\<lambda>t. \<not> pg_ended clash_program t) [QueryTask, ProxyTask, MetricsTask]
   \<and> \<not> distinct (wanted clash_config)"
proof -
  have "get_data_ports (qs_config clash_server) \<noteq> []"
    by (simp add: clash_server_def clash_config_def quiet_config_def sample_config_def get_data_ports_def)
  moreover have "list_all (\<lambda>t. pg_ended clash_program t \<or> pg_pending clash_program t = []) [QueryTask, ProxyTask, MetricsTask]"
    by (simp add: clash_program_def)
  ultimately have "list_all (\<lambda>t. \<not> pg_ended clash_program t) [QueryTask, ProxyTask, MetricsTask]
      = (distinct (wanted clash_config) \<and> list_all (\<lambda>_. True) (wanted clash_config))"
    using ports_decide_startup [OF clash_program_reached] by (simp add: clash_server_def)
  moreover have "\<not> list_all (\<lambda>t. \<not> pg_ended clash_program t) [QueryTask, ProxyTask, MetricsTask]"
    by (simp add: clash_program_def)
  moreover have "validate (\<lambda>_. None) clash_config = Inr ()"
    by (simp add: validate_def clash_config_def quiet_config_def sample_config_defs get_data_ports_def Let_def)
  ultimately show ?thesis by (simp add: list_all_iff)
qed

end
