(* ===== verification/Allocation.thy ===== *)
theory Allocation
  imports Access
begin

text \<open>
  What the label write of a query does to the Pod, and what that means when several directors serve
  one cluster. The API server is a parameter: a function from a label write and the stored Pods to
  the Pods after it, or to a refusal. The directors rely on its optimistic concurrency (\<open>optimistic\<close>): a
  write that names a resource version is accepted only while the Pod still has that version, and it
  merges the label into that Pod. Under it, reading a snapshot, choosing and writing is one
  atomic step, which takes a free slot of a ready Pod: no two directors sell the same slot.
\<close>

section \<open>The written label is read back\<close>

text \<open>The merge patch \<open>{metadata: {labels: {key: val}}}\<close> on a Pod.\<close>

definition merge_label :: "string \<Rightarrow> string \<Rightarrow> pod \<Rightarrow> pod" where
  "merge_label key val p =
     p\<lparr>pod_metadata := (pod_metadata p)\<lparr>om_labels := Some (hm_insert key val (pod_labels p))\<rparr>\<rparr>"

definition set_version :: "string \<Rightarrow> pod \<Rightarrow> pod" where
  "set_version v p = p\<lparr>pod_metadata := (pod_metadata p)\<lparr>om_resource_version := Some v\<rparr>\<rparr>"

lemma merge_label_sel [simp]:
  "pod_labels (merge_label key val p) = hm_insert key val (pod_labels p)"
  "disconnect_times cd cfg (merge_label key val p) = disconnect_times cd cfg p"
  "om_name (pod_metadata (merge_label key val p)) = om_name (pod_metadata p)"
  "pod_ready (merge_label key val p) = pod_ready p"
  by (simp_all add: merge_label_def disconnect_times_def pod_ready_def)

lemma set_version_sel [simp]:
  "pod_labels (set_version v p) = pod_labels p"
  "disconnect_times cd cfg (set_version v p) = disconnect_times cd cfg p"
  "om_name (pod_metadata (set_version v p)) = om_name (pod_metadata p)"
  "om_resource_version (pod_metadata (set_version v p)) = Some v"
  "pod_ready (set_version v p) = pod_ready p"
  by (simp_all add: set_version_def disconnect_times_def pod_ready_def)

lemma pod_wf_version [simp]: "pod_wf (set_version v p) = pod_wf p"
  by (simp add: pod_wf_def)

lemma pod_wf_merge [simp]: "pod_wf p \<Longrightarrow> pod_wf (merge_label key val p)"
  by (simp add: pod_wf_def)

lemma characters_set_version [simp]:
  "characters_on_pod cd cfg (set_version v p) req now = characters_on_pod cd cfg p req now"
  by (simp add: characters_on_pod_def)

lemma allocation_key_eq [simp]: "character_prefix cfg @ cid = allocation_key cfg cid' \<longleftrightarrow> cid = cid'"
  by (simp add: character_prefix_def allocation_key_def)

abbreviation as_allocated :: "string \<Rightarrow> character" where
  "as_allocated cid \<equiv> \<lparr>ch_id = cid, ch_status = Allocated, ch_disconnected_at = None\<rparr>"

abbreviation allocated_pod :: "config \<Rightarrow> string \<Rightarrow> pod \<Rightarrow> pod" where
  "allocated_pod cfg cid p \<equiv> merge_label (allocation_key cfg cid) ''Allocated'' p"

lemma allocated_characters:
  assumes wf: "pod_wf p" and valid: "valid_character_id cid"
  shows "set (characters_on_pod cd cfg (allocated_pod cfg cid p) [] now) =
    insert (as_allocated cid) {c \<in> set (characters_on_pod cd cfg p [] now). ch_id c \<noteq> cid}"
proof -
  have shown: "label_shows cd dt now cid ''Allocated'' (ch_status c) (ch_disconnected_at c) \<longleftrightarrow> c = as_allocated cid"
    if "ch_id c = cid" for c dt
    using that by (cases c) (auto simp: label_shows_def)
  note get = hm_get_in_set [OF wf [unfolded pod_wf_def]]
    hm_get_in_set [OF pod_wf_merge [OF wf, unfolded pod_wf_def]]
  have "c \<in> set (characters_on_pod cd cfg (allocated_pod cfg cid p) [] now) \<longleftrightarrow>
      c = as_allocated cid \<or> c \<in> set (characters_on_pod cd cfg p [] now) \<and> ch_id c \<noteq> cid" for c
    unfolding characters_on_pod_set get
    by (cases "ch_id c = cid") (use valid shown in auto)
  then show ?thesis by blast
qed

lemma has_character_ids: "has_character cid chars \<longleftrightarrow> cid \<in> ch_id ` set chars"
  by (auto simp: has_character_def list_ex_iff)

lemma characters_count:
  "pod_wf p \<Longrightarrow> length (characters_on_pod cd cfg p req now) = card (ch_id ` set (characters_on_pod cd cfg p req now))"
  using distinct_card [OF characters_on_pod_distinct] by (metis length_map list.set_map)

lemma allocated_count:
  assumes "pod_wf p" and "valid_character_id cid"
  shows "length (characters_on_pod cd cfg (allocated_pod cfg cid p) [] now) =
    (if has_character cid (characters_on_pod cd cfg p [] now) then length (characters_on_pod cd cfg p [] now)
     else Suc (length (characters_on_pod cd cfg p [] now)))"
proof -
  let ?ids = "ch_id ` set (characters_on_pod cd cfg p [] now)"
  have "ch_id ` set (characters_on_pod cd cfg (allocated_pod cfg cid p) [] now) = insert cid ?ids"
    by (auto simp: allocated_characters [OF assms] image_iff)
  then show ?thesis
    by (simp add: characters_count assms pod_wf_merge has_character_ids card_insert_if)
qed

section \<open>Several directors and one API server\<close>

text \<open>The Pods of the namespace by name, and how the API server answers a label write.\<close>

type_synonym cluster = "string \<Rightarrow> pod option"
type_synonym patcher = "patch_request \<Rightarrow> cluster \<Rightarrow> cluster option"

text \<open>Optimistic concurrency of a merge patch that carries a resource version.\<close>

definition optimistic :: "patcher \<Rightarrow> bool" where
  "optimistic patch \<longleftrightarrow> (\<forall>pr cl cl'. patch pr cl = Some cl' \<longrightarrow>
     (\<exists>q v. cl (pr_pod pr) = Some q
        \<and> om_resource_version (pod_metadata q) = Some (pr_resource_version pr)
        \<and> cl' = cl(pr_pod pr \<mapsto> set_version v (merge_label (pr_label pr) (pr_value pr) q))))"

text \<open>
  Whatever the server stores has a name and a resource version that no earlier state of the Pod had.
\<close>

definition versioned_change :: "pod set \<Rightarrow> cluster \<Rightarrow> cluster \<Rightarrow> bool" where
  "versioned_change stored cl cl' \<longleftrightarrow> (\<forall>n q. cl' n = Some q \<and> cl n \<noteq> Some q \<longrightarrow>
     om_name (pod_metadata q) = Some n \<and> om_resource_version (pod_metadata q) \<noteq> None \<and> pod_wf q
     \<and> (\<forall>p\<in>stored. om_name (pod_metadata p) = Some n \<longrightarrow>
          om_resource_version (pod_metadata p) \<noteq> om_resource_version (pod_metadata q)))"

text \<open>The lists a query reads show states that the server has stored.\<close>

definition lists_stored :: "query_server \<Rightarrow> k8s_api \<Rightarrow> int \<Rightarrow> cold_event list \<Rightarrow> pod set \<Rightarrow> bool" where
  "lists_stored qs api now events stored \<longleftrightarrow>
     (\<forall>a t lr resp r p. (a, t) \<in> seen api now events \<and> api_list a lr = Inr resp \<and> r \<in> set (lresp_items resp)
        \<and> qs_decode qs r = Some p \<longrightarrow> p \<in> stored)"

text \<open>
  A step is labelled with what the cluster sees of it: a change by someone else, or a label write of a
  query for a character, with the times at which the query read the clock. Any number of directors
  with the same configuration take steps; each reads its snapshots at any earlier time.
\<close>

datatype world_event = Others | Allocation string string "int set"

inductive world_step :: "query_server \<Rightarrow> patcher \<Rightarrow> cluster \<times> pod set \<Rightarrow> world_event \<Rightarrow> cluster \<times> pod set \<Rightarrow> bool"
  for qs patch where
  ws_others: "versioned_change stored cl cl' \<Longrightarrow>
    world_step qs patch (cl, stored) Others (cl', stored \<union> ran cl')"
| ws_allocation: "process_access qs (Query map_name character friends) client api now events = (r, es) \<Longrightarrow>
    PatchLabel pr \<in> set es \<Longrightarrow> lists_stored qs api now events stored \<Longrightarrow>
    patch pr cl = Some cl' \<Longrightarrow> versioned_change stored cl cl' \<Longrightarrow>
    world_step qs patch (cl, stored) (Allocation (pr_pod pr) character (snd ` seen api now events))
      (cl', stored \<union> ran cl')"

inductive world_run :: "query_server \<Rightarrow> patcher \<Rightarrow> cluster \<times> pod set \<Rightarrow> world_event list \<Rightarrow> cluster \<times> pod set \<Rightarrow> bool"
  for qs patch where
  wr_nil: "world_run qs patch w [] w"
| wr_snoc: "world_run qs patch w es w' \<Longrightarrow> world_step qs patch w' e w'' \<Longrightarrow> world_run qs patch w (es @ [e]) w''"

text \<open>The specification: one atomic step that takes a slot of the Pod as it is now.\<close>

definition takes_slot :: "config \<Rightarrow> codecs \<Rightarrow> string \<Rightarrow> int \<Rightarrow> pod \<Rightarrow> bool" where
  "takes_slot cfg cd cid now q \<longleftrightarrow> pod_ready q \<and> \<not> pod_draining q
     \<and> (let chars = characters_on_pod cd cfg q [] now in
        has_character cid chars \<or> length chars < cfg_max_characters_per_server cfg)"

inductive atomic_step :: "query_server \<Rightarrow> cluster \<Rightarrow> world_event \<Rightarrow> cluster \<Rightarrow> bool" for qs where
  as_others: "atomic_step qs cl Others cl'"
| as_allocation: "cl n = Some q \<Longrightarrow> now \<in> ts \<Longrightarrow> valid_character_id cid \<Longrightarrow>
    takes_slot (qs_config qs) (qs_codecs qs) cid now q \<Longrightarrow>
    cl' = cl(n \<mapsto> set_version v (allocated_pod (qs_config qs) cid q)) \<Longrightarrow>
    atomic_step qs cl (Allocation n cid ts) cl'"

inductive atomic_run :: "query_server \<Rightarrow> cluster \<Rightarrow> world_event list \<Rightarrow> cluster \<Rightarrow> bool" for qs where
  ar_nil: "atomic_run qs cl [] cl"
| ar_snoc: "atomic_run qs cl es cl' \<Longrightarrow> atomic_step qs cl' e cl'' \<Longrightarrow> atomic_run qs cl (es @ [e]) cl''"

inductive_cases world_stepE: "world_step qs patch (cl, stored) e w'"

section \<open>The stored versions identify states\<close>

definition world_inv :: "cluster \<times> pod set \<Rightarrow> bool" where
  "world_inv w \<longleftrightarrow> (\<forall>n q. fst w n = Some q \<longrightarrow> q \<in> snd w \<and> om_name (pod_metadata q) = Some n)
     \<and> (\<forall>p\<in>snd w. pod_wf p)
     \<and> (\<forall>p\<in>snd w. \<forall>q\<in>snd w. om_name (pod_metadata p) = om_name (pod_metadata q)
          \<and> om_resource_version (pod_metadata p) = om_resource_version (pod_metadata q) \<longrightarrow> p = q)"

definition world_start :: "cluster \<times> pod set" where
  "world_start = (\<lambda>_. None, {})"

lemma world_inv_start: "world_inv world_start"
  by (simp add: world_inv_def world_start_def)

lemma world_inv_change:
  assumes inv: "world_inv (cl, stored)" and change: "versioned_change stored cl cl'"
  shows "world_inv (cl', stored \<union> ran cl')"
proof -
  let ?name = "\<lambda>p. om_name (pod_metadata p)" and ?ver = "\<lambda>p. om_resource_version (pod_metadata p)"
  have named: "?name q = Some n" if "cl' n = Some q" for n q
    using that inv change unfolding world_inv_def versioned_change_def by (cases "cl n = Some q") auto
  have wf: "pod_wf q" if "cl' n = Some q" for n q
    using that inv change unfolding world_inv_def versioned_change_def by (cases "cl n = Some q") auto
  have old: "q = p" if "cl' n = Some q" "p \<in> stored" "?name p = ?name q" "?ver p = ?ver q" for n p q
  proof (cases "cl n = Some q")
    case True
    then have "q \<in> stored" using inv unfolding world_inv_def by auto
    then show ?thesis using inv that unfolding world_inv_def by auto
  next
    case False
    then have "?ver p \<noteq> ?ver q"
      using change that named [OF that(1)] unfolding versioned_change_def by auto
    then show ?thesis using that(4) by simp
  qed
  have "p = q" if "p \<in> stored \<union> ran cl'" "q \<in> stored \<union> ran cl'" "?name p = ?name q" "?ver p = ?ver q" for p q
  proof (cases "p \<in> stored \<and> q \<in> stored")
    case True
    then show ?thesis using inv that unfolding world_inv_def by auto
  next
    case False
    then show ?thesis using that old named by (auto simp: ran_def) (metis option.inject)+
  qed
  then show ?thesis using named wf inv unfolding world_inv_def by (auto simp: ran_def)
qed

lemma world_inv_step: "world_step qs patch w e w' \<Longrightarrow> world_inv w \<Longrightarrow> world_inv w'"
  by (induction rule: world_step.induct) (auto intro: world_inv_change)

lemma world_inv_run: "world_run qs patch w es w' \<Longrightarrow> world_inv w \<Longrightarrow> world_inv w'"
  by (induction rule: world_run.induct) (auto intro: world_inv_step)

section \<open>One label write is one atomic step\<close>

lemma query_resources_snapshot_items:
  "query_resources_snapshot api ns mapping sq ls ann = Inr (rs, v) \<Longrightarrow>
     \<exists>lr resp. api_list api lr = Inr resp \<and> set rs \<subseteq> set (lresp_items resp)"
  by (auto simp: query_resources_snapshot_def result_simps split: sum.splits option.splits
      dest!: try_filter_Inr intro!: exI [of _ "list_request_of ns mapping ls"])

lemma process_access_valid:
  "process_access qs request client api now events = (r, es) \<Longrightarrow> es \<noteq> [] \<Longrightarrow> valid_access (access_params request)"
  by (auto simp: process_access_def lift_def split: if_splits)

lemma written_label:
  assumes run: "process_access qs (Query map_name character friends) client api now events = (r, es)"
    and pr: "PatchLabel pr \<in> set es"
  shows "pr_label pr = allocation_key (qs_config qs) character" "pr_value pr = ''Allocated''"
    "valid_character_id character"
proof -
  show "valid_character_id character"
    using process_access_valid [OF run] pr by (cases es) (auto simp: valid_access_def)
  show "pr_label pr = allocation_key (qs_config qs) character"
    by (rule label_write_decided [OF run pr]) (simp add: allocation_key_def)
  show "pr_value pr = ''Allocated''" by (rule label_write_decided [OF run pr]) simp
qed

text \<open>The Pod a query writes to is, when the server accepts the write, the Pod its snapshot showed.\<close>

lemma accepted_write_current:
  assumes inv: "world_inv (cl, stored)" and opt: "optimistic patch"
    and run: "process_access qs (Query map_name character friends) client api now events = (r, es)"
    and pr: "PatchLabel pr \<in> set es" and lists: "lists_stored qs api now events stored"
    and accepted: "patch pr cl = Some cl'"
  obtains q t v where "cl (pr_pod pr) = Some q" "t \<in> snd ` seen api now events" "valid_character_id character"
    "takes_slot (qs_config qs) (qs_codecs qs) character t q"
    "cl' = cl(pr_pod pr \<mapsto> set_version v (allocated_pod (qs_config qs) character q))"
    "om_name (pod_metadata q) = Some (pr_pod pr)"
proof -
  from run pr obtain mapping map_name' character' friends' api' t resource p chars name version where
    q: "Query map_name character friends = Query map_name' character' friends'" "(api', t) \<in> seen api now events"
    and "server_mapping (qs_config qs) = Some mapping"
    and "decision (access_env_of qs client (Query map_name character friends) mapping) character' api' t (resource, p, chars)"
    and o: "offers (access_env_of qs client (Query map_name character friends) mapping) character' api' t resource p chars"
    and p: "om_name (pod_metadata p) = Some name" "om_resource_version (pod_metadata p) = Some version"
    and pr_eq: "pr = \<lparr>pr_namespace = de_namespace (cfg_default_endpoint (qs_config qs)), pr_pod = name,
            pr_resource_version = version,
            pr_label = cfg_character_label_prefix (qs_config qs) @ ''/'' @ character',
            pr_value = ''Allocated''\<rparr>"
    by (rule label_write_decided) (rule that)
  have character: "character' = character" using q(1) by simp
  obtain current v where current: "cl name = Some current" "om_resource_version (pod_metadata current) = Some version"
    "cl' = cl(name \<mapsto> set_version v (allocated_pod (qs_config qs) character current))"
    using opt [unfolded optimistic_def, rule_format, OF accepted] by (auto simp: pr_eq allocation_key_def character)
  obtain rs snapshot_version where rs: "resource \<in> set rs" "qs_decode qs resource = Some p"
    "read_snapshot (access_env_of qs client (Query map_name character friends) mapping) api' = Inr (rs, snapshot_version)"
    using o by (auto simp: offers_def)
  from query_resources_snapshot_items [OF rs(3) [unfolded read_snapshot_def]] obtain lr resp where
    "api_list api' lr = Inr resp" "resource \<in> set (lresp_items resp)" using rs(1) by blast
  then have "p \<in> stored" using lists q(2) rs(2) unfolding lists_stored_def by blast
  moreover have "current \<in> stored" "om_name (pod_metadata current) = Some name"
    using inv current(1) unfolding world_inv_def by auto
  ultimately have "current = p" using inv current(2) p unfolding world_inv_def by auto
  moreover note written_label(3) [OF run pr]
  moreover have "t \<in> snd ` seen api now events" using q(2) by force
  moreover have "takes_slot (qs_config qs) (qs_codecs qs) character t p"
    using o by (auto simp: offers_def takes_slot_def character Let_def)
  ultimately show thesis using current p(1) by (intro that [of p t v]) (simp_all add: pr_eq)
qed

lemma world_step_atomic:
  assumes "world_step qs patch w e w'" and "world_inv w" and "optimistic patch"
  shows "atomic_step qs (fst w) e (fst w')"
  using assms
proof (induction rule: world_step.induct)
  case (ws_allocation map_name character friends client api now events r es pr stored cl cl')
  from accepted_write_current [OF ws_allocation(6,7,1-4)] obtain q t v where
    "cl (pr_pod pr) = Some q" "t \<in> snd ` seen api now events" "valid_character_id character"
    "takes_slot (qs_config qs) (qs_codecs qs) character t q"
    "cl' = cl(pr_pod pr \<mapsto> set_version v (allocated_pod (qs_config qs) character q))" by metis
  from as_allocation [OF this] show ?case by (simp only: fst_conv)
qed (simp add: as_others)

lemma world_run_atomic:
  assumes "world_run qs patch w es w'" and "world_inv w" and "optimistic patch"
  shows "atomic_run qs (fst w) es (fst w')"
  using assms
proof (induction rule: world_run.induct)
  case (wr_snoc w es w' e w'')
  then show ?case using world_inv_run world_step_atomic by (blast intro: ar_snoc)
qed (simp add: ar_nil)

section \<open>Sample: one API server and one query\<close>

text \<open>An API server that compares versions, and the cluster whose only Pod is the sample's empty one.\<close>

definition strict_patch :: patcher where
  "strict_patch pr cl = (case cl (pr_pod pr) of
     None \<Rightarrow> None
   | Some q \<Rightarrow> if om_resource_version (pod_metadata q) = Some (pr_resource_version pr)
       then Some (cl(pr_pod pr \<mapsto> set_version (pr_resource_version pr @ ''1'') (merge_label (pr_label pr) (pr_value pr) q)))
       else None)"

lemma strict_patch_optimistic: "optimistic strict_patch"
  by (auto simp: optimistic_def strict_patch_def split: option.splits if_splits)

definition sample_cluster :: cluster where
  "sample_cluster = (\<lambda>_. None)(''p'' \<mapsto> sample_pod, ''q'' \<mapsto> empty_pod)"

definition sample_after :: cluster where
  "sample_after = sample_cluster(''q'' \<mapsto> set_version ''11'' (allocated_pod sample_config ''z'' empty_pod))"

lemma sample_meta_values:
  "om_name (pod_metadata sample_pod) = Some ''p''" "om_resource_version (pod_metadata sample_pod) = Some ''1''"
  "om_name (pod_metadata empty_pod) = Some ''q''" "om_resource_version (pod_metadata empty_pod) = Some ''1''"
  "pod_wf sample_pod" "pod_wf empty_pod"
  by (simp_all add: sample_pod_def empty_pod_def pod_wf_def)

lemma sample_patched: "strict_patch sample_patch sample_cluster = Some sample_after"
  by (simp add: strict_patch_def sample_cluster_def sample_patch_def sample_after_def sample_meta_values
      allocation_key_def sample_config_def)

lemma sample_world_start: "world_step sample_server strict_patch world_start Others (sample_cluster, {} \<union> ran sample_cluster)"
  unfolding world_start_def
  by (rule ws_others) (auto simp: versioned_change_def sample_cluster_def sample_meta_values split: if_splits)

lemma sample_ran: "ran sample_cluster = {sample_pod, empty_pod}"
  by (simp add: sample_cluster_def insert_commute)

lemma sample_lists_stored: "lists_stored sample_server sample_api 5 [] ({} \<union> ran sample_cluster)"
  by (auto simp: lists_stored_def seen_def sample_ran sample_server_def split: if_splits)

lemma sample_change: "versioned_change ({} \<union> ran sample_cluster) sample_cluster sample_after"
proof -
  let ?new = "set_version ''11'' (allocated_pod sample_config ''z'' empty_pod)"
  have "n = ''q'' \<and> p = ?new" if "sample_after n = Some p" "sample_cluster n \<noteq> Some p" for n p
    using that by (cases "n = ''q''") (simp_all add: sample_after_def)
  moreover have "om_name (pod_metadata ?new) = Some ''q''" "om_resource_version (pod_metadata ?new) = Some ''11''"
    "pod_wf ?new" by (simp_all add: sample_meta_values)
  moreover have "om_resource_version (pod_metadata p) = Some ''1''" if "p \<in> {} \<union> ran sample_cluster" for p
    using that unfolding sample_ran by (auto simp only: Un_empty_left insert_iff empty_iff sample_meta_values)
  ultimately show ?thesis unfolding versioned_change_def by fastforce
qed

lemma sample_world_step:
  "world_step sample_server strict_patch (sample_cluster, {} \<union> ran sample_cluster) (Allocation ''q'' ''z'' {5})
     (sample_after, ({} \<union> ran sample_cluster) \<union> ran sample_after)"
proof -
  have pod: "pr_pod sample_patch = ''q''" and times: "snd ` seen sample_api 5 [] = {5}"
    by (simp_all add: sample_patch_def seen_def)
  have "PatchLabel sample_patch \<in> set [LockAssignments, ListPods sample_list, PatchLabel sample_patch,
      InstallRoute sample_client ''10.0.0.2'' [((7777, Udp), 7777)], UnlockAssignments]" by simp
  from ws_allocation [where patch = strict_patch, OF sample_query this sample_lists_stored sample_patched sample_change] show ?thesis
    unfolding pod times .
qed

lemma sample_world_run:
  "world_run sample_server strict_patch world_start ([] @ [Others]) (sample_cluster, {} \<union> ran sample_cluster)"
  by (rule wr_snoc [OF wr_nil sample_world_start])

section \<open>Properties\<close>

text \<open>
  C28. Written and read back: whatever a query writes for its character, the character discovery reads as
  that character, Allocated, from the Pod that carries the label, at every time; the other characters of
  the Pod are read as before, and the Pod holds one character more exactly if it did not show this one.
\<close>

theorem written_label_reads_back:
  assumes "process_access qs (Query map_name character friends) client api now events = (r, es)"
    and "PatchLabel pr \<in> set es" and "pod_wf q"
  shows "let before = characters_on_pod cd (qs_config qs) q [] t;
             after = characters_on_pod cd (qs_config qs) (merge_label (pr_label pr) (pr_value pr) q) [] t
         in set after = insert (as_allocated character) {c \<in> set before. ch_id c \<noteq> character}
          \<and> length after = (if has_character character before then length before else Suc (length before))"
proof -
  note label = written_label [OF assms(1,2)]
  show ?thesis
    by (simp add: Let_def label allocated_characters allocated_count assms(3))
qed

lemma written_label_reads_back_witness:
  "as_allocated ''z'' \<in> set (characters_on_pod sample_codecs sample_config (merge_label ''c/z'' ''Allocated'' sample_pod) [] 5)
   \<and> length (characters_on_pod sample_codecs sample_config (merge_label ''c/z'' ''Allocated'' sample_pod) [] 5) = 3"
proof -
  have "PatchLabel sample_patch \<in> set [LockAssignments, ListPods sample_list, PatchLabel sample_patch,
      InstallRoute sample_client ''10.0.0.2'' [((7777, Udp), 7777)], UnlockAssignments]" by simp
  moreover have "qs_config sample_server = sample_config" by (simp add: sample_server_def)
  moreover have "\<not> has_character ''z'' [char_used, char_away]"
    by (simp add: has_character_def char_used_def char_away_def)
  ultimately show ?thesis
    using written_label_reads_back [OF sample_query _ sample_meta_values(5), of sample_patch sample_codecs 5]
    by (simp add: Let_def sample_patch_def sample_characters)
qed

text \<open>
  C6. Any number of directors that query one cluster through an API server with optimistic concurrency
  behave as if each label write were one atomic step that looks at the Pod as it is stored at that
  moment, finds it ready, not draining and with room for the character (or already showing it) at a
  time at which the query read the clock, and adds the label: the snapshot being older makes no difference.
\<close>

theorem label_writes_refine_atomic_allocation:
  assumes "world_run qs patch world_start es w" and "optimistic patch"
  shows "atomic_run qs (\<lambda>_. None) es (fst w)"
  using world_run_atomic [OF assms(1) world_inv_start assms(2)] by (simp add: world_start_def)

lemma label_writes_refine_atomic_allocation_witness:
  "atomic_run sample_server (\<lambda>_. None) ([] @ [Others] @ [Allocation ''q'' ''z'' {5}]) sample_after"
  using label_writes_refine_atomic_allocation
    [OF wr_snoc [OF sample_world_run sample_world_step] strict_patch_optimistic] by simp

text \<open>
  C4. No slot is sold twice, however many directors race for it: every label write that the API server
  accepts goes to a Pod that then shows the character as Allocated, and that shows at most the
  configured number of characters at a time at which the query read the clock, unless it showed
  the character before, in which case its number of characters stays the same.
\<close>

theorem no_slot_sold_twice:
  assumes "world_run qs patch world_start es w" and "optimistic patch"
    and "world_step qs patch w (Allocation n character ts) w'"
  shows "\<exists>q q' t. fst w n = Some q \<and> fst w' n = Some q' \<and> t \<in> ts \<and> pod_ready q
    \<and> (let before = characters_on_pod (qs_codecs qs) (qs_config qs) q [] t;
           after = characters_on_pod (qs_codecs qs) (qs_config qs) q' [] t
       in as_allocated character \<in> set after
        \<and> (if has_character character before then length after = length before
           else length after \<le> cfg_max_characters_per_server (qs_config qs)))"
proof -
  have inv: "world_inv w" by (rule world_inv_run [OF assms(1) world_inv_start])
  from world_step_atomic [OF assms(3) inv assms(2)] obtain q t v where
    q: "fst w n = Some q" "t \<in> ts" "valid_character_id character"
      "takes_slot (qs_config qs) (qs_codecs qs) character t q"
      "fst w' = (fst w)(n \<mapsto> set_version v (allocated_pod (qs_config qs) character q))"
    by (cases rule: atomic_step.cases) auto
  moreover have "pod_wf q" using inv q(1) unfolding world_inv_def by blast
  ultimately show ?thesis
    by (intro exI [of _ q] exI [of _ "set_version v (allocated_pod (qs_config qs) character q)"] exI [of _ t])
       (auto simp: takes_slot_def Let_def allocated_characters allocated_count)
qed

lemma no_slot_sold_twice_witness:
  "\<exists>t. as_allocated ''z'' \<in> set (characters_on_pod sample_codecs sample_config
     (set_version ''11'' (allocated_pod sample_config ''z'' empty_pod)) [] t)"
proof -
  from no_slot_sold_twice [OF sample_world_run strict_patch_optimistic sample_world_step] show ?thesis
    by (auto simp: Let_def sample_after_def sample_server_def simp del: characters_set_version)
qed

end
