(* ===== verification/SessionSpec.thy ===== *)
theory SessionSpec
  imports Session
begin

text \<open>
  What the session table of \<open>src/session.rs\<close> is for, as an abstract specification: a lease per client IP, which
  is a route with the time it was last used. Running the operations of the session manager one after
  the other refines it, sockets and their tasks included. The receive tasks of a replaced session
  are shown to end under every interleaving.
\<close>

section \<open>Leases\<close>

type_synonym route = "string \<times> port_mappings"
type_synonym leases = "ip_addr \<Rightarrow> (route \<times> nat) option"

definition leases_of :: "session_store \<Rightarrow> leases" where
  "leases_of st ip =
     map_option (\<lambda>s. ((s_target_ip s, s_port_mappings s), s_last_activity s)) (sm_get st ip)"

text \<open>The calls of the session manager's clients and of its cleanup task.\<close>

datatype table_op =
    Upsert nat socket_addr string port_mappings
  | GetSocket bool u16 socket_addr
  | Touch nat socket_addr
  | Cleanup u64 nat
  | ClearAll

fun run_op :: "table_op \<Rightarrow> session_store \<Rightarrow> session_store" where
  "run_op (Upsert now client target mappings) st = upsert_multi_port now client target mappings st"
| "run_op (GetSocket bound proxy_port client) st =
     (case get_mut_by_addr st client of
        None \<Rightarrow> st
      | Some (key, s) \<Rightarrow>
          (case get_or_create_udp_socket bound proxy_port client s (st_sockets st) of
             Inl e \<Rightarrow> st
           | Inr (sid, s', socks) \<Rightarrow> put_session key s' (st\<lparr>st_sockets := socks\<rparr>)))"
| "run_op (Touch now client) st = touch_by_addr now client st"
| "run_op (Cleanup timeout now) st = fst (cleanup_tick timeout None now (st, ()))"
| "run_op ClearAll st = clear_all st"

fun spec_op :: "table_op \<Rightarrow> leases \<Rightarrow> leases" where
  "spec_op (Upsert now client target mappings) ls = ls(sa_ip client \<mapsto> ((target, mappings), now))"
| "spec_op (GetSocket bound proxy_port client) ls = ls"
| "spec_op (Touch now client) ls =
     (\<lambda>ip. if ip = sa_ip client then map_option (\<lambda>(r, _). (r, now)) (ls ip) else ls ip)"
| "spec_op (Cleanup timeout now) ls =
     (\<lambda>ip. case ls ip of Some (r, used) \<Rightarrow> if now - used > unat timeout * 1000000000 then None else Some (r, used)
        | None \<Rightarrow> None)"
| "spec_op ClearAll ls = (\<lambda>_. None)"

lemma run_op_whole: "run_op op st = st \<or> whole_step st (run_op op st)"
proof (cases op)
  case (GetSocket bound proxy_port client)
  show ?thesis
  proof (cases "get_mut_by_addr st client")
    case (Some ks)
    obtain k s where ks: "ks = (k, s)" by force
    show ?thesis
    proof (cases "get_or_create_udp_socket bound proxy_port client s (st_sockets st)")
      case (Inr r)
      obtain sid s' socks where "r = (sid, s', socks)" by (cases r)
      then show ?thesis using ws_socket [OF Some [unfolded ks]] Inr Some ks GetSocket by simp
    qed (simp add: GetSocket Some ks)
  qed (simp add: GetSocket)
qed (auto intro: whole_step.intros)

lemma run_op_inv: "store_inv st \<Longrightarrow> store_inv (run_op op st)"
  using run_op_whole [of op st] store_inv_whole_step by auto

lemma run_ops_inv: "store_inv st \<Longrightarrow> store_inv (fold run_op ops st)"
  by (induction ops arbitrary: st) (auto intro: run_op_inv)

lemma sm_get_cleanup_tick:
  assumes "isolated st"
  shows "sm_get (fst (cleanup_tick t cb now (st, w))) ip =
      (case sm_get st ip of Some s \<Rightarrow> if is_timed_out t now s then None else Some s | None \<Rightarrow> None)"
  using isolatedD(1) [OF assms]
  by (simp add: sm_get_def cleanup_tick_def cleanup_fold_get in_cleanup_scan split: option.splits)

lemma leases_get_socket: "isolated st \<Longrightarrow> leases_of (run_op (GetSocket bound pp client) st) = leases_of st"
  by (auto simp: leases_of_def fun_eq_iff get_mut_by_addr_inv split: option.splits sum.splits
      elim!: get_or_create_cases)

lemma leases_run_op:
  assumes "isolated st"
  shows "leases_of (run_op op st) = spec_op op (leases_of st)"
proof (cases op)
  case (Upsert now client target mappings)
  then show ?thesis by (auto simp: leases_of_def fun_eq_iff sm_get_upsert new_multi_port_def)
next
  case (GetSocket bound pp client)
  then show ?thesis using leases_get_socket [OF assms] by simp
next
  case (Touch now client)
  then show ?thesis
    by (auto simp: leases_of_def fun_eq_iff sm_get_touch [OF assms] session_touch_def option.map_comp comp_def)
next
  case (Cleanup timeout now)
  then show ?thesis
    by (auto simp: leases_of_def fun_eq_iff sm_get_cleanup_tick [OF assms] is_timed_out_def split: option.splits)
next
  case ClearAll
  then show ?thesis by (simp add: leases_of_def fun_eq_iff sm_get_def)
qed

lemma leases_run_ops:
  "store_inv st \<Longrightarrow> leases_of (fold run_op ops st) = fold spec_op ops (leases_of st)"
  by (induction ops arbitrary: st) (auto simp: leases_run_op store_invD(1) run_op_inv)

text \<open>
  C8. The session table implements leases: after any sequence of operations from the empty table, the route
  that any address is forwarded along is the lease of its IP in the specification, in which installing
  replaces the lease, using it renews it, a cleanup pass ends the overdue ones, shutdown ends all, and
  creating sockets changes nothing; and the table keeps no socket alive that no lease needs.
\<close>

theorem session_table_refines_leases:
  "leases_of (fold run_op ops store_new) = fold spec_op ops (\<lambda>_. None)
   \<and> route_of (fold run_op ops store_new) addr = map_option fst (fold spec_op ops (\<lambda>_. None) (sa_ip addr))
   \<and> store_inv (fold run_op ops store_new)"
proof -
  let ?st = "fold run_op ops store_new"
  have leases: "leases_of ?st = fold spec_op ops (\<lambda>_. None)"
    using leases_run_ops [OF store_inv_new, of ops] by (simp add: leases_of_def [abs_def] sm_get_def store_new_def)
  have inv: "store_inv ?st" by (rule run_ops_inv [OF store_inv_new])
  have "route_of ?st addr = map_option fst (leases_of ?st (sa_ip addr))"
    by (simp add: route_of_def get_by_addr_inv [OF store_invD(1) [OF inv]] leases_of_def option.map_comp comp_def)
  then show ?thesis using leases inv by simp
qed

section \<open>Receive tasks end\<close>

text \<open>
  A receive task over a script of its turns: the sockets as they are when the turn begins, and what
  the turn receives. The result is what it forwards, and whether it has ended.
\<close>

fun receive_task ::
  "sock_id \<Rightarrow> (session_socket list \<times> receive_result) list \<Rightarrow> (socket_addr \<times> u8 list) list \<times> bool" where
  "receive_task sid [] = ([], False)"
| "receive_task sid ((socks, r) # turns) =
     (case receive_turn socks sid r of
        TaskEnds \<Rightarrow> ([], True)
      | TaskForwards client bytes \<Rightarrow>
          (case receive_task sid turns of (out, ended) \<Rightarrow> ((client, bytes) # out, ended))
      | TaskPolls \<Rightarrow> receive_task sid turns)"

definition stopped :: "session_socket list \<Rightarrow> sock_id \<Rightarrow> bool" where
  "stopped socks sid \<longleftrightarrow> sid < length socks \<and> sk_shutdown (socks ! sid)"

lemma stopped_shutdown_all [simp]: "stopped socks sid \<Longrightarrow> stopped (shutdown_all ids socks) sid"
  by (auto simp: stopped_def shutdown_all_nth)

lemma stopped_iff: "stopped socks sid \<longleftrightarrow> sid < length socks \<and> \<not> live socks sid"
  by (auto simp: stopped_def live_def)

lemma stopped_table_step:
  assumes "table_step st st'" and "stopped (st_sockets st) sid"
  shows "stopped (st_sockets st') sid"
  using assms
proof (induction rule: table_step.induct)
  case (ts_socket st client k s bound pp i s' socks)
  from ts_socket(2) show ?case
    by (cases rule: get_or_create_cases) (use ts_socket(3) in \<open>auto simp: stopped_def nth_append\<close>)
next
  case (ts_touch st now client)
  then show ?case by (simp add: touch_by_addr_def sm_touch_def split: option.splits)
next
  case (ts_cleanup st key)
  then show ?case by (auto simp: cleanup_remove_def shutdown_sockets_def Let_def split: option.splits)
next
  case (ts_sweep st key)
  then show ?case by (auto simp: sweep_session_def shutdown_sockets_def split: option.splits)
qed (auto simp: upsert_shutdown_old_sockets upsert_insert_def drop_session_def split: option.splits)

lemma stopped_reachable:
  "table_step\<^sup>*\<^sup>* st st' \<Longrightarrow> stopped (st_sockets st) sid \<Longrightarrow> stopped (st_sockets st') sid"
  by (induction rule: rtranclp_induct) (auto intro: stopped_table_step)

lemma receive_task_stopped:
  "stopped socks sid \<Longrightarrow> receive_task sid ((socks, r) # turns) = ([], True)"
  by (simp add: stopped_def receive_turn_def)

lemma upsert_stops:
  assumes "isolated st" and "refers st (sa_ip client) pk sid"
  shows "stopped (st_sockets (upsert_shutdown_old client st)) sid"
proof -
  obtain s where s: "sm_get st (sa_ip client) = Some s" "hm_get (s_udp_sockets s) pk = Some sid"
    using assms(2) by (auto simp: refers_def)
  then have "sid \<in> set (map snd (s_udp_sockets s))" by (force dest: map_of_SomeD)
  moreover have "sid < length (st_sockets st)"
    using isolatedD(4) [OF assms] by (simp add: live_def)
  ultimately show ?thesis
    by (auto simp: stopped_iff upsert_shutdown_old_sockets s(1) live_shutdown_all simp del: set_map)
qed

text \<open>
  C24. Replacing a session ends its receive tasks, under every interleaving: from the moment the first
  half of the replacement has run, every task of the old session ends at its next look at the flag, whatever other
  tasks do to the table in between and whatever arrives, so at most the one datagram that a task
  was already waiting for is still forwarded.
\<close>

theorem replaced_session_tasks_end:
  assumes "table_step\<^sup>*\<^sup>* store_new st" and "refers st (sa_ip client) pk sid"
    and "table_step\<^sup>*\<^sup>* (upsert_shutdown_old client st) st'"
  shows "receive_task sid ((st_sockets st', r) # turns) = ([], True)"
  by (rule receive_task_stopped
      [OF stopped_reachable [OF assms(3) upsert_stops [OF isolated_reachable [OF assms(1)] assms(2)]]])

lemma replaced_session_tasks_end_witness:
  "receive_task 0 ((st_sockets (upsert_shutdown_old sample_peer sample_store), Received [1]) # []) = ([], True)
   \<and> receive_task 0 ((st_sockets sample_store, Received [1]) # []) = ([(sample_client, [1])], False)"
proof -
  have "refers sample_store (sa_ip sample_peer) (7777, 5000) 0"
    by (simp add: refers_def sm_get_def sample_defs)
  from replaced_session_tasks_end [OF whole_reachable_table [OF sample_store_reached] this rtranclp.rtrancl_refl]
  show ?thesis by (simp add: receive_turn_def sample_defs)
qed

end
