(* ===== verification/Shutdown.thy ===== *)
theory Shutdown
  imports SessionSpec
begin

text \<open>
  \<open>clear_all\<close> of \<open>src/session.rs\<close> as \<open>main\<close> runs it: next to the tasks of the program, which are not stopped
  before. Its two passes go over the table one session at a time, and between two visits any other task may take
  a step of its own. Shown are what the passes reach whatever comes in between, and what they can miss.
\<close>

section \<open>Clearing next to the tasks\<close>

text \<open>
  A pass visits every session that is in the table when it begins, and may visit any other that it comes across:
  \<open>Sweeping\<close> and \<open>Dropping\<close> hold the keys still to be visited. A route being replaced is between the two halves
  of \<open>upsert_multi_port\<close> for an IP in \<open>cl_replacing\<close>; \<open>cl_installed\<close> records the IPs whose second half ran
  during the clearing.
\<close>

datatype clear_phase = Sweeping "session_key list" | Dropping "session_key list" | Cleared

record clearing =
  cl_store :: session_store
  cl_phase :: clear_phase
  cl_replacing :: "ip_addr list"
  cl_installed :: "ip_addr list"

definition start_clearing :: "session_store \<Rightarrow> ip_addr list \<Rightarrow> clearing" where
  "start_clearing st replacing =
     \<lparr>cl_store = st, cl_phase = Sweeping (hm_keys (st_sessions st)), cl_replacing = replacing, cl_installed = []\<rparr>"

inductive clear_step :: "clearing \<Rightarrow> clearing \<Rightarrow> bool" where
  cs_sweep: "cl_phase s = Sweeping todo \<Longrightarrow>
    clear_step s (s\<lparr>cl_store := sweep_session key (cl_store s), cl_phase := Sweeping (removeAll key todo)\<rparr>)"
| cs_swept: "cl_phase s = Sweeping [] \<Longrightarrow>
    clear_step s (s\<lparr>cl_phase := Dropping (hm_keys (st_sessions (cl_store s)))\<rparr>)"
| cs_drop: "cl_phase s = Dropping todo \<Longrightarrow>
    clear_step s (s\<lparr>cl_store := drop_session key (cl_store s), cl_phase := Dropping (removeAll key todo)\<rparr>)"
| cs_dropped: "cl_phase s = Dropping [] \<Longrightarrow> clear_step s (s\<lparr>cl_phase := Cleared\<rparr>)"
| cs_replace: "clear_step s (s\<lparr>cl_store := upsert_shutdown_old client (cl_store s),
    cl_replacing := sa_ip client # cl_replacing s\<rparr>)"
| cs_install: "sa_ip client \<in> set (cl_replacing s) \<Longrightarrow>
    clear_step s (s\<lparr>cl_store := upsert_insert now client ip m (cl_store s),
      cl_replacing := remove1 (sa_ip client) (cl_replacing s), cl_installed := sa_ip client # cl_installed s\<rparr>)"
| cs_socket: "get_mut_by_addr (cl_store s) client = Some (k, x) \<Longrightarrow>
    get_or_create_udp_socket bound pp client x (st_sockets (cl_store s)) = Inr (sid, x', socks) \<Longrightarrow>
    clear_step s (s\<lparr>cl_store := put_session k x' ((cl_store s)\<lparr>st_sockets := socks\<rparr>)\<rparr>)"
| cs_touch: "clear_step s (s\<lparr>cl_store := touch_by_addr now client (cl_store s)\<rparr>)"
| cs_cleanup: "clear_step s (s\<lparr>cl_store := fst (cleanup_remove None key (cl_store s, ()))\<rparr>)"

text \<open>Every step is one of the table's, so the sessions stay isolated and stopped sockets stay stopped.\<close>

lemma clear_step_table: "clear_step s s' \<Longrightarrow> cl_store s' = cl_store s \<or> table_step (cl_store s) (cl_store s')"
  by (induction rule: clear_step.induct) (auto intro: table_step.intros)

lemma clear_step_isolated: "clear_step s s' \<Longrightarrow> isolated (cl_store s) \<Longrightarrow> isolated (cl_store s')"
  using clear_step_table isolated_table_step by metis

lemma clear_step_stopped:
  "clear_step s s' \<Longrightarrow> stopped (st_sockets (cl_store s)) sid \<Longrightarrow> stopped (st_sockets (cl_store s')) sid"
  using clear_step_table stopped_table_step by metis

section \<open>What the passes reach\<close>

text \<open>How the other tasks' steps treat an entry of an IP whose route they do not replace.\<close>

lemma refers_shutdown_old: "sa_ip client \<noteq> ip \<Longrightarrow> refers (upsert_shutdown_old client st) ip = refers st ip"
  by (simp add: refers_def [abs_def] upsert_shutdown_old_get)

lemma refers_insert: "sa_ip client \<noteq> ip \<Longrightarrow> refers (upsert_insert now client a m st) ip = refers st ip"
  by (auto simp: refers_def [abs_def] upsert_insert_def)

lemma refers_touch: "isolated st \<Longrightarrow> refers (touch_by_addr now client st) ip = refers st ip"
  by (auto simp: refers_def [abs_def] sm_get_touch session_touch_def fun_eq_iff)

lemma refers_socket:
  assumes "isolated st" and "get_mut_by_addr st client = Some (k, x)"
    and "get_or_create_udp_socket bound pp client x (st_sockets st) = Inr (i, x', socks)" and "refers st ip pk sid"
  shows "refers (put_session k x' (st\<lparr>st_sockets := socks\<rparr>)) ip pk sid"
proof -
  have k: "k = LegacyIp (sa_ip client)" "sm_get st (sa_ip client) = Some x"
    using get_mut_isolated [OF assms(1,2)] by auto
  from assms(3) show ?thesis
  proof (cases rule: get_or_create_cases)
    case reused
    then show ?thesis using assms(4) k by (auto simp: refers_def)
  next
    case created
    then have "\<not> (ip = sa_ip client \<and> pk = (pp, sa_port client))" using assms(4) k by (auto simp: refers_def)
    then show ?thesis using refers_create [OF k(2), of "(pp, sa_port client)" i socks ip pk sid] assms(4)
      by (simp only: k(1) created(4) if_False)
  qed
qed

lemma refers_cleanup:
  assumes iso: "isolated st" and r: "refers st ip pk sid"
  shows "refers (fst (cleanup_remove None key (st, ()))) ip pk sid
    \<or> stopped (st_sockets (fst (cleanup_remove None key (st, ())))) sid"
proof (cases "hm_get (st_sessions st) key")
  case None
  with r show ?thesis by (simp add: cleanup_remove_def)
next
  case (Some x)
  let ?st' = "fst (cleanup_remove None key (st, ()))"
  obtain a where a: "key = LegacyIp a" "sm_get st a = Some x"
    "st_sockets ?st' = shutdown_all (map snd (s_udp_sockets x)) (st_sockets st)"
    "\<And>ip'. ip' \<noteq> a \<Longrightarrow> sm_get ?st' ip' = sm_get st ip'"
    using cleanup_remove_drop [of "(st, ())" key x None] iso Some by (metis fst_conv)
  show ?thesis
  proof (cases "a = ip")
    case True
    have "sid \<in> set (map snd (s_udp_sockets x))"
      using refers_ids [OF a(2) isolatedD(3) [OF iso a(2)], of sid] r True by blast
    then have "\<not> live (st_sockets ?st') sid" by (simp only: a(3) live_shutdown_all) simp
    moreover have "sid < length (st_sockets ?st')" using isolatedD(4) [OF iso r] by (simp add: a(3) live_def)
    ultimately show ?thesis by (simp add: stopped_iff)
  next
    case False
    then show ?thesis using r a(4) by (simp add: refers_def)
  qed
qed

lemma sweep_stops: "isolated st \<Longrightarrow> refers st ip pk sid \<Longrightarrow> stopped (st_sockets (sweep_session (LegacyIp ip) st)) sid"
  using upsert_stops [of st "\<lparr>sa_ip = ip, sa_port = 0, sa_scope_id = 0\<rparr>" pk sid]
    sweep_legacy [of "\<lparr>sa_ip = ip, sa_port = 0, sa_scope_id = 0\<rparr>" st] by simp

text \<open>A socket of the table at the start is stopped, or its session is still to be visited by the first pass.\<close>

definition reached :: "ip_addr \<Rightarrow> u16 \<times> u16 \<Rightarrow> sock_id \<Rightarrow> clearing \<Rightarrow> bool" where
  "reached ip pk sid s \<longleftrightarrow> isolated (cl_store s)
     \<and> (stopped (st_sockets (cl_store s)) sid
        \<or> refers (cl_store s) ip pk sid \<and> ip \<notin> set (cl_replacing s)
          \<and> (\<exists>todo. cl_phase s = Sweeping todo \<and> LegacyIp ip \<in> set todo))"

lemma reached_step:
  assumes step: "clear_step s s'" and inv: "reached ip pk sid s"
  shows "reached ip pk sid s'"
proof -
  have iso: "isolated (cl_store s)" using inv by (simp add: reached_def)
  have iso': "isolated (cl_store s')" by (rule clear_step_isolated [OF step iso])
  show ?thesis
  proof (cases "stopped (st_sockets (cl_store s)) sid")
    case True
    then show ?thesis using clear_step_stopped [OF step] iso' by (simp add: reached_def)
  next
    case False
    then obtain todo where r: "refers (cl_store s) ip pk sid" "ip \<notin> set (cl_replacing s)"
      "cl_phase s = Sweeping todo" "LegacyIp ip \<in> set todo" using inv by (auto simp: reached_def)
    have "stopped (st_sockets (cl_store s')) sid
        \<or> refers (cl_store s') ip pk sid \<and> ip \<notin> set (cl_replacing s')
          \<and> (\<exists>todo. cl_phase s' = Sweeping todo \<and> LegacyIp ip \<in> set todo)"
      using step r
    proof (cases rule: clear_step.cases)
      case (cs_sweep todo' key)
      then show ?thesis using r sweep_stops [OF iso r(1)] by (cases "key = LegacyIp ip") (auto simp: refers_sweep [OF iso])
    next
      case (cs_replace client)
      then show ?thesis using r upsert_stops [OF iso, of client pk sid] refers_shutdown_old
        by (cases "sa_ip client = ip") auto
    next
      case (cs_install client now a m)
      then have "sa_ip client \<noteq> ip" using r(2) by auto
      then show ?thesis using r refers_insert [of client ip] cs_install by (auto dest: notin_set_remove1)
    next
      case (cs_socket client k x bound pp i x' socks)
      then show ?thesis using r refers_socket [OF iso cs_socket(2,3) r(1)] by simp
    next
      case (cs_cleanup key)
      then show ?thesis using r refers_cleanup [OF iso r(1), of key] by auto
    qed (use r refers_touch [OF iso] in auto)
    then show ?thesis using iso' by (simp add: reached_def)
  qed
qed

text \<open>A session that the second pass is not still to visit was installed during the clearing.\<close>

definition dropped :: "clearing \<Rightarrow> bool" where
  "dropped s \<longleftrightarrow> isolated (cl_store s) \<and> (\<forall>ip. sm_get (cl_store s) ip \<noteq> None \<longrightarrow>
     (case cl_phase s of Sweeping todo \<Rightarrow> True
      | Dropping todo \<Rightarrow> LegacyIp ip \<in> set todo \<or> ip \<in> set (cl_installed s)
      | Cleared \<Rightarrow> ip \<in> set (cl_installed s)))"

lemma dropped_step:
  assumes step: "clear_step s s'" and inv: "dropped s"
  shows "dropped s'"
proof -
  have iso: "isolated (cl_store s)" using inv by (simp add: dropped_def)
  have iso': "isolated (cl_store s')" by (rule clear_step_isolated [OF step iso])
  have old: "case cl_phase s of Sweeping todo \<Rightarrow> True
      | Dropping todo \<Rightarrow> LegacyIp ip \<in> set todo \<or> ip \<in> set (cl_installed s)
      | Cleared \<Rightarrow> ip \<in> set (cl_installed s)" if "sm_get (cl_store s) ip \<noteq> None" for ip
    using inv that unfolding dropped_def by blast
  have "case cl_phase s' of Sweeping todo \<Rightarrow> True
      | Dropping todo \<Rightarrow> LegacyIp ip \<in> set todo \<or> ip \<in> set (cl_installed s')
      | Cleared \<Rightarrow> ip \<in> set (cl_installed s')" if got: "sm_get (cl_store s') ip \<noteq> None" for ip
    using step got
  proof (cases rule: clear_step.cases)
    case cs_swept
    then show ?thesis using got by (simp add: sm_get_def map_of_eq_None_iff)
  next
    case (cs_drop todo key)
    then show ?thesis using got old [of ip] by (auto simp: drop_session_def sm_get_def split: if_splits)
  next
    case cs_dropped
    then show ?thesis using got old [of ip] by simp
  next
    case (cs_replace client)
    then show ?thesis using got old [of ip] by (auto simp: upsert_shutdown_old_get split: if_splits clear_phase.splits)
  next
    case (cs_install client now a m)
    then show ?thesis using got old [of ip]
      by (cases "ip = sa_ip client") (auto simp: upsert_insert_def split: clear_phase.splits)
  next
    case (cs_socket client k x bound pp i x' socks)
    then show ?thesis using got old [of ip] get_mut_isolated [OF iso cs_socket(2)]
      by (auto split: if_splits clear_phase.splits)
  next
    case (cs_touch now client)
    then show ?thesis using got old [of ip] by (auto simp: sm_get_touch [OF iso] split: if_splits clear_phase.splits)
  next
    case (cs_cleanup key)
    then show ?thesis using got old [of ip]
      by (auto simp: cleanup_remove_def Let_def sm_get_def split: option.splits if_splits clear_phase.splits)
  qed simp
  then show ?thesis using iso' unfolding dropped_def by blast
qed

lemma reached_start:
  assumes "isolated st" and "refers st ip pk sid" and "ip \<notin> set replacing"
  shows "reached ip pk sid (start_clearing st replacing)"
proof -
  have "LegacyIp ip \<in> set (hm_keys (st_sessions st))"
  proof (rule ccontr)
    assume "LegacyIp ip \<notin> set (hm_keys (st_sessions st))"
    then have "hm_get (st_sessions st) (LegacyIp ip) = None" by (simp add: map_of_eq_None_iff)
    then show False using assms(2) by (simp add: refers_def sm_get_def)
  qed
  then show ?thesis using assms by (simp add: reached_def start_clearing_def)
qed

interpretation clear_run: step_invariant clear_step "start_clearing st replacing"
    "\<lambda>s. isolated st \<longrightarrow> dropped s \<and> (refers st ip pk sid \<and> ip \<notin> set replacing \<longrightarrow> reached ip pk sid s)"
  for st replacing ip pk sid
  by unfold_locales (use reached_start dropped_step reached_step in \<open>auto simp: dropped_def start_clearing_def\<close>)

lemmas clear_reachable = clear_run.inv_reachable [rule_format]

text \<open>With no other task in between the steps are those of \<open>clear_all\<close>.\<close>

lemma clear_sweeps:
  "clear_step\<^sup>*\<^sup>* (s\<lparr>cl_store := st, cl_phase := Sweeping todo\<rparr>)
     (s\<lparr>cl_store := fold sweep_session keys st, cl_phase := Sweeping (fold removeAll keys todo)\<rparr>)"
proof (induction keys arbitrary: st todo)
  case (Cons key keys)
  have "clear_step (s\<lparr>cl_store := st, cl_phase := Sweeping todo\<rparr>)
      (s\<lparr>cl_store := sweep_session key st, cl_phase := Sweeping (removeAll key todo)\<rparr>)"
    using cs_sweep [of "s\<lparr>cl_store := st, cl_phase := Sweeping todo\<rparr>" todo key] by simp
  from converse_rtranclp_into_rtranclp [of clear_step, OF this Cons.IH] show ?case by simp
qed simp

lemma clear_drops:
  "clear_step\<^sup>*\<^sup>* (s\<lparr>cl_store := st, cl_phase := Dropping todo\<rparr>)
     (s\<lparr>cl_store := fold drop_session keys st, cl_phase := Dropping (fold removeAll keys todo)\<rparr>)"
proof (induction keys arbitrary: st todo)
  case (Cons key keys)
  have "clear_step (s\<lparr>cl_store := st, cl_phase := Dropping todo\<rparr>)
      (s\<lparr>cl_store := drop_session key st, cl_phase := Dropping (removeAll key todo)\<rparr>)"
    using cs_drop [of "s\<lparr>cl_store := st, cl_phase := Dropping todo\<rparr>" todo key] by simp
  from converse_rtranclp_into_rtranclp [of clear_step, OF this Cons.IH] show ?case by simp
qed simp

lemma fold_removeAll: "fold removeAll keys xs = filter (\<lambda>x. x \<notin> set keys) xs"
  by (induction keys arbitrary: xs) (auto simp: removeAll_filter_not_eq intro!: filter_cong)

lemma clear_all_run:
  "clear_step\<^sup>*\<^sup>* (start_clearing st replacing) ((start_clearing st replacing)\<lparr>cl_store := clear_all st, cl_phase := Cleared\<rparr>)"
proof -
  let ?s = "start_clearing st replacing"
  let ?swept = "fold sweep_session (hm_keys (st_sessions st)) st"
  have none: "fold removeAll keys keys = []" for keys :: "session_key list"
    by (simp add: fold_removeAll filter_empty_conv)
  have "clear_step\<^sup>*\<^sup>* ?s (?s\<lparr>cl_store := ?swept, cl_phase := Sweeping []\<rparr>)"
    using clear_sweeps [where s = ?s and st = st and keys = "hm_keys (st_sessions st)" and todo = "hm_keys (st_sessions st)"]
    by (simp add: none start_clearing_def)
  also have "clear_step (?s\<lparr>cl_store := ?swept, cl_phase := Sweeping []\<rparr>)
      (?s\<lparr>cl_store := ?swept, cl_phase := Dropping (hm_keys (st_sessions ?swept))\<rparr>)"
    using cs_swept [of "?s\<lparr>cl_store := ?swept, cl_phase := Sweeping []\<rparr>"] by simp
  also have "clear_step\<^sup>*\<^sup>* (?s\<lparr>cl_store := ?swept, cl_phase := Dropping (hm_keys (st_sessions ?swept))\<rparr>)
      (?s\<lparr>cl_store := clear_all st, cl_phase := Dropping []\<rparr>)"
    using clear_drops [where s = ?s and st = ?swept and keys = "hm_keys (st_sessions ?swept)" and todo = "hm_keys (st_sessions ?swept)"]
    by (simp only: none clear_all_def Let_def)
  also have "clear_step (?s\<lparr>cl_store := clear_all st, cl_phase := Dropping []\<rparr>)
      (?s\<lparr>cl_store := clear_all st, cl_phase := Cleared\<rparr>)"
    using cs_dropped [of "?s\<lparr>cl_store := clear_all st, cl_phase := Dropping []\<rparr>"] by simp
  finally show ?thesis .
qed

section \<open>Properties\<close>

text \<open>
  C29. Clearing the table at shutdown, under every interleaving with the tasks that go on: once the first pass
  has visited the sessions it found, every receive task a session had when the clearing began ends at its
  next look at the flag, whatever other tasks did to the table in between and whatever arrives, unless the
  session was in the middle of being replaced; and when the second pass is through, the only sessions
  left are those installed during the clearing.
\<close>

theorem clearing_stops_sessions:
  assumes "table_step\<^sup>*\<^sup>* store_new st" and "clear_step\<^sup>*\<^sup>* (start_clearing st replacing) s"
    and "refers st ip pk sid" and "ip \<notin> set replacing"
  shows "((\<forall>todo. cl_phase s \<noteq> Sweeping todo) \<longrightarrow>
        receive_task sid ((st_sockets (cl_store s), r) # turns) = ([], True))
    \<and> (cl_phase s = Cleared \<and> sm_get (cl_store s) other \<noteq> None \<longrightarrow> other \<in> set (cl_installed s))"
proof -
  have iso: "isolated st" by (rule isolated_reachable [OF assms(1)])
  have "dropped s" and "reached ip pk sid s"
    using clear_reachable [OF assms(2) iso] assms(3,4) by blast+
  then have "(\<forall>todo. cl_phase s \<noteq> Sweeping todo) \<longrightarrow> stopped (st_sockets (cl_store s)) sid"
    and "cl_phase s = Cleared \<and> sm_get (cl_store s) other \<noteq> None \<longrightarrow> other \<in> set (cl_installed s)"
    by (auto simp: reached_def dropped_def)
  with receive_task_stopped show ?thesis by blast
qed

lemma clearing_stops_sessions_witness:
  "receive_task 0 ((st_sockets (clear_all sample_store), Received [1]) # []) = ([], True)
   \<and> sm_get (clear_all sample_store) (IPv4 192 0 2 1) = None
   \<and> receive_task 0 ((st_sockets sample_store, Received [1]) # []) = ([(sample_client, [1])], False)"
proof -
  let ?cleared = "(start_clearing sample_store [])\<lparr>cl_store := clear_all sample_store, cl_phase := Cleared\<rparr>"
  have "refers sample_store (IPv4 192 0 2 1) (7777, 5000) 0"
    by (simp add: refers_def sm_get_def sample_defs)
  from clearing_stops_sessions [OF whole_reachable_table [OF sample_store_reached] clear_all_run [of sample_store "[]"] this,
      where r = "Received [1]" and turns = "[]" and other = "IPv4 192 0 2 1"]
  have "receive_task 0 ((st_sockets (clear_all sample_store), Received [1]) # []) = ([], True)"
    "sm_get (clear_all sample_store) (IPv4 192 0 2 1) = None"
    by (simp_all add: start_clearing_def del: receive_task.simps)
  moreover have "receive_task 0 ((st_sockets sample_store, Received [1]) # []) = ([(sample_client, [1])], False)"
    by (simp add: receive_turn_def sample_defs)
  ultimately show ?thesis by simp
qed

text \<open>
  What the passes can miss: a packet of a client that comes between the two visits of its session opens a socket in
  it, and the second pass drops the session without telling that socket to shut down. Its receive task goes on
  for as long as the process does.
\<close>

theorem packet_between_passes_stays_live:
  "\<exists>s sid. clear_step\<^sup>*\<^sup>* (start_clearing sample_store []) s \<and> cl_phase s = Cleared
     \<and> st_sessions (cl_store s) = [] \<and> live (st_sockets (cl_store s)) sid
     \<and> receive_task sid ((st_sockets (cl_store s), Received [1]) # []) = ([(sample_client, [1])], False)"
proof -
  let ?key = "LegacyIp (IPv4 192 0 2 1)"
  let ?x = "\<lparr>s_target_ip = ''10.0.0.1'', s_port_mappings = sample_ports, s_last_activity = 0, s_udp_sockets = []\<rparr>"
  let ?x' = "?x\<lparr>s_udp_sockets := [((7777, 5000), 1)]\<rparr>"
  let ?old = "\<lparr>sk_client = sample_client, sk_proxy_port = 7777, sk_shutdown = True\<rparr>"
  let ?new = "\<lparr>sk_client = sample_client, sk_proxy_port = 7777, sk_shutdown = False\<rparr>"
  define s0 where "s0 = start_clearing sample_store []"
  define s1 where "s1 = s0\<lparr>cl_store := \<lparr>st_sessions = [(?key, ?x)], st_sockets = [?old]\<rparr>, cl_phase := Sweeping []\<rparr>"
  define s2 where "s2 = s1\<lparr>cl_phase := Dropping [?key]\<rparr>"
  define s3 where "s3 = s2\<lparr>cl_store := \<lparr>st_sessions = [(?key, ?x')], st_sockets = [?old, ?new]\<rparr>\<rparr>"
  define s4 where "s4 = s3\<lparr>cl_store := \<lparr>st_sessions = [], st_sockets = [?old, ?new]\<rparr>, cl_phase := Dropping []\<rparr>"
  define s5 where "s5 = s4\<lparr>cl_phase := Cleared\<rparr>"
  note evals = sweep_session_def table_defs sample_defs
  have "sweep_session ?key sample_store = \<lparr>st_sessions = [(?key, ?x)], st_sockets = [?old]\<rparr>" by (simp add: evals)
  then have "clear_step s0 s1"
    using cs_sweep [where s = s0 and todo = "[?key]" and key = ?key]
    by (simp add: s0_def s1_def start_clearing_def) (simp add: sample_defs)
  moreover have "clear_step s1 s2" using cs_swept [of s1] by (simp add: s1_def s2_def)
  moreover have "clear_step s2 s3"
  proof -
    have "get_mut_by_addr (cl_store s2) sample_client = Some (?key, ?x)"
      "get_or_create_udp_socket True 7777 sample_client ?x (st_sockets (cl_store s2)) = Inr (1, ?x', [?old, ?new])"
      by (simp_all add: s1_def s2_def evals)
    from cs_socket [OF this] show ?thesis by (simp add: s1_def s2_def s3_def put_session_def)
  qed
  moreover have "clear_step s3 s4"
    using cs_drop [where s = s3 and todo = "[?key]" and key = ?key]
    by (simp add: s2_def s3_def s4_def drop_session_def)
  moreover have "clear_step s4 s5" using cs_dropped [of s4] by (simp add: s4_def s5_def)
  ultimately have run: "clear_step\<^sup>*\<^sup>* s0 s5"
    by (meson converse_rtranclp_into_rtranclp rtranclp.rtrancl_refl)
  have "cl_phase s5 = Cleared" "st_sessions (cl_store s5) = []" "live (st_sockets (cl_store s5)) 1"
    "receive_task 1 ((st_sockets (cl_store s5), Received [1]) # []) = ([(sample_client, [1])], False)"
    by (simp_all add: s4_def s5_def live_def receive_turn_def)
  with run [unfolded s0_def] show ?thesis by blast
qed

end
