(* ===== verification/ColdStart.thy ===== *)
theory ColdStart
  imports Demand QueryServer
begin

text \<open>
  Concurrent cold queries of one director: \<open>process_access\<close> of \<open>src/query_server.rs\<close> cut where other tasks
  can run, that is at the assignment lock, at the flight of \<open>src/demand.rs\<close> and at the waits. A query holds
  its flight from its first wait to its end. The lemmas show that the lock is exclusive, that holders and
  waiting queries agree, and what queries of one backend group share.
\<close>

section \<open>Queries and steps\<close>

datatype query_phase = Queued | Deciding | Awaiting | Finished

record cold_query =
  cq_map :: string
  cq_phase :: query_phase
  cq_flight :: "flight_id option"

record cold_state =
  co_queries :: "cold_query list"
  co_lock :: "nat option"
  co_demand :: capacity_demand

definition cold_start :: cold_state where
  "cold_start = \<lparr>co_queries = [], co_lock = None, co_demand = demand_new\<rparr>"

definition arrive :: "string \<Rightarrow> cold_state \<Rightarrow> cold_state" where
  "arrive map_name s = s\<lparr>co_queries := co_queries s @ [\<lparr>cq_map = map_name, cq_phase = Queued, cq_flight = None\<rparr>]\<rparr>"

text \<open>Taking the lock: at the beginning, or after a wait.\<close>

definition enter :: "nat \<Rightarrow> cold_state \<Rightarrow> cold_state" where
  "enter i s = s\<lparr>co_queries := (co_queries s)[i := (co_queries s ! i)\<lparr>cq_phase := Deciding\<rparr>], co_lock := Some i\<rparr>"

text \<open>The function returns, with whatever result: the guard and the flight are dropped.\<close>

definition finish :: "nat \<Rightarrow> cold_state \<Rightarrow> cold_state" where
  "finish i s =
     s\<lparr>co_queries := (co_queries s)[i := (co_queries s ! i)\<lparr>cq_phase := Finished, cq_flight := None\<rparr>],
       co_lock := (if co_lock s = Some i then None else co_lock s),
       co_demand := (case cq_flight (co_queries s ! i) of None \<Rightarrow> co_demand s | Some f \<Rightarrow> release f (co_demand s))\<rparr>"

text \<open>No candidate: the guard is dropped and the query takes part in a flight, once.\<close>

definition begin_waiting :: "capacity_demand_config \<Rightarrow> nat \<Rightarrow> nat \<Rightarrow> cold_state \<Rightarrow> cold_state" where
  "begin_waiting cfg now i s =
     (let q = co_queries s ! i in
      case cq_flight q of
        Some f \<Rightarrow> s\<lparr>co_queries := (co_queries s)[i := q\<lparr>cq_phase := Awaiting\<rparr>], co_lock := None\<rparr>
      | None \<Rightarrow>
          (case signal now cfg (demand_group cfg (cq_map q)) (co_demand s) of
             (Inl _, d) \<Rightarrow> finish i (s\<lparr>co_lock := None, co_demand := d\<rparr>)
           | (Inr f, d) \<Rightarrow>
               s\<lparr>co_queries := (co_queries s)[i := q\<lparr>cq_phase := Awaiting, cq_flight := Some f\<rparr>],
                 co_lock := None, co_demand := d\<rparr>))"

text \<open>Awaiting the flight's answer, which ends the query unless the signal was accepted.\<close>

definition await_flight :: "bool \<Rightarrow> bool \<Rightarrow> nat option \<Rightarrow> nat \<Rightarrow> cold_state \<Rightarrow> cold_state" where
  "await_flight in_time built status i s =
     (case cq_flight (co_queries s ! i) of
        None \<Rightarrow> s
      | Some f \<Rightarrow>
          (case await_accepted in_time built status f (co_demand s) of
             (Inl _, d) \<Rightarrow> finish i (s\<lparr>co_demand := d\<rparr>)
           | (Inr _, d) \<Rightarrow> s\<lparr>co_demand := d\<rparr>))"

definition phase_of :: "cold_state \<Rightarrow> nat \<Rightarrow> query_phase option" where
  "phase_of s i = (if i < length (co_queries s) then Some (cq_phase (co_queries s ! i)) else None)"

definition accepted :: "cold_state \<Rightarrow> nat \<Rightarrow> bool" where
  "accepted s i = (case cq_flight (co_queries s ! i) of None \<Rightarrow> False
     | Some f \<Rightarrow> fl_accepted (cap_heap (co_demand s) ! f) = Some (Inr ()))"

text \<open>
  A waiting query that was accepted goes on when Pods have changed and the lock is free; one that
  waits may end at any time, by its deadline, by its client leaving or by a failed watch.
\<close>

inductive cold_step :: "capacity_demand_config \<Rightarrow> cold_state \<Rightarrow> cold_state \<Rightarrow> bool" for cfg where
  cs_arrive: "cold_step cfg s (arrive map_name s)"
| cs_lock: "phase_of s i = Some Queued \<Longrightarrow> co_lock s = None \<Longrightarrow> cold_step cfg s (enter i s)"
| cs_decided: "phase_of s i = Some Deciding \<Longrightarrow> cold_step cfg s (finish i s)"
| cs_no_candidate: "phase_of s i = Some Deciding \<Longrightarrow> cold_step cfg s (begin_waiting cfg now i s)"
| cs_await: "phase_of s i = Some Awaiting \<Longrightarrow> cold_step cfg s (await_flight in_time built status i s)"
| cs_woken: "phase_of s i = Some Awaiting \<Longrightarrow> accepted s i \<Longrightarrow> co_lock s = None \<Longrightarrow> cold_step cfg s (enter i s)"
| cs_gives_up: "phase_of s i = Some Awaiting \<Longrightarrow> cold_step cfg s (finish i s)"

section \<open>Counting holders\<close>

definition holders :: "flight_id \<Rightarrow> cold_query list \<Rightarrow> nat" where
  "holders f qs = length (filter (\<lambda>q. cq_flight q = Some f) qs)"

lemma holders_update:
  "i < length qs \<Longrightarrow> holders f (qs[i := q]) + (if cq_flight (qs ! i) = Some f then 1 else 0)
     = holders f qs + (if cq_flight q = Some f then 1 else 0)"
proof (induction qs arbitrary: i)
  case (Cons x qs)
  then show ?case by (cases i) (auto simp: holders_def)
qed simp

lemma holders_pos: "i < length qs \<Longrightarrow> cq_flight (qs ! i) = Some f \<Longrightarrow> holders f qs > 0"
  by (auto simp: holders_def filter_empty_conv)

lemma holders_append [simp]: "holders f (qs @ [q]) = holders f qs + (if cq_flight q = Some f then 1 else 0)"
  by (simp add: holders_def)

lemma strong_release: "strong_count (release f st) f' = (if f' = f then strong_count st f' - 1 else strong_count st f')"
  by (auto simp: strong_count_def release_def nth_list_update)

lemma strong_await [simp]: "strong_count (snd (await_accepted t b c f st)) f' = strong_count st f'"
  by (auto simp: strong_count_def await_accepted_def Let_def nth_update_all split: option.splits)

lemma heap_release [simp]:
  "length (cap_heap (release f st)) = length (cap_heap st)"
  "fl_group (cap_heap (release f st) ! f') = fl_group (cap_heap st ! f')"
  "fl_accepted (cap_heap (release f st) ! f') = fl_accepted (cap_heap st ! f')"
  by (auto simp: release_def nth_update_all)

lemma heap_await [simp]:
  "length (cap_heap (snd (await_accepted t b c f st))) = length (cap_heap st)"
  "fl_group (cap_heap (snd (await_accepted t b c f st)) ! f') = fl_group (cap_heap st ! f')"
  by (auto simp: await_accepted_def Let_def nth_update_all split: option.splits)

lemma accepted_await:
  "fl_accepted (cap_heap st ! f') = Some r \<Longrightarrow> fl_accepted (cap_heap (snd (await_accepted t b c f st)) ! f') = Some r"
  by (auto simp: await_accepted_def Let_def nth_update_all split: option.splits)

text \<open>What joining or starting a flight does to the others.\<close>

lemma signal_effect:
  assumes "demand_inv st" and "signal now cfg grp st = (Inr f, st')"
  shows "strong_count st' f' = strong_count st f' + (if f' = f then 1 else 0)" "f < length (cap_heap st')"
    "fl_group (cap_heap st' ! f) = grp" "length (cap_heap st) \<le> length (cap_heap st')"
    "f' < length (cap_heap st) \<Longrightarrow> fl_group (cap_heap st' ! f') = fl_group (cap_heap st ! f')"
    "f' < length (cap_heap st) \<Longrightarrow> fl_accepted (cap_heap st' ! f') = fl_accepted (cap_heap st ! f')"
    "cap_posts st' = cap_posts st"
    "length (cap_heap st) < length (cap_heap st') \<Longrightarrow> hm_get (retain_live st) grp = None"
proof -
  have "(\<exists>g. hm_get (retain_live st) grp = Some f \<and> st' = st\<lparr>cap_flights := g, cap_heap := hold f (cap_heap st)\<rparr>
        \<and> f < length (cap_heap st) \<and> fl_group (cap_heap st ! f) = grp)
    \<or> (\<exists>g fl. hm_get (retain_live st) grp = None \<and> st' = st\<lparr>cap_flights := g, cap_heap := cap_heap st @ [fl]\<rparr>
        \<and> f = length (cap_heap st) \<and> fl_holders fl = 1 \<and> fl_group fl = grp)"
  proof (cases "hm_get (retain_live st) grp")
    case (Some f0)
    then have "f0 < length (cap_heap st)" "fl_group (cap_heap st ! f0) = grp"
      using demand_invD(2,3) [OF assms(1)] by (auto simp: retain_live_get [OF assms(1)] split: option.splits if_splits)
    then show ?thesis using assms(2) Some by (auto simp: signal_def Let_def split: if_splits)
  next
    case None
    have sound: "\<not> cap_poisoned st" using assms(2) by (auto simp: signal_def)
    obtain deadline where d: "instant_add now (cd_boot_timeout_seconds cfg) = Some deadline"
      using assms(2) None sound by (cases "instant_add now (cd_boot_timeout_seconds cfg)") (simp_all add: signal_def Let_def)
    let ?fl = "\<lparr>fl_endpoint = cd_endpoint cfg, fl_group = grp, fl_deadline = deadline, fl_holders = 1, fl_accepted = None\<rparr>"
    have "(f, st') = (length (cap_heap st), st\<lparr>cap_flights := hm_insert grp (length (cap_heap st)) (retain_live st),
        cap_heap := cap_heap st @ [?fl]\<rparr>)"
      using assms(2) by (simp add: signal_def Let_def None sound d eq_commute)
    then have "f = length (cap_heap st)"
      "st' = st\<lparr>cap_flights := hm_insert grp f (retain_live st), cap_heap := cap_heap st @ [?fl]\<rparr>" by (blast, blast)
    then show ?thesis using None by (intro disjI2 exI [of _ "hm_insert grp f (retain_live st)"] exI [of _ ?fl]) simp
  qed
  then consider (join) g where "hm_get (retain_live st) grp = Some f"
      "st' = st\<lparr>cap_flights := g, cap_heap := hold f (cap_heap st)\<rparr>"
      "f < length (cap_heap st)" "fl_group (cap_heap st ! f) = grp"
    | (start) g fl where "hm_get (retain_live st) grp = None"
      "st' = st\<lparr>cap_flights := g, cap_heap := cap_heap st @ [fl]\<rparr>" "f = length (cap_heap st)"
      "fl_holders fl = 1" "fl_group fl = grp" by blast
  then show "strong_count st' f' = strong_count st f' + (if f' = f then 1 else 0)" "f < length (cap_heap st')"
    "fl_group (cap_heap st' ! f) = grp" "length (cap_heap st) \<le> length (cap_heap st')"
    "f' < length (cap_heap st) \<Longrightarrow> fl_group (cap_heap st' ! f') = fl_group (cap_heap st ! f')"
    "f' < length (cap_heap st) \<Longrightarrow> fl_accepted (cap_heap st' ! f') = fl_accepted (cap_heap st ! f')"
    "cap_posts st' = cap_posts st"
    "length (cap_heap st) < length (cap_heap st') \<Longrightarrow> hm_get (retain_live st) grp = None"
    by (cases; auto simp: strong_count_def hold_def nth_list_update nth_append)+
qed

section \<open>Invariant\<close>

text \<open>What holds of a query, given the demand table.\<close>

definition query_ok :: "capacity_demand_config \<Rightarrow> capacity_demand \<Rightarrow> cold_query \<Rightarrow> bool" where
  "query_ok cfg d q \<longleftrightarrow> (cq_flight q \<noteq> None \<longrightarrow> cq_phase q \<in> {Deciding, Awaiting})
     \<and> (cq_phase q = Awaiting \<longrightarrow> cq_flight q \<noteq> None)
     \<and> (\<forall>f. cq_flight q = Some f \<longrightarrow> f < length (cap_heap d)
          \<and> fl_group (cap_heap d ! f) = demand_group cfg (cq_map q)
          \<and> (cq_phase q = Deciding \<longrightarrow> fl_accepted (cap_heap d ! f) = Some (Inr ())))"

definition cold_inv :: "capacity_demand_config \<Rightarrow> cold_state \<Rightarrow> bool" where
  "cold_inv cfg s \<longleftrightarrow> demand_inv (co_demand s)
     \<and> (\<forall>i. co_lock s = Some i \<longleftrightarrow> phase_of s i = Some Deciding)
     \<and> (\<forall>f. strong_count (co_demand s) f = holders f (co_queries s))
     \<and> list_all (query_ok cfg (co_demand s)) (co_queries s)"

lemma cold_invI:
  assumes "demand_inv (co_demand s)" and "\<And>i. co_lock s = Some i \<longleftrightarrow> phase_of s i = Some Deciding"
    and "\<And>f. strong_count (co_demand s) f = holders f (co_queries s)"
    and "list_all (query_ok cfg (co_demand s)) (co_queries s)"
  shows "cold_inv cfg s"
  using assms by (simp add: cold_inv_def)

lemma cold_invD:
  assumes "cold_inv cfg s"
  shows "demand_inv (co_demand s)" "co_lock s = Some i \<longleftrightarrow> phase_of s i = Some Deciding"
    "strong_count (co_demand s) f = holders f (co_queries s)"
    "list_all (query_ok cfg (co_demand s)) (co_queries s)"
    "i < length (co_queries s) \<Longrightarrow> query_ok cfg (co_demand s) (co_queries s ! i)"
  using assms by (auto simp: cold_inv_def list_all_length)

lemma cold_inv_start: "cold_inv cfg cold_start"
  by (simp add: cold_inv_def cold_start_def demand_inv_new phase_of_def holders_def strong_count_def)
     (simp add: demand_new_def)

text \<open>Queries stay as they should when the table only learns.\<close>

lemma query_ok_mono:
  assumes "query_ok cfg d q" and "length (cap_heap d) \<le> length (cap_heap d')"
    and "\<And>f. f < length (cap_heap d) \<Longrightarrow> fl_group (cap_heap d' ! f) = fl_group (cap_heap d ! f)"
    and "\<And>f. f < length (cap_heap d) \<Longrightarrow> fl_accepted (cap_heap d ! f) = Some (Inr ()) \<Longrightarrow> fl_accepted (cap_heap d' ! f) = Some (Inr ())"
  shows "query_ok cfg d' q"
  using assms unfolding query_ok_def by fastforce

lemma query_ok_release: "query_ok cfg d q \<Longrightarrow> query_ok cfg (release f d) q"
  by (erule query_ok_mono) simp_all

lemma query_ok_await: "query_ok cfg d q \<Longrightarrow> query_ok cfg (snd (await_accepted t b c f d)) q"
  by (erule query_ok_mono) (simp_all add: accepted_await)

lemma query_ok_signal:
  "demand_inv d \<Longrightarrow> signal now cfg' grp d = (Inr f, d') \<Longrightarrow> query_ok cfg d q \<Longrightarrow> query_ok cfg d' q"
  by (erule query_ok_mono) (use signal_effect [of d now cfg' grp f d'] in auto)

lemma phase_of_update:
  "phase_of (s\<lparr>co_queries := (co_queries s)[i := q], co_lock := l, co_demand := d\<rparr>) j =
     (if i = j \<and> j < length (co_queries s) then Some (cq_phase q) else phase_of s j)"
  by (auto simp: phase_of_def nth_update_all)

text \<open>Changing one query, the lock and the table together.\<close>

lemma cold_inv_update:
  assumes inv: "cold_inv cfg s" and i: "i < length (co_queries s)"
    and d: "demand_inv d" and ok: "query_ok cfg d q" and others: "\<And>q. query_ok cfg (co_demand s) q \<Longrightarrow> query_ok cfg d q"
    and lock: "\<And>j. l = Some j \<longleftrightarrow> (if j = i then cq_phase q = Deciding else phase_of s j = Some Deciding)"
    and count: "\<And>f. strong_count d f + (if cq_flight (co_queries s ! i) = Some f then 1 else 0)
        = strong_count (co_demand s) f + (if cq_flight q = Some f then 1 else 0)"
  shows "cold_inv cfg (s\<lparr>co_queries := (co_queries s)[i := q], co_lock := l, co_demand := d\<rparr>)"
proof (rule cold_invI)
  note D = cold_invD [OF inv]
  show "demand_inv (co_demand (s\<lparr>co_queries := (co_queries s)[i := q], co_lock := l, co_demand := d\<rparr>))" using d by simp
  show "co_lock (s\<lparr>co_queries := (co_queries s)[i := q], co_lock := l, co_demand := d\<rparr>) = Some j
      \<longleftrightarrow> phase_of (s\<lparr>co_queries := (co_queries s)[i := q], co_lock := l, co_demand := d\<rparr>) j = Some Deciding" for j
    using lock [of j] i by (auto simp: phase_of_update)
  show "strong_count (co_demand (s\<lparr>co_queries := (co_queries s)[i := q], co_lock := l, co_demand := d\<rparr>)) f
      = holders f (co_queries (s\<lparr>co_queries := (co_queries s)[i := q], co_lock := l, co_demand := d\<rparr>))" for f
    using count [of f] holders_update [OF i, of f q] D(3) [of f] by simp
  have "list_all (query_ok cfg d) (co_queries s)" using D(4) others by (auto simp: list_all_iff)
  then show "list_all (query_ok cfg (co_demand (s\<lparr>co_queries := (co_queries s)[i := q], co_lock := l, co_demand := d\<rparr>)))
      (co_queries (s\<lparr>co_queries := (co_queries s)[i := q], co_lock := l, co_demand := d\<rparr>))"
    using ok by (simp add: list_all_update)
qed

lemma cold_inv_finish:
  assumes inv: "cold_inv cfg s" and i: "i < length (co_queries s)"
  shows "cold_inv cfg (finish i s)"
proof -
  let ?q = "(co_queries s ! i)\<lparr>cq_phase := Finished, cq_flight := None\<rparr>"
  let ?d = "case cq_flight (co_queries s ! i) of None \<Rightarrow> co_demand s | Some f \<Rightarrow> release f (co_demand s)"
  note D = cold_invD [OF inv]
  have "cold_inv cfg (s\<lparr>co_queries := (co_queries s)[i := ?q],
      co_lock := (if co_lock s = Some i then None else co_lock s), co_demand := ?d\<rparr>)"
  proof (rule cold_inv_update [OF inv i])
    show "demand_inv ?d" using D(1) demand_inv_release by (auto split: option.splits)
    show "query_ok cfg ?d ?q" by (simp add: query_ok_def)
    show "query_ok cfg ?d q" if "query_ok cfg (co_demand s) q" for q
      using that query_ok_release by (auto split: option.splits)
    show "(if co_lock s = Some i then None else co_lock s) = Some j
        \<longleftrightarrow> (if j = i then cq_phase ?q = Deciding else phase_of s j = Some Deciding)" for j
      using D(2) [of j] by auto
    show "strong_count ?d f + (if cq_flight (co_queries s ! i) = Some f then 1 else 0)
        = strong_count (co_demand s) f + (if cq_flight ?q = Some f then 1 else 0)" for f
      using holders_pos [OF i, of f] D(3) [of f] by (auto simp: strong_release split: option.splits)
  qed
  then show ?thesis by (simp add: finish_def)
qed

lemma cold_inv_enter:
  assumes inv: "cold_inv cfg s" and phase: "phase_of s i = Some Queued \<or> phase_of s i = Some Awaiting \<and> accepted s i"
    and free: "co_lock s = None"
  shows "cold_inv cfg (enter i s)"
proof -
  note D = cold_invD [OF inv]
  have i: "i < length (co_queries s)" using phase by (auto simp: phase_of_def split: if_splits)
  have none: "phase_of s j \<noteq> Some Deciding" for j using D(2) [of j] free by simp
  have "cold_inv cfg (s\<lparr>co_queries := (co_queries s)[i := (co_queries s ! i)\<lparr>cq_phase := Deciding\<rparr>],
      co_lock := Some i, co_demand := co_demand s\<rparr>)"
  proof (rule cold_inv_update [OF inv i D(1)])
    show "query_ok cfg (co_demand s) ((co_queries s ! i)\<lparr>cq_phase := Deciding\<rparr>)"
      using D(5) [OF i] phase i by (auto simp: query_ok_def phase_of_def accepted_def split: option.splits)
  qed (auto simp: none)
  then show ?thesis by (simp add: enter_def)
qed

lemma cold_inv_begin_waiting:
  assumes inv: "cold_inv cfg s" and phase: "phase_of s i = Some Deciding"
  shows "cold_inv cfg (begin_waiting cfg now i s)"
proof -
  note D = cold_invD [OF inv]
  have i: "i < length (co_queries s)" using phase by (auto simp: phase_of_def split: if_splits)
  have lock: "co_lock s = Some i" using D(2) phase by simp
  have alone: "phase_of s j = Some Deciding \<longleftrightarrow> j = i" for j using D(2) [of j] lock by auto
  let ?q = "co_queries s ! i"
  show ?thesis
  proof (cases "cq_flight ?q")
    case (Some f)
    have "cold_inv cfg (s\<lparr>co_queries := (co_queries s)[i := ?q\<lparr>cq_phase := Awaiting\<rparr>], co_lock := None,
        co_demand := co_demand s\<rparr>)"
    proof (rule cold_inv_update [OF inv i D(1)])
      show "query_ok cfg (co_demand s) (?q\<lparr>cq_phase := Awaiting\<rparr>)"
        using D(5) [OF i] Some by (auto simp: query_ok_def)
    qed (auto simp: alone)
    then show ?thesis by (simp add: begin_waiting_def Some Let_def)
  next
    case None
    let ?grp = "demand_group cfg (cq_map ?q)"
    obtain r d where sig: "signal now cfg ?grp (co_demand s) = (r, d)" by force
    have d: "demand_inv d" using demand_inv_signal [OF D(1), of now cfg ?grp] sig by simp
    show ?thesis
    proof (cases r)
      case (Inl e)
      have same: "cap_heap d = cap_heap (co_demand s)"
        using sig Inl by (auto simp: signal_def Let_def split: if_splits option.splits)
      have "cold_inv cfg (s\<lparr>co_queries := (co_queries s)[i := ?q\<lparr>cq_phase := Finished, cq_flight := None\<rparr>],
          co_lock := None, co_demand := d\<rparr>)"
      proof (rule cold_inv_update [OF inv i d])
        show "query_ok cfg d (?q\<lparr>cq_phase := Finished, cq_flight := None\<rparr>)" by (simp add: query_ok_def)
        show "query_ok cfg d q" if "query_ok cfg (co_demand s) q" for q using that by (simp add: query_ok_def same)
      qed (auto simp: alone None strong_count_def same)
      then show ?thesis by (simp add: begin_waiting_def None sig Inl Let_def finish_def)
    next
      case (Inr f)
      note E = signal_effect [OF D(1) sig [unfolded Inr]]
      have "cold_inv cfg (s\<lparr>co_queries := (co_queries s)[i := ?q\<lparr>cq_phase := Awaiting, cq_flight := Some f\<rparr>],
          co_lock := None, co_demand := d\<rparr>)"
      proof (rule cold_inv_update [OF inv i d])
        show "query_ok cfg d (?q\<lparr>cq_phase := Awaiting, cq_flight := Some f\<rparr>)"
          using E(2,3) by (simp add: query_ok_def)
        show "query_ok cfg d q" if "query_ok cfg (co_demand s) q" for q
          by (rule query_ok_signal [OF D(1) sig [unfolded Inr] that])
      qed (auto simp: alone None E(1))
      then show ?thesis by (simp add: begin_waiting_def None sig Inr Let_def)
    qed
  qed
qed

lemma cold_inv_await:
  assumes inv: "cold_inv cfg s" and phase: "phase_of s i = Some Awaiting"
  shows "cold_inv cfg (await_flight in_time built status i s)"
proof -
  note D = cold_invD [OF inv]
  have i: "i < length (co_queries s)" using phase by (auto simp: phase_of_def split: if_splits)
  show ?thesis
  proof (cases "cq_flight (co_queries s ! i)")
    case (Some f)
    obtain r d where a: "await_accepted in_time built status f (co_demand s) = (r, d)" by force
    then have d: "d = snd (await_accepted in_time built status f (co_demand s))" by simp
    have f: "f < length (cap_heap (co_demand s))" using D(5) [OF i] Some by (simp add: query_ok_def)
    have inv': "cold_inv cfg (s\<lparr>co_demand := d\<rparr>)"
    proof (rule cold_invI)
      show "demand_inv (co_demand (s\<lparr>co_demand := d\<rparr>))" using demand_inv_await [OF D(1) f] by (simp add: d)
      show "co_lock (s\<lparr>co_demand := d\<rparr>) = Some j \<longleftrightarrow> phase_of (s\<lparr>co_demand := d\<rparr>) j = Some Deciding" for j
        using D(2) [of j] by (simp add: phase_of_def)
      show "strong_count (co_demand (s\<lparr>co_demand := d\<rparr>)) g = holders g (co_queries (s\<lparr>co_demand := d\<rparr>))" for g
        using D(3) by (simp add: d)
      show "list_all (query_ok cfg (co_demand (s\<lparr>co_demand := d\<rparr>))) (co_queries (s\<lparr>co_demand := d\<rparr>))"
        using D(4) query_ok_await by (auto simp: list_all_iff d)
    qed
    then show ?thesis using cold_inv_finish [OF inv', of i] i
      by (cases r) (simp_all add: await_flight_def Some a)
  qed (use inv in \<open>simp add: await_flight_def\<close>)
qed

lemma cold_inv_arrive: "cold_inv cfg s \<Longrightarrow> cold_inv cfg (arrive map_name s)"
proof -
  assume inv: "cold_inv cfg s"
  note D = cold_invD [OF inv]
  have "phase_of (arrive map_name s) i = Some Deciding \<longleftrightarrow> phase_of s i = Some Deciding" for i
    by (auto simp: phase_of_def arrive_def nth_append less_Suc_eq)
  then show ?thesis using D by (intro cold_invI) (simp_all add: arrive_def query_ok_def)
qed

lemma cold_inv_step: "cold_step cfg s s' \<Longrightarrow> cold_inv cfg s \<Longrightarrow> cold_inv cfg s'"
proof (induction rule: cold_step.induct)
  case (cs_decided s i)
  then show ?case by (intro cold_inv_finish) (auto simp: phase_of_def split: if_splits)
next
  case (cs_gives_up s i)
  then show ?case by (intro cold_inv_finish) (auto simp: phase_of_def split: if_splits)
qed (simp_all add: cold_inv_arrive cold_inv_enter cold_inv_begin_waiting cold_inv_await)

interpretation cold_run: step_invariant "cold_step cfg" cold_start "cold_inv cfg"
  for cfg
  by unfold_locales (fact cold_inv_start, fact cold_inv_step)

lemmas cold_inv_reachable = cold_run.inv_reachable

section \<open>Properties\<close>

lemma inv_query:
  assumes "cold_inv cfg s" and "i < length (co_queries s)" and "cq_flight (co_queries s ! i) = Some f"
  shows "strong_count (co_demand s) f > 0" "f < length (cap_heap (co_demand s))"
    "fl_group (cap_heap (co_demand s) ! f) = demand_group cfg (cq_map (co_queries s ! i))"
  using cold_invD(3,5) [OF assms(1)] assms(2,3) holders_pos [OF assms(2,3)] by (simp_all add: query_ok_def)

lemma same_flight:
  assumes "demand_inv d" and "strong_count d f > 0" and "strong_count d f' > 0"
    and "fl_group (cap_heap d ! f) = fl_group (cap_heap d ! f')"
  shows "f = f'"
  using live_flight_entry [OF assms(1,2)] live_flight_entry [OF assms(1,3)] unfolding assms(4) by (simp only: option.inject)

text \<open>
  C22. Concurrent cold queries share one startup signal: in every state that any interleaving of queries reaches,
  all queries of a backend group that have waited hold the same flight, each flight has sent its request
  at most once, a flight is held by exactly the unfinished queries that waited on it, and a query that looks again
  at Pods does so only after the request of its flight was accepted.
\<close>

theorem cold_queries_share_signal:
  assumes "(cold_step cfg)\<^sup>*\<^sup>* cold_start s"
    and "i < length (co_queries s)" and "cq_flight (co_queries s ! i) = Some f"
  shows "(\<forall>j f'. j < length (co_queries s) \<and> cq_flight (co_queries s ! j) = Some f'
        \<and> demand_group cfg (cq_map (co_queries s ! j)) = demand_group cfg (cq_map (co_queries s ! i)) \<longrightarrow> f' = f)
    \<and> distinct (cap_posts (co_demand s))
    \<and> strong_count (co_demand s) f = length (filter (\<lambda>q. cq_flight q = Some f) (co_queries s))
    \<and> (cq_phase (co_queries s ! i) = Deciding \<longrightarrow>
         fl_accepted (cap_heap (co_demand s) ! f) = Some (Inr ()) \<and> f \<in> set (cap_posts (co_demand s)))"
proof -
  note inv = cold_inv_reachable [OF assms(1)]
  note D = cold_invD [OF inv]
  note I = inv_query [OF inv assms(2,3)]
  have "f' = f" if "j < length (co_queries s)" "cq_flight (co_queries s ! j) = Some f'"
      "demand_group cfg (cq_map (co_queries s ! j)) = demand_group cfg (cq_map (co_queries s ! i))" for j f'
    using inv_query [OF inv that(1,2)] I that(3) by (intro same_flight [OF D(1)]) simp_all
  moreover have "cq_phase (co_queries s ! i) = Deciding \<longrightarrow> fl_accepted (cap_heap (co_demand s) ! f) = Some (Inr ())"
    using D(5) [OF assms(2)] assms(3) by (simp add: query_ok_def)
  moreover have "distinct (cap_posts (co_demand s))" by (rule demand_invD(5) [OF D(1)])
  moreover have "fl_accepted (cap_heap (co_demand s) ! f) \<noteq> None \<longrightarrow> f \<in> set (cap_posts (co_demand s))"
    using demand_invD(6) [OF D(1), of f] I(2) by blast
  ultimately show ?thesis using D(3) [of f] by (auto simp: holders_def)
qed

text \<open>Two queries of one group: both arrive, decide in turn, and wait; the first one gets the answer.\<close>

abbreviation shared_step :: "cold_state \<Rightarrow> cold_state \<Rightarrow> bool" where
  "shared_step \<equiv> cold_step sample_demand"

definition one_waits :: cold_state where
  "one_waits = begin_waiting sample_demand 0 0 (enter 0 (arrive ''m'' (arrive ''m'' cold_start)))"

definition both_wait :: cold_state where
  "both_wait = begin_waiting sample_demand 7 1 (enter 1 one_waits)"

definition one_looks :: cold_state where
  "one_looks = enter 1 (await_flight True True (Some 202) 1 both_wait)"

lemmas phase_defs = phase_of_def enter_def arrive_def cold_start_def

lemma one_waits_eval: "one_waits =
    \<lparr>co_queries = [\<lparr>cq_map = ''m'', cq_phase = Awaiting, cq_flight = Some 0\<rparr>, \<lparr>cq_map = ''m'', cq_phase = Queued, cq_flight = None\<rparr>],
     co_lock = None,
     co_demand = \<lparr>cap_flights = [(''m'', 0)], cap_heap = [\<lparr>fl_endpoint = ''http://d'', fl_group = ''m'',
       fl_deadline = 300000000000, fl_holders = 1, fl_accepted = None\<rparr>], cap_poisoned = False, cap_posts = []\<rparr>\<rparr>"
  by (simp add: one_waits_def begin_waiting_def enter_def arrive_def cold_start_def Let_def)
     (simp add: signal_def retain_live_def demand_new_def sample_demand_def instant_add_def demand_group_def)

lemma both_wait_eval: "both_wait =
    \<lparr>co_queries = [\<lparr>cq_map = ''m'', cq_phase = Awaiting, cq_flight = Some 0\<rparr>, \<lparr>cq_map = ''m'', cq_phase = Awaiting, cq_flight = Some 0\<rparr>],
     co_lock = None,
     co_demand = \<lparr>cap_flights = [(''m'', 0)], cap_heap = [\<lparr>fl_endpoint = ''http://d'', fl_group = ''m'',
       fl_deadline = 300000000000, fl_holders = 2, fl_accepted = None\<rparr>], cap_poisoned = False, cap_posts = []\<rparr>\<rparr>"
  by (simp add: both_wait_def one_waits_eval begin_waiting_def enter_def)
     (simp add: signal_def retain_live_def strong_count_def hold_def sample_demand_def demand_group_def)

lemma one_looks_eval: "one_looks =
    \<lparr>co_queries = [\<lparr>cq_map = ''m'', cq_phase = Awaiting, cq_flight = Some 0\<rparr>, \<lparr>cq_map = ''m'', cq_phase = Deciding, cq_flight = Some 0\<rparr>],
     co_lock = Some 1,
     co_demand = \<lparr>cap_flights = [(''m'', 0)], cap_heap = [\<lparr>fl_endpoint = ''http://d'', fl_group = ''m'',
       fl_deadline = 300000000000, fl_holders = 2, fl_accepted = Some (Inr ())\<rparr>], cap_poisoned = False, cap_posts = [0]\<rparr>\<rparr>"
  by (simp add: one_looks_def both_wait_eval enter_def await_flight_def await_accepted_def post_demand_def Let_def)

lemma one_looks_reached: "shared_step\<^sup>*\<^sup>* cold_start one_looks"
proof -
  let ?s2 = "arrive ''m'' (arrive ''m'' cold_start)"
  have "shared_step\<^sup>*\<^sup>* cold_start ?s2"
    by (rule rtranclp.rtrancl_into_rtrancl [OF r_into_rtranclp]; rule cs_arrive)
  also have "shared_step ?s2 (enter 0 ?s2)" by (rule cs_lock) (simp_all add: phase_defs)
  also (rtranclp.rtrancl_into_rtrancl) have "shared_step (enter 0 ?s2) one_waits"
    unfolding one_waits_def by (rule cs_no_candidate) (simp add: phase_defs)
  also (rtranclp.rtrancl_into_rtrancl) have "shared_step one_waits (enter 1 one_waits)"
    by (rule cs_lock) (simp_all add: one_waits_eval phase_of_def)
  also (rtranclp.rtrancl_into_rtrancl) have "shared_step (enter 1 one_waits) both_wait"
    unfolding both_wait_def by (rule cs_no_candidate) (simp add: one_waits_eval phase_defs)
  also (rtranclp.rtrancl_into_rtrancl) have "shared_step both_wait (await_flight True True (Some 202) 1 both_wait)"
    by (rule cs_await) (simp add: both_wait_eval phase_of_def)
  also (rtranclp.rtrancl_into_rtrancl) have "shared_step (await_flight True True (Some 202) 1 both_wait) one_looks"
    unfolding one_looks_def
    by (rule cs_woken) (simp_all add: both_wait_eval phase_of_def accepted_def await_flight_def await_accepted_def post_demand_def Let_def)
  finally (rtranclp.rtrancl_into_rtrancl) show ?thesis .
qed

lemma cold_queries_share_signal_witness:
  "strong_count (co_demand one_looks) 0 = 2 \<and> distinct (cap_posts (co_demand one_looks)) \<and> 0 \<in> set (cap_posts (co_demand one_looks))"
  using cold_queries_share_signal [OF one_looks_reached, of 1 0] by (simp add: one_looks_eval)

text \<open>
  C23. The assignment lock is exclusive and never the end of a query: in every reachable state at most one query
  decides, and it is the one that has the lock; and from every such state every query can run to its end, because
  a query that waits does not hold the lock and one that decides returns or gives it up.
\<close>

theorem no_query_is_stuck:
  assumes "(cold_step cfg)\<^sup>*\<^sup>* cold_start s" and "i < length (co_queries s)"
  shows "(phase_of s i = Some Deciding \<longleftrightarrow> co_lock s = Some i)
    \<and> (\<exists>s'. (cold_step cfg)\<^sup>*\<^sup>* s s' \<and> phase_of s' i = Some Finished)"
proof -
  note inv = cold_inv_reachable [OF assms(1)]
  have finished: "phase_of (finish j t) j = Some Finished" if "j < length (co_queries t)" for j t
    using that by (simp add: phase_of_def finish_def)
  have ends: "\<exists>s'. (cold_step cfg)\<^sup>*\<^sup>* t s' \<and> phase_of s' i = Some Finished"
    if t: "co_lock t = None" "phase_of t i = Some Queued" for t
  proof -
    have i: "i < length (co_queries t)" using t(2) by (auto simp: phase_of_def split: if_splits)
    then have "phase_of (enter i t) i = Some Deciding" "i < length (co_queries (enter i t))"
      by (simp_all add: phase_of_def enter_def)
    then have "cold_step cfg t (enter i t)" "cold_step cfg (enter i t) (finish i (enter i t))"
      "phase_of (finish i (enter i t)) i = Some Finished"
      using cs_lock [OF t(2,1)] cs_decided finished by blast+
    then show ?thesis by (meson converse_rtranclp_into_rtranclp r_into_rtranclp)
  qed
  obtain ph where ph: "phase_of s i = Some ph" using assms(2) by (simp add: phase_of_def)
  have "\<exists>s'. (cold_step cfg)\<^sup>*\<^sup>* s s' \<and> phase_of s' i = Some Finished"
  proof (cases ph)
    case Queued
    show ?thesis
    proof (cases "co_lock s")
      case None
      then show ?thesis using ends ph Queued by simp
    next
      case (Some j)
      then have j: "phase_of s j = Some Deciding" using cold_invD(2) [OF inv] by simp
      then have "j \<noteq> i" using ph Queued by auto
      then have "co_lock (finish j s) = None" "phase_of (finish j s) i = Some Queued"
        using Some ph Queued assms(2) by (simp_all add: finish_def phase_of_def)
      then show ?thesis using ends [of "finish j s"] cs_decided [OF j, of cfg]
        by (meson converse_rtranclp_into_rtranclp)
    qed
  next
    case Deciding
    then show ?thesis using ph cs_decided finished [OF assms(2)] by blast
  next
    case Awaiting
    then show ?thesis using ph cs_gives_up finished [OF assms(2)] by blast
  next
    case Finished
    then show ?thesis using ph by blast
  qed
  then show ?thesis using cold_invD(2) [OF inv, of i] by blast
qed

lemma no_query_is_stuck_witness:
  "co_lock one_looks = Some 1 \<and> (\<exists>s'. shared_step\<^sup>*\<^sup>* one_looks s' \<and> phase_of s' 0 = Some Finished)"
  using no_query_is_stuck [OF one_looks_reached, of 0] by (simp add: one_looks_eval)

end
