(* ===== verification/DefaultRoutes.thy ===== *)
theory DefaultRoutes
  imports ResourceMonitor Reachable
begin

text \<open>
  Concurrent first packets: \<open>establish_default_session\<close> of \<open>src/proxy.rs\<close> and \<open>check_default_endpoint\<close> of
  \<open>src/resource_monitor.rs\<close> cut where other tasks can run, that is at the cache's read-write lock, at the
  API server's answers and at the critical sections of the session table. The cluster changes between
  steps. A check of the monitor that fails, also by a panic, leaves it idle here; \<open>Program\<close> has the end of the program by a
  panicking task. The lemmas show what any interleaving keeps, that the atomic handlers are among the
  interleavings, that no task blocks, and how an answer from before a change outlives the invalidation.
\<close>

section \<open>Tasks and steps\<close>

text \<open>
  Where a task stands. \<open>Asking\<close> and \<open>Answered\<close> say whether the answer is to be cached; a route taken from the
  cache is used while its read guard is held, the first argument of \<open>Chosen\<close>, \<open>Cleared\<close> and \<open>Installed\<close>.
\<close>

datatype route_phase = Starting | Asking bool | Answered bool "dynamic_object list" | Storing string port_mappings
  | Chosen bool string port_mappings | Cleared bool string port_mappings | Installed bool string
  | Established string | Refused error

record route_task =
  rt_client :: socket_addr
  rt_port :: u16
  rt_protocol :: protocol
  rt_phase :: route_phase

datatype monitor_phase = Idle | Listing | Seen "string option"

record routes_state =
  dr_cluster :: k8s_api
  dr_past :: "k8s_api list" \<comment> \<open>every state of the cluster so far, for the statements only\<close>
  dr_tasks :: "route_task list"
  dr_proxy :: data_proxy
  dr_last :: "string option"
  dr_monitor :: monitor_phase

definition routes_start :: "config \<Rightarrow> k8s_api \<Rightarrow> routes_state" where
  "routes_start cfg api = \<lparr>dr_cluster = api, dr_past = [api], dr_tasks = [], dr_proxy = proxy_new cfg store_new None,
     dr_last = mo_last (monitor_new None), dr_monitor = Idle\<rparr>"

definition packet_arrives :: "socket_addr \<Rightarrow> u16 \<Rightarrow> protocol \<Rightarrow> routes_state \<Rightarrow> routes_state" where
  "packet_arrives client proxy_port protocol s = s\<lparr>dr_tasks := dr_tasks s
     @ [\<lparr>rt_client = client, rt_port = proxy_port, rt_protocol = protocol, rt_phase = Starting\<rparr>]\<rparr>"

definition task_phase :: "routes_state \<Rightarrow> nat \<Rightarrow> route_phase option" where
  "task_phase s i = (if i < length (dr_tasks s) then Some (rt_phase (dr_tasks s ! i)) else None)"

definition set_phase :: "nat \<Rightarrow> route_phase \<Rightarrow> routes_state \<Rightarrow> routes_state" where
  "set_phase i ph s = s\<lparr>dr_tasks := (dr_tasks s)[i := (dr_tasks s ! i)\<lparr>rt_phase := ph\<rparr>]\<rparr>"

fun holds_read :: "route_phase \<Rightarrow> bool" where
  "holds_read (Chosen guarded _ _) = guarded"
| "holds_read (Cleared guarded _ _) = guarded"
| "holds_read (Installed guarded _) = guarded"
| "holds_read _ = False"

definition no_readers :: "routes_state \<Rightarrow> bool" where
  "no_readers s = list_all (\<lambda>t. \<not> holds_read (rt_phase t)) (dr_tasks s)"

definition supports :: "route_task \<Rightarrow> port_mappings \<Rightarrow> bool" where
  "supports t mappings \<longleftrightarrow> hm_get mappings (rt_port t, rt_protocol t) \<noteq> None"

definition if_supported :: "nat \<Rightarrow> string \<Rightarrow> port_mappings \<Rightarrow> routes_state \<Rightarrow> routes_state" where
  "if_supported i address mappings s =
     (let t = dr_tasks s ! i in
      if supports t mappings then set_phase i (Chosen False address mappings) s
      else set_phase i (Refused (PortUnsupported (rt_port t))) s)"

text \<open>The cache under the read lock.\<close>

definition read_cache :: "nat \<Rightarrow> routes_state \<Rightarrow> routes_state" where
  "read_cache i s =
     (case px_cache (dr_proxy s) of
        Some c \<Rightarrow>
          if supports (dr_tasks s ! i) (dc_port_mappings c)
          then set_phase i (Chosen True (dc_address c) (dc_port_mappings c)) s
          else set_phase i (Asking False) s
      | None \<Rightarrow> set_phase i (Asking True) s)"

text \<open>\<open>query_default_endpoint\<close> up to the API server's answer, and from there.\<close>

definition ask_cluster :: "config \<Rightarrow> nat \<Rightarrow> routes_state \<Rightarrow> routes_state" where
  "ask_cluster cfg i s =
     (let de = get_default_endpoint cfg in
      case (task_phase s i, and_then (ok_or (UnknownResourceType (de_resource_type de))
          (hm_get (cfg_resource_query_mapping cfg) (de_resource_type de)))
          (endpoint_resources (dr_cluster s) de)) of
        (Some (Asking cached), Inr resources) \<Rightarrow> set_phase i (Answered cached resources) s
      | (Some (Asking cached), Inl e) \<Rightarrow> set_phase i (Refused e) s
      | _ \<Rightarrow> s)"

definition selected_target ::
  "config \<Rightarrow> load_balancer \<Rightarrow> dynamic_object list \<Rightarrow> error + (string \<times> port_mappings)" where
  "selected_target cfg lb resources =
     (let de = get_default_endpoint cfg in
      and_then (ok_or (UnknownResourceType (de_resource_type de))
        (hm_get (cfg_resource_query_mapping cfg) (de_resource_type de))) (\<lambda>mapping.
      and_then (ensure (resources \<noteq> []) NoDefaultResources) (\<lambda>_.
      and_then (ok_or AddressPathRequired (rm_address_path mapping)) (\<lambda>address_path.
      and_then (select_backend lb resources address_path (rm_address_type mapping)) (\<lambda>selected.
        extract_endpoint_target_multi_port cfg selected mapping)))))"

definition choose_target :: "config \<Rightarrow> nat \<Rightarrow> routes_state \<Rightarrow> routes_state" where
  "choose_target cfg i s =
     (case task_phase s i of
        Some (Answered cached resources) \<Rightarrow>
          (case selected_target cfg (px_lb (dr_proxy s)) resources of
             Inl e \<Rightarrow> set_phase i (Refused e) s
           | Inr (address, mappings) \<Rightarrow>
               if cached then set_phase i (Storing address mappings) s else if_supported i address mappings s)
      | _ \<Rightarrow> s)"

text \<open>Writing the cache, under the write lock.\<close>

definition store_answer :: "nat \<Rightarrow> routes_state \<Rightarrow> routes_state" where
  "store_answer i s =
     (case task_phase s i of
        Some (Storing address mappings) \<Rightarrow>
          if_supported i address mappings
            (s\<lparr>dr_proxy := (dr_proxy s)\<lparr>px_cache := Some \<lparr>dc_address = address, dc_port_mappings = mappings\<rparr>\<rparr>\<rparr>)
      | _ \<Rightarrow> s)"

text \<open>The two critical sections of the upsert, and the count; the read guard goes with the function.\<close>

definition replace_old :: "nat \<Rightarrow> routes_state \<Rightarrow> routes_state" where
  "replace_old i s =
     (case task_phase s i of
        Some (Chosen guarded address mappings) \<Rightarrow> set_phase i (Cleared guarded address mappings)
          (s\<lparr>dr_proxy := (dr_proxy s)\<lparr>px_store := upsert_shutdown_old (rt_client (dr_tasks s ! i)) (px_store (dr_proxy s))\<rparr>\<rparr>)
      | _ \<Rightarrow> s)"

definition install_route :: "nat \<Rightarrow> nat \<Rightarrow> routes_state \<Rightarrow> routes_state" where
  "install_route now i s =
     (case task_phase s i of
        Some (Cleared guarded address mappings) \<Rightarrow> set_phase i (Installed guarded address)
          (s\<lparr>dr_proxy := (dr_proxy s)\<lparr>px_store :=
             upsert_insert now (rt_client (dr_tasks s ! i)) address mappings (px_store (dr_proxy s))\<rparr>\<rparr>)
      | _ \<Rightarrow> s)"

definition count_session :: "nat \<Rightarrow> routes_state \<Rightarrow> routes_state" where
  "count_session i s =
     (case task_phase s i of
        Some (Installed guarded address) \<Rightarrow> set_phase i (Established address)
          (s\<lparr>dr_proxy := (dr_proxy s)\<lparr>px_lb := increment_session address (px_lb (dr_proxy s))\<rparr>\<rparr>)
      | _ \<Rightarrow> s)"

text \<open>The monitor: its query, and the comparison, which waits for the write lock only where it invalidates.\<close>

definition monitor_lists :: "config \<Rightarrow> routes_state \<Rightarrow> routes_state" where
  "monitor_lists cfg s =
     (let de = get_default_endpoint cfg in
      case hm_get (cfg_resource_query_mapping cfg) (de_resource_type de) of
        None \<Rightarrow> s\<lparr>dr_monitor := Idle\<rparr>
      | Some mapping \<Rightarrow>
          (case and_then (endpoint_resources (dr_cluster s) de mapping) (current_target mapping) of
             Inl _ \<Rightarrow> s\<lparr>dr_monitor := Idle\<rparr>
           | Inr current \<Rightarrow> s\<lparr>dr_monitor := Seen current\<rparr>))"

definition monitor_compares :: "string option \<Rightarrow> routes_state \<Rightarrow> routes_state" where
  "monitor_compares current s =
     (let mo = compare_target current \<lparr>mo_last = dr_last s, mo_cache = px_cache (dr_proxy s)\<rparr> in
      s\<lparr>dr_proxy := (dr_proxy s)\<lparr>px_cache := mo_cache mo\<rparr>, dr_last := mo_last mo, dr_monitor := Idle\<rparr>)"

definition cluster_becomes :: "k8s_api \<Rightarrow> routes_state \<Rightarrow> routes_state" where
  "cluster_becomes api s = s\<lparr>dr_cluster := api, dr_past := api # dr_past s\<rparr>"

text \<open>One step of the director's tasks; traffic of other kinds changes the session table as it likes.\<close>

inductive route_step :: "config \<Rightarrow> routes_state \<Rightarrow> routes_state \<Rightarrow> bool" for cfg where
  rs_first_packet: "route_step cfg s (packet_arrives client proxy_port protocol s)"
| rs_read: "task_phase s i = Some Starting \<Longrightarrow> route_step cfg s (read_cache i s)"
| rs_ask: "task_phase s i = Some (Asking cached) \<Longrightarrow> route_step cfg s (ask_cluster cfg i s)"
| rs_choose: "task_phase s i = Some (Answered cached resources) \<Longrightarrow> route_step cfg s (choose_target cfg i s)"
| rs_store: "task_phase s i = Some (Storing address mappings) \<Longrightarrow> no_readers s \<Longrightarrow> route_step cfg s (store_answer i s)"
| rs_replace: "task_phase s i = Some (Chosen guarded address mappings) \<Longrightarrow> route_step cfg s (replace_old i s)"
| rs_install: "task_phase s i = Some (Cleared guarded address mappings) \<Longrightarrow> route_step cfg s (install_route now i s)"
| rs_count: "task_phase s i = Some (Installed guarded address) \<Longrightarrow> route_step cfg s (count_session i s)"
| rs_tick: "dr_monitor s = Idle \<Longrightarrow> route_step cfg s (s\<lparr>dr_monitor := Listing\<rparr>)"
| rs_list: "dr_monitor s = Listing \<Longrightarrow> route_step cfg s (monitor_lists cfg s)"
| rs_compare: "dr_monitor s = Seen current \<Longrightarrow> dr_last s = current \<or> no_readers s \<Longrightarrow>
    route_step cfg s (monitor_compares current s)"
| rs_traffic: "table_step (px_store (dr_proxy s)) st \<Longrightarrow>
    route_step cfg s (s\<lparr>dr_proxy := (dr_proxy s)\<lparr>px_store := st\<rparr>\<rparr>)"

inductive default_step :: "config \<Rightarrow> routes_state \<Rightarrow> routes_state \<Rightarrow> bool" for cfg where
  ds_route: "route_step cfg s s' \<Longrightarrow> default_step cfg s s'"
| ds_cluster: "default_step cfg s (cluster_becomes api s)"

inductive_cases default_stepE: "default_step cfg s s'"

lemmas phase_change = task_phase_def set_phase_def if_supported_def Let_def

section \<open>What a query of the default endpoint is\<close>

definition asked :: "config \<Rightarrow> k8s_api \<Rightarrow> error + dynamic_object list" where
  "asked cfg api =
     (let de = get_default_endpoint cfg in
      and_then (ok_or (UnknownResourceType (de_resource_type de))
        (hm_get (cfg_resource_query_mapping cfg) (de_resource_type de))) (endpoint_resources api de))"

lemma query_default_endpoint_split:
  "query_default_endpoint cfg api lb = and_then (asked cfg api) (selected_target cfg lb)"
proof (cases "hm_get (cfg_resource_query_mapping cfg) (de_resource_type (get_default_endpoint cfg))")
  case None
  then show ?thesis by (simp add: query_default_endpoint_def asked_def Let_def)
next
  case (Some mapping)
  then show ?thesis
    by (cases "endpoint_resources api (get_default_endpoint cfg) mapping")
       (simp_all add: query_default_endpoint_def asked_def selected_target_def Let_def)
qed

lemma ask_cluster_asked:
  "task_phase s i = Some (Asking cached) \<Longrightarrow> ask_cluster cfg i s =
     (case asked cfg (dr_cluster s) of
        Inr resources \<Rightarrow> set_phase i (Answered cached resources) s | Inl e \<Rightarrow> set_phase i (Refused e) s)"
  by (simp add: ask_cluster_def asked_def Let_def)

section \<open>Invariant\<close>

text \<open>The default endpoint, as some past state of the cluster answered it.\<close>

definition answered :: "config \<Rightarrow> k8s_api list \<Rightarrow> string \<Rightarrow> port_mappings \<Rightarrow> bool" where
  "answered cfg past address mappings \<longleftrightarrow>
     (\<exists>api\<in>set past. \<exists>lb. query_default_endpoint cfg api lb = Inr (address, mappings))"

definition cached_as :: "default_endpoint_cache option \<Rightarrow> string \<Rightarrow> port_mappings \<Rightarrow> bool" where
  "cached_as cache address mappings \<longleftrightarrow> cache = Some \<lparr>dc_address = address, dc_port_mappings = mappings\<rparr>"

fun task_ok :: "config \<Rightarrow> k8s_api list \<Rightarrow> default_endpoint_cache option \<Rightarrow> route_task \<Rightarrow> route_phase \<Rightarrow> bool" where
  "task_ok cfg past cache t (Answered w resources) \<longleftrightarrow> (\<exists>api\<in>set past. asked cfg api = Inr resources)"
| "task_ok cfg past cache t (Storing a m) \<longleftrightarrow> answered cfg past a m"
| "task_ok cfg past cache t (Chosen g a m) \<longleftrightarrow> answered cfg past a m \<and> supports t m \<and> (g \<longrightarrow> cached_as cache a m)"
| "task_ok cfg past cache t (Cleared g a m) \<longleftrightarrow> answered cfg past a m \<and> supports t m \<and> (g \<longrightarrow> cached_as cache a m)"
| "task_ok cfg past cache t (Installed g a) \<longleftrightarrow>
     (\<exists>m. answered cfg past a m \<and> supports t m \<and> (g \<longrightarrow> cached_as cache a m))"
| "task_ok cfg past cache t (Established a) \<longleftrightarrow> (\<exists>m. answered cfg past a m \<and> supports t m)"
| "task_ok cfg past cache t _ \<longleftrightarrow> True"

definition established :: "string \<Rightarrow> route_task list \<Rightarrow> nat" where
  "established backend ts = length (filter (\<lambda>t. rt_phase t = Established backend) ts)"

definition routes_inv :: "config \<Rightarrow> routes_state \<Rightarrow> bool" where
  "routes_inv cfg s \<longleftrightarrow> dr_cluster s \<in> set (dr_past s)
     \<and> isolated (px_store (dr_proxy s))
     \<and> (\<forall>c. px_cache (dr_proxy s) = Some c \<longrightarrow> answered cfg (dr_past s) (dc_address c) (dc_port_mappings c))
     \<and> list_all (\<lambda>t. task_ok cfg (dr_past s) (px_cache (dr_proxy s)) t (rt_phase t)) (dr_tasks s)
     \<and> (\<forall>b. get_session_count (px_lb (dr_proxy s)) b = established b (dr_tasks s))"

lemma routes_invD:
  assumes "routes_inv cfg s"
  shows "dr_cluster s \<in> set (dr_past s)" "isolated (px_store (dr_proxy s))"
    "px_cache (dr_proxy s) = Some c \<Longrightarrow> answered cfg (dr_past s) (dc_address c) (dc_port_mappings c)"
    "list_all (\<lambda>t. task_ok cfg (dr_past s) (px_cache (dr_proxy s)) t (rt_phase t)) (dr_tasks s)"
    "get_session_count (px_lb (dr_proxy s)) b = established b (dr_tasks s)"
    "task_phase s i = Some ph \<Longrightarrow> task_ok cfg (dr_past s) (px_cache (dr_proxy s)) (dr_tasks s ! i) ph"
  using assms by (auto simp: routes_inv_def list_all_length task_phase_def split: if_splits)

lemma routes_inv_start: "routes_inv cfg (routes_start cfg api)"
  using store_inv_new store_invD(1)
  by (auto simp: routes_inv_def routes_start_def proxy_new_def established_def get_session_count_def lb_new_def)

lemma established_update:
  "i < length ts \<Longrightarrow> established b (ts[i := t]) + (if rt_phase (ts ! i) = Established b then 1 else 0)
     = established b ts + (if rt_phase t = Established b then 1 else 0)"
proof (induction ts arbitrary: i)
  case (Cons x ts)
  then show ?case by (cases i) (auto simp: established_def)
qed simp

lemma answered_mono: "answered cfg past a m \<Longrightarrow> set past \<subseteq> set past' \<Longrightarrow> answered cfg past' a m"
  by (auto simp: answered_def)

lemma task_ok_past: "task_ok cfg past cache t ph \<Longrightarrow> set past \<subseteq> set past' \<Longrightarrow> task_ok cfg past' cache t ph"
  by (cases ph; auto dest: answered_mono)

lemma task_ok_unread: "task_ok cfg past cache t ph \<Longrightarrow> \<not> holds_read ph \<Longrightarrow> task_ok cfg past cache' t ph"
  by (cases ph; auto)

text \<open>Another cache entry: the readers are gone.\<close>

lemma task_ok_cache:
  "list_all (\<lambda>t. task_ok cfg past cache t (rt_phase t)) ts \<Longrightarrow> cache' = cache \<or> list_all (\<lambda>t. \<not> holds_read (rt_phase t)) ts \<Longrightarrow>
   list_all (\<lambda>t. task_ok cfg past cache' t (rt_phase t)) ts"
  using task_ok_unread [of cfg past cache _ _ cache'] by (auto simp: list_all_iff)

lemma task_ok_phase_only: "task_ok cfg past cache (t\<lparr>rt_phase := x\<rparr>) ph = task_ok cfg past cache t ph"
  by (cases ph) (auto simp: supports_def)

text \<open>One task moves on; the cache changes only when nobody reads it.\<close>

lemma routes_inv_update:
  assumes inv: "routes_inv cfg s" and at: "task_phase s i = Some old" "\<And>b. old \<noteq> Established b"
    and st: "isolated st" and cache: "cache = px_cache (dr_proxy s) \<or> no_readers s"
    and fresh: "\<And>c. cache = Some c \<Longrightarrow> answered cfg (dr_past s) (dc_address c) (dc_port_mappings c)"
    and ok: "task_ok cfg (dr_past s) cache (dr_tasks s ! i) ph"
    and count: "\<And>b. get_session_count lb b = get_session_count (px_lb (dr_proxy s)) b + (if ph = Established b then 1 else 0)"
  shows "routes_inv cfg (set_phase i ph (s\<lparr>dr_proxy := \<lparr>px_store = st, px_cache = cache, px_lb = lb\<rparr>\<rparr>))"
proof -
  note D = routes_invD [OF inv]
  have i: "i < length (dr_tasks s)" and old: "rt_phase (dr_tasks s ! i) = old"
    using at(1) by (auto simp: task_phase_def split: if_splits)
  have "list_all (\<lambda>t. task_ok cfg (dr_past s) cache t (rt_phase t)) (dr_tasks s)"
    using task_ok_cache [OF D(4)] cache by (auto simp: no_readers_def)
  then have "list_all (\<lambda>t. task_ok cfg (dr_past s) cache t (rt_phase t)) ((dr_tasks s)[i := (dr_tasks s ! i)\<lparr>rt_phase := ph\<rparr>])"
    using i ok by (auto simp: list_all_length nth_list_update task_ok_phase_only)
  moreover have "get_session_count lb b = established b ((dr_tasks s)[i := (dr_tasks s ! i)\<lparr>rt_phase := ph\<rparr>])" for b
    using established_update [OF i, of b "(dr_tasks s ! i)\<lparr>rt_phase := ph\<rparr>"] at(2) [of b] old D(5) [of b] count [of b] by simp
  ultimately show ?thesis using D(1) st fresh by (simp add: routes_inv_def set_phase_def)
qed

text \<open>Only the phase, or only one part of the proxy, changes.\<close>

lemmas update_inv = routes_inv_update [where st = "px_store (dr_proxy s)" and cache = "px_cache (dr_proxy s)"
    and lb = "px_lb (dr_proxy s)" for s]

lemma set_phase_literal:
  "set_phase i ph s = set_phase i ph (s\<lparr>dr_proxy := \<lparr>px_store = px_store (dr_proxy s), px_cache = px_cache (dr_proxy s),
     px_lb = px_lb (dr_proxy s)\<rparr>\<rparr>)"
  by (cases s; cases "dr_proxy s") simp

lemma proxy_literal:
  "px\<lparr>px_store := st\<rparr> = \<lparr>px_store = st, px_cache = px_cache px, px_lb = px_lb px\<rparr>"
  "px\<lparr>px_cache := cache\<rparr> = \<lparr>px_store = px_store px, px_cache = cache, px_lb = px_lb px\<rparr>"
  "px\<lparr>px_lb := lb\<rparr> = \<lparr>px_store = px_store px, px_cache = px_cache px, px_lb = lb\<rparr>"
  by (cases px; simp)+

lemma routes_inv_phase:
  assumes inv: "routes_inv cfg s" and at: "task_phase s i = Some old" "\<And>b. old \<noteq> Established b"
    and ok: "task_ok cfg (dr_past s) (px_cache (dr_proxy s)) (dr_tasks s ! i) ph" and "\<And>b. ph \<noteq> Established b"
  shows "routes_inv cfg (set_phase i ph s)"
  unfolding set_phase_literal [of i ph s]
  by (rule update_inv [OF inv at]) (use assms routes_invD(2,3) [OF inv] in auto)

text \<open>The answer of the API server and the choice of the load balancer.\<close>

lemma answered_now:
  assumes "asked cfg api = Inr resources" and "api \<in> set past" and "selected_target cfg lb resources = Inr (a, m)"
  shows "answered cfg past a m"
  unfolding answered_def query_default_endpoint_split using assms by (intro bexI [of _ api] exI [of _ lb]) simp_all

lemma routes_inv_if_supported:
  assumes inv: "routes_inv cfg s" and at: "task_phase s i = Some old" "\<And>b. old \<noteq> Established b"
    and ans: "answered cfg (dr_past s) a m"
  shows "routes_inv cfg (if_supported i a m s)"
  using routes_inv_phase [OF inv at, of "Chosen False a m"] routes_inv_phase [OF inv at, of "Refused e" for e] ans
  by (simp add: if_supported_def Let_def)

lemma routes_inv_choose:
  assumes inv: "routes_inv cfg s" and at: "task_phase s i = Some (Answered w resources)"
  shows "routes_inv cfg (choose_target cfg i s)"
proof (cases "selected_target cfg (px_lb (dr_proxy s)) resources")
  case (Inl e)
  then show ?thesis using routes_inv_phase [OF inv at, of "Refused e"] by (simp add: choose_target_def at)
next
  case (Inr am)
  obtain a m where am: "am = (a, m)" by force
  from routes_invD(6) [OF inv at] obtain api where "asked cfg api = Inr resources" "api \<in> set (dr_past s)" by auto
  then have "answered cfg (dr_past s) a m" using answered_now Inr am by blast
  then show ?thesis using routes_inv_if_supported [OF inv at] routes_inv_phase [OF inv at, of "Storing a m"]
    by (simp add: choose_target_def at Inr am)
qed

lemma routes_inv_cache:
  assumes inv: "routes_inv cfg s" and "cache = px_cache (dr_proxy s) \<or> no_readers s"
    and "\<And>c. cache = Some c \<Longrightarrow> answered cfg (dr_past s) (dc_address c) (dc_port_mappings c)"
  shows "routes_inv cfg (s\<lparr>dr_proxy := (dr_proxy s)\<lparr>px_cache := cache\<rparr>, dr_last := x, dr_monitor := y\<rparr>)"
  using assms routes_invD [OF inv] task_ok_cache [OF routes_invD(4) [OF inv], of cache]
  by (auto simp: routes_inv_def no_readers_def)

lemma routes_inv_store:
  assumes inv: "routes_inv cfg s" and at: "task_phase s i = Some (Storing a m)" and free: "no_readers s"
  shows "routes_inv cfg (store_answer i s)"
proof -
  let ?s = "s\<lparr>dr_proxy := (dr_proxy s)\<lparr>px_cache := Some \<lparr>dc_address = a, dc_port_mappings = m\<rparr>\<rparr>\<rparr>"
  have ans: "answered cfg (dr_past s) a m" using routes_invD(6) [OF inv at] by simp
  have "routes_inv cfg ?s"
    using routes_inv_cache [OF inv, of "Some \<lparr>dc_address = a, dc_port_mappings = m\<rparr>" "dr_monitor s" "dr_last s"] free ans
    by simp
  then have "routes_inv cfg (if_supported i a m ?s)"
    by (rule routes_inv_if_supported [where old = "Storing a m"]) (use at ans in \<open>auto simp: task_phase_def split: if_splits\<close>)
  then show ?thesis by (simp add: store_answer_def at)
qed

lemma routes_inv_compare:
  assumes inv: "routes_inv cfg s" and free: "dr_last s = current \<or> no_readers s"
  shows "routes_inv cfg (monitor_compares current s)"
  unfolding monitor_compares_def compare_target_iff Let_def
  by (rule routes_inv_cache [OF inv]) (use free routes_invD(3) [OF inv] in \<open>auto split: if_splits\<close>)

lemma routes_inv_replace:
  assumes inv: "routes_inv cfg s" and at: "task_phase s i = Some (Chosen g a m)"
  shows "routes_inv cfg (replace_old i s)"
  unfolding replace_old_def at option.case route_phase.case proxy_literal
  by (rule routes_inv_update [OF inv at])
     (use routes_invD(2,3) [OF inv] routes_invD(6) [OF inv at] in \<open>auto simp: isolated_upsert_shutdown_old\<close>)

lemma routes_inv_install:
  assumes inv: "routes_inv cfg s" and at: "task_phase s i = Some (Cleared g a m)"
  shows "routes_inv cfg (install_route now i s)"
  unfolding install_route_def at option.case route_phase.case proxy_literal
  by (rule routes_inv_update [OF inv at])
     (use routes_invD(2,3) [OF inv] routes_invD(6) [OF inv at] in \<open>auto simp: isolated_upsert_insert\<close>)

lemma routes_inv_count:
  assumes inv: "routes_inv cfg s" and at: "task_phase s i = Some (Installed g a)"
  shows "routes_inv cfg (count_session i s)"
  unfolding count_session_def at option.case route_phase.case proxy_literal
  by (rule routes_inv_update [OF inv at])
     (use routes_invD(2,3) [OF inv] routes_invD(6) [OF inv at] in \<open>auto simp: lbc.count_inc\<close>)

lemma routes_inv_read:
  assumes inv: "routes_inv cfg s" and at: "task_phase s i = Some Starting"
  shows "routes_inv cfg (read_cache i s)"
proof (cases "px_cache (dr_proxy s)")
  case None
  then show ?thesis using routes_inv_phase [OF inv at, of "Asking True"] by (simp add: read_cache_def)
next
  case (Some c)
  have "task_ok cfg (dr_past s) (px_cache (dr_proxy s)) (dr_tasks s ! i) (Chosen True (dc_address c) (dc_port_mappings c))"
    if "supports (dr_tasks s ! i) (dc_port_mappings c)"
    using that routes_invD(3) [OF inv Some] Some by (simp add: cached_as_def)
  then show ?thesis
    using routes_inv_phase [OF inv at, of "Asking False"] routes_inv_phase [OF inv at, of "Chosen True (dc_address c) (dc_port_mappings c)"]
    by (auto simp: read_cache_def Some)
qed

lemma routes_inv_ask:
  assumes inv: "routes_inv cfg s" and at: "task_phase s i = Some (Asking w)"
  shows "routes_inv cfg (ask_cluster cfg i s)"
proof (cases "asked cfg (dr_cluster s)")
  case (Inl e)
  then show ?thesis using routes_inv_phase [OF inv at, of "Refused e"] by (simp add: ask_cluster_asked [OF at])
next
  case (Inr resources)
  then have "task_ok cfg (dr_past s) (px_cache (dr_proxy s)) (dr_tasks s ! i) (Answered w resources)"
    using routes_invD(1) [OF inv] by auto
  then show ?thesis using routes_inv_phase [OF inv at, of "Answered w resources"] Inr
    by (simp add: ask_cluster_asked [OF at])
qed

lemma routes_inv_route: "route_step cfg s s' \<Longrightarrow> routes_inv cfg s \<Longrightarrow> routes_inv cfg s'"
proof (induction rule: route_step.induct)
  case (rs_list s)
  then show ?case by (auto simp: monitor_lists_def Let_def routes_inv_def split: option.splits sum.splits)
next
  case (rs_traffic s st)
  then show ?case using isolated_table_step by (auto simp: routes_inv_def)
qed (simp_all add: routes_inv_read routes_inv_ask routes_inv_choose routes_inv_store routes_inv_replace
    routes_inv_install routes_inv_count routes_inv_compare,
    simp_all add: routes_inv_def packet_arrives_def established_def)

lemma routes_inv_step: "default_step cfg s s' \<Longrightarrow> routes_inv cfg s \<Longrightarrow> routes_inv cfg s'"
proof (induction rule: default_step.induct)
  case (ds_cluster s api)
  then show ?case
    using task_ok_past [where past = "dr_past s" and past' = "api # dr_past s"]
      answered_mono [where past = "dr_past s" and past' = "api # dr_past s"]
    by (simp add: routes_inv_def cluster_becomes_def list_all_iff subset_insertI)
qed (rule routes_inv_route)

interpretation default_run: step_invariant "default_step cfg" "routes_start cfg api" "routes_inv cfg"
  for cfg api
  by unfold_locales (fact routes_inv_start, fact routes_inv_step)

lemmas routes_inv_reachable = default_run.inv_reachable

section \<open>Progress\<close>

fun rank :: "route_phase \<Rightarrow> nat" where
  "rank Starting = 7"
| "rank (Asking _) = 6"
| "rank (Answered _ _) = 5"
| "rank (Storing _ _) = 4"
| "rank (Chosen _ _ _) = 3"
| "rank (Cleared _ _ _) = 2"
| "rank (Installed _ _) = 1"
| "rank (Established _) = 0"
| "rank (Refused _) = 0"

definition ended :: "routes_state \<Rightarrow> nat \<Rightarrow> bool" where
  "ended s i \<longleftrightarrow> (\<exists>ph. task_phase s i = Some ph \<and> rank ph = 0)"

lemma task_phase_set [simp]:
  "task_phase (set_phase i ph s) j = (if j = i \<and> i < length (dr_tasks s) then Some ph else task_phase s j)"
  by (auto simp: task_phase_def set_phase_def)

lemma task_phase_proxy [simp]: "task_phase (s\<lparr>dr_proxy := p\<rparr>) j = task_phase s j"
  by (simp add: task_phase_def)

text \<open>A step of task \<open>i\<close> that leaves the other tasks where they are.\<close>

definition moves :: "nat \<Rightarrow> routes_state \<Rightarrow> routes_state \<Rightarrow> bool" where
  "moves i s s' \<longleftrightarrow> (\<exists>ph p. s' = set_phase i ph (s\<lparr>dr_proxy := p\<rparr>) \<and> rank ph < rank (rt_phase (dr_tasks s ! i)))"

lemma moves_set_phase [simp]:
  "rank ph < rank (rt_phase (dr_tasks s ! i)) \<Longrightarrow> moves i s (set_phase i ph s)"
  "rank ph < rank (rt_phase (dr_tasks s ! i)) \<Longrightarrow> moves i s (set_phase i ph (s\<lparr>dr_proxy := p\<rparr>))"
proof -
  have "s = s\<lparr>dr_proxy := dr_proxy s\<rparr>" by simp
  then show "rank ph < rank (rt_phase (dr_tasks s ! i)) \<Longrightarrow> moves i s (set_phase i ph s)"
    unfolding moves_def by metis
qed (auto simp: moves_def)

lemma advance:
  assumes at: "task_phase s i = Some ph" and "rank ph > 0" and free: "\<And>a m. ph = Storing a m \<Longrightarrow> no_readers s"
  shows "\<exists>s'. route_step cfg s s' \<and> moves i s s'"
proof -
  have ph: "rt_phase (dr_tasks s ! i) = ph" using at by (auto simp: task_phase_def split: if_splits)
  show ?thesis
  proof (cases ph)
    case Starting
    then have "moves i s (read_cache i s)" using ph by (simp add: read_cache_def split: option.splits)
    moreover have "route_step cfg s (read_cache i s)" by (rule rs_read) (simp add: at Starting)
    ultimately show ?thesis by blast
  next
    case (Asking w)
    then have "moves i s (ask_cluster cfg i s)" using ph at by (simp add: ask_cluster_asked split: sum.splits)
    moreover have "route_step cfg s (ask_cluster cfg i s)" by (rule rs_ask) (simp add: at Asking)
    ultimately show ?thesis by blast
  next
    case (Answered w resources)
    then have "moves i s (choose_target cfg i s)"
      using ph at by (simp add: choose_target_def if_supported_def Let_def split: sum.splits prod.splits)
    moreover have "route_step cfg s (choose_target cfg i s)" by (rule rs_choose) (simp add: at Answered)
    ultimately show ?thesis by blast
  next
    case (Storing a m)
    then have "moves i s (store_answer i s)" using ph at by (simp add: store_answer_def if_supported_def Let_def)
    moreover have "route_step cfg s (store_answer i s)" by (rule rs_store) (use at Storing free in auto)
    ultimately show ?thesis by blast
  next
    case (Chosen g a m)
    then have "moves i s (replace_old i s)" using ph at by (simp add: replace_old_def)
    moreover have "route_step cfg s (replace_old i s)" by (rule rs_replace) (simp add: at Chosen)
    ultimately show ?thesis by blast
  next
    case (Cleared g a m)
    then have "moves i s (install_route 0 i s)" using ph at by (simp add: install_route_def)
    moreover have "route_step cfg s (install_route 0 i s)" by (rule rs_install) (simp add: at Cleared)
    ultimately show ?thesis by blast
  next
    case (Installed g a)
    then have "moves i s (count_session i s)" using ph at by (simp add: count_session_def)
    moreover have "route_step cfg s (count_session i s)" by (rule rs_count) (simp add: at Installed)
    ultimately show ?thesis by blast
  qed (use assms(2) in simp_all)
qed

lemma moves_phase:
  assumes "moves i s s'" and "task_phase s i = Some ph"
  shows "\<exists>ph'. task_phase s' i = Some ph' \<and> rank ph' < rank ph" "j \<noteq> i \<Longrightarrow> task_phase s' j = task_phase s j"
  using assms by (auto simp: moves_def task_phase_def set_phase_def split: if_splits)

text \<open>A reader runs to its end without waiting for anybody.\<close>

lemma reader_ends:
  "task_phase s i = Some ph \<Longrightarrow> rank ph \<le> 3 \<Longrightarrow>
     \<exists>s'. (route_step cfg)\<^sup>*\<^sup>* s s' \<and> ended s' i \<and> (\<forall>j. j \<noteq> i \<longrightarrow> task_phase s' j = task_phase s j)"
proof (induction "rank ph" arbitrary: s ph rule: less_induct)
  case less
  show ?case
  proof (cases "rank ph = 0")
    case True
    then show ?thesis using less.prems by (auto simp: ended_def intro!: exI [of _ s])
  next
    case False
    have "ph \<noteq> Storing a m" for a m using less.prems(2) by auto
    with False obtain s1 where s1: "route_step cfg s s1" "moves i s s1" using advance [OF less.prems(1), of cfg] by blast
    then obtain ph1 where ph1: "task_phase s1 i = Some ph1" "rank ph1 < rank ph" using moves_phase(1) less.prems(1) by blast
    then obtain s' where s': "(route_step cfg)\<^sup>*\<^sup>* s1 s'" "ended s' i" "\<And>j. j \<noteq> i \<Longrightarrow> task_phase s' j = task_phase s1 j"
      using less.hyps [OF ph1(2,1)] less.prems(2) by auto
    then show ?thesis using s1 moves_phase(2) [OF s1(2) less.prems(1)]
      by (intro exI [of _ s']) (auto intro: converse_rtranclp_into_rtranclp)
  qed
qed

lemma holds_read_rank: "holds_read ph \<Longrightarrow> rank ph \<le> 3"
  by (cases ph) auto

definition reading :: "routes_state \<Rightarrow> nat \<Rightarrow> bool" where
  "reading s i \<longleftrightarrow> (\<exists>ph. task_phase s i = Some ph \<and> holds_read ph)"

lemma no_readers_iff: "no_readers s \<longleftrightarrow> (\<forall>i. \<not> reading s i)"
  by (auto simp: no_readers_def reading_def task_phase_def list_all_length)

lemma ended_not_reading: "ended s i \<Longrightarrow> \<not> reading s i"
  using holds_read.simps by (auto simp: ended_def reading_def elim!: rank.elims)

text \<open>So the lock becomes free, while the tasks that do not read stay where they are.\<close>

lemma readers_end:
  "\<exists>s'. (route_step cfg)\<^sup>*\<^sup>* s s' \<and> (\<forall>j<k. \<not> reading s' j) \<and> (\<forall>j. \<not> reading s j \<longrightarrow> task_phase s' j = task_phase s j)
     \<and> (\<forall>j. reading s' j \<longrightarrow> reading s j)"
proof (induction k)
  case (Suc k)
  then obtain s1 where s1: "(route_step cfg)\<^sup>*\<^sup>* s s1" "\<And>j. j < k \<Longrightarrow> \<not> reading s1 j"
    "\<And>j. \<not> reading s j \<Longrightarrow> task_phase s1 j = task_phase s j" "\<And>j. reading s1 j \<Longrightarrow> reading s j" by blast
  show ?case
  proof (cases "reading s1 k")
    case False
    then show ?thesis using s1 less_Suc_eq by (intro exI [of _ s1]) auto
  next
    case True
    then obtain ph where "task_phase s1 k = Some ph" "rank ph \<le> 3" using holds_read_rank by (auto simp: reading_def)
    then obtain s2 where s2: "(route_step cfg)\<^sup>*\<^sup>* s1 s2" "ended s2 k" "\<And>j. j \<noteq> k \<Longrightarrow> task_phase s2 j = task_phase s1 j"
      using reader_ends by blast
    have same: "reading s2 j \<longleftrightarrow> j \<noteq> k \<and> reading s1 j" for j
      using s2(2,3) ended_not_reading by (cases "j = k") (auto simp: reading_def)
    have "(route_step cfg)\<^sup>*\<^sup>* s s2" using s1(1) s2(1) by simp
    moreover have "\<not> reading s2 j" if "j < Suc k" for j using same s1(2) that less_Suc_eq by blast
    moreover have "task_phase s2 j = task_phase s j" if "\<not> reading s j" for j
      using s1(3,4) s2(3) True that by (cases "j = k") auto
    ultimately show ?thesis using same s1(4) by blast
  qed
qed auto

lemma task_ends: "task_phase s i = Some ph \<Longrightarrow> \<exists>s'. (route_step cfg)\<^sup>*\<^sup>* s s' \<and> ended s' i"
proof (induction "rank ph" arbitrary: s ph rule: less_induct)
  case less
  show ?case
  proof (cases "rank ph = 0")
    case True
    then show ?thesis using less.prems by (auto simp: ended_def)
  next
    case False
    have "\<exists>s1. (route_step cfg)\<^sup>*\<^sup>* s s1 \<and> task_phase s1 i = Some ph \<and> (\<forall>a m. ph = Storing a m \<longrightarrow> no_readers s1)"
    proof (cases "\<exists>a m. ph = Storing a m")
      case True
      then have i: "\<not> reading s i" using less.prems by (auto simp: reading_def)
      have bound: "j < length (dr_tasks s)" if "reading s j" for j
        using that by (auto simp: reading_def task_phase_def split: if_splits)
      from readers_end [of cfg s "length (dr_tasks s)"]
      obtain s1 where s1: "(route_step cfg)\<^sup>*\<^sup>* s s1" "\<forall>j<length (dr_tasks s). \<not> reading s1 j"
        "task_phase s1 i = task_phase s i" "\<forall>j. reading s1 j \<longrightarrow> reading s j" using i by blast
      then have "no_readers s1" using bound by (auto simp: no_readers_iff)
      then show ?thesis using s1(1,3) less.prems by auto
    qed (use less.prems in blast)
    then obtain s1 where s1: "(route_step cfg)\<^sup>*\<^sup>* s s1" "task_phase s1 i = Some ph"
      "\<And>a m. ph = Storing a m \<Longrightarrow> no_readers s1" by blast
    then obtain s2 where s2: "route_step cfg s1 s2" "moves i s1 s2" using advance False by blast
    then obtain ph2 where ph2: "task_phase s2 i = Some ph2" "rank ph2 < rank ph" using moves_phase(1) s1(2) by blast
    then obtain s' where "(route_step cfg)\<^sup>*\<^sup>* s2 s'" "ended s' i" using less.hyps by blast
    then show ?thesis using s1(1) s2(1) by (meson converse_rtranclp_into_rtranclp rtranclp_trans)
  qed
qed

section \<open>A handler that is not disturbed\<close>

lemma set_phase_again [simp]:
  "set_phase i ph ((set_phase i ph' s)\<lparr>dr_proxy := p\<rparr>) = set_phase i ph (s\<lparr>dr_proxy := p\<rparr>)"
  by (cases "i < length (dr_tasks s)") (simp_all add: set_phase_def list_update_beyond)

lemma set_phase_twice [simp]: "set_phase i ph (set_phase i ph' s) = set_phase i ph s"
  by (cases "i < length (dr_tasks s)") (simp_all add: set_phase_def list_update_beyond)

lemma set_phase_fields [simp]:
  "dr_proxy (set_phase i ph s) = dr_proxy s" "dr_cluster (set_phase i ph s) = dr_cluster s"
  "length (dr_tasks (set_phase i ph s)) = length (dr_tasks s)"
  "i < length (dr_tasks s) \<Longrightarrow> dr_tasks (set_phase i ph s) ! i = (dr_tasks s ! i)\<lparr>rt_phase := ph\<rparr>"
  by (simp_all add: set_phase_def)

lemma supports_phase [simp]: "supports (t\<lparr>rt_phase := ph\<rparr>) = supports t"
  by (simp add: supports_def fun_eq_iff)

text \<open>From the chosen route to the count.\<close>

lemma install_run:
  assumes "i < length (dr_tasks s)"
  shows "(route_step cfg)\<^sup>*\<^sup>* (set_phase i (Chosen g a m) s)
    (set_phase i (Established a) (s\<lparr>dr_proxy := \<lparr>px_store = upsert_multi_port now (rt_client (dr_tasks s ! i)) a m (px_store (dr_proxy s)),
       px_cache = px_cache (dr_proxy s), px_lb = increment_session a (px_lb (dr_proxy s))\<rparr>\<rparr>))"
proof -
  let ?c = "rt_client (dr_tasks s ! i)"
  let ?s1 = "set_phase i (Chosen g a m) s"
  let ?s2 = "set_phase i (Cleared g a m) (s\<lparr>dr_proxy := (dr_proxy s)\<lparr>px_store := upsert_shutdown_old ?c (px_store (dr_proxy s))\<rparr>\<rparr>)"
  let ?s3 = "set_phase i (Installed g a) (s\<lparr>dr_proxy := (dr_proxy s)\<lparr>px_store := upsert_multi_port now ?c a m (px_store (dr_proxy s))\<rparr>\<rparr>)"
  have "replace_old i ?s1 = ?s2" "install_route now i ?s2 = ?s3"
    using assms by (simp_all add: replace_old_def install_route_def upsert_multi_port_def)
  moreover have "count_session i ?s3 = set_phase i (Established a)
      (s\<lparr>dr_proxy := \<lparr>px_store = upsert_multi_port now ?c a m (px_store (dr_proxy s)),
         px_cache = px_cache (dr_proxy s), px_lb = increment_session a (px_lb (dr_proxy s))\<rparr>\<rparr>)"
    using assms by (simp add: count_session_def proxy_literal)
  moreover have "route_step cfg ?s1 (replace_old i ?s1)" "route_step cfg ?s2 (install_route now i ?s2)"
    "route_step cfg ?s3 (count_session i ?s3)"
    using assms by (auto intro: rs_replace rs_install rs_count)
  ultimately show ?thesis by (auto intro: converse_rtranclp_into_rtranclp)
qed

text \<open>From an answer that supports the port or not.\<close>

lemma supported_run:
  assumes i: "i < length (dr_tasks s)" and run: "(route_step cfg)\<^sup>*\<^sup>* s0 (if_supported i a m s)"
  shows "supports (dr_tasks s ! i) m \<Longrightarrow> (route_step cfg)\<^sup>*\<^sup>* s0 (set_phase i (Established a) (s\<lparr>dr_proxy :=
      \<lparr>px_store = upsert_multi_port now (rt_client (dr_tasks s ! i)) a m (px_store (dr_proxy s)),
       px_cache = px_cache (dr_proxy s), px_lb = increment_session a (px_lb (dr_proxy s))\<rparr>\<rparr>))"
    "\<not> supports (dr_tasks s ! i) m \<Longrightarrow>
      (route_step cfg)\<^sup>*\<^sup>* s0 (set_phase i (Refused (PortUnsupported (rt_port (dr_tasks s ! i)))) s)"
  using run rtranclp_trans [OF run, of "set_phase i (Established a) s'" for s'] install_run [OF i, of cfg False a m now]
  by (simp_all add: if_supported_def Let_def)

lemma if_supported_phase [simp]:
  "i < length (dr_tasks s) \<Longrightarrow> if_supported i a m (set_phase i ph s) = if_supported i a m s"
  "i < length (dr_tasks s) \<Longrightarrow> if_supported i a m ((set_phase i ph s)\<lparr>dr_proxy := p\<rparr>) = if_supported i a m (s\<lparr>dr_proxy := p\<rparr>)"
  by (simp_all add: if_supported_def Let_def)

lemma same_cache: "px_cache px = cache \<Longrightarrow> px\<lparr>px_cache := cache\<rparr> = px"
  by (cases px) simp

text \<open>The query of the default endpoint, when neither the cluster nor the balancer changes.\<close>

lemma query_run:
  assumes i: "i < length (dr_tasks s)"
  shows "(route_step cfg)\<^sup>*\<^sup>* (set_phase i (Asking w) s)
    (case query_default_endpoint cfg (dr_cluster s) (px_lb (dr_proxy s)) of
       Inl e \<Rightarrow> set_phase i (Refused e) s
     | Inr (a, m) \<Rightarrow> if w then set_phase i (Storing a m) s else if_supported i a m s)"
proof -
  let ?s1 = "set_phase i (Asking w) s"
  have ask: "route_step cfg ?s1 (ask_cluster cfg i ?s1)" using i by (auto intro: rs_ask)
  show ?thesis
  proof (cases "asked cfg (dr_cluster s)")
    case (Inl e)
    then have "ask_cluster cfg i ?s1 = set_phase i (Refused e) s" using i by (simp add: ask_cluster_asked)
    then show ?thesis using ask Inl by (simp add: query_default_endpoint_split r_into_rtranclp)
  next
    case (Inr resources)
    let ?s2 = "set_phase i (Answered w resources) s"
    have s2: "ask_cluster cfg i ?s1 = ?s2" using i Inr by (simp add: ask_cluster_asked)
    have "route_step cfg ?s2 (choose_target cfg i ?s2)" using i by (auto intro: rs_choose)
    with ask s2 have "(route_step cfg)\<^sup>*\<^sup>* ?s1 (choose_target cfg i ?s2)" by simp
    moreover have "choose_target cfg i ?s2 = (case selected_target cfg (px_lb (dr_proxy s)) resources of
       Inl e \<Rightarrow> set_phase i (Refused e) s
     | Inr (a, m) \<Rightarrow> if w then set_phase i (Storing a m) s else if_supported i a m s)"
      using i by (auto simp: choose_target_def split: sum.splits)
    ultimately show ?thesis by (simp add: query_default_endpoint_split Inr)
  qed
qed

text \<open>The whole handler is a run of its task: with a cached route, with a cache for other ports, with no cache.\<close>

definition runs_to :: "config \<Rightarrow> routes_state \<Rightarrow> nat \<Rightarrow> error + unit \<Rightarrow> data_proxy \<Rightarrow> bool" where
  "runs_to cfg s i r px' \<longleftrightarrow> (\<exists>ph. (route_step cfg)\<^sup>*\<^sup>* s (set_phase i ph (s\<lparr>dr_proxy := px'\<rparr>))
     \<and> (case r of Inl e \<Rightarrow> ph = Refused e | Inr _ \<Rightarrow> \<exists>address. ph = Established address))"

lemma runs_to_error: "(route_step cfg)\<^sup>*\<^sup>* s (set_phase i (Refused e) (s\<lparr>dr_proxy := px'\<rparr>)) \<Longrightarrow> runs_to cfg s i (Inl e) px'"
  by (auto simp: runs_to_def)

lemma runs_to_route: "(route_step cfg)\<^sup>*\<^sup>* s (set_phase i (Established a) (s\<lparr>dr_proxy := px'\<rparr>)) \<Longrightarrow> runs_to cfg s i (Inr ()) px'"
  by (auto simp: runs_to_def)

lemma task_phase_length: "task_phase s i = Some ph \<Longrightarrow> i < length (dr_tasks s)"
  by (auto simp: task_phase_def split: if_splits)

lemma hit_run:
  assumes "task_phase s i = Some Starting"
    and "establish_default_session cfg (dr_cluster s) now (rt_client (dr_tasks s ! i)) (rt_port (dr_tasks s ! i))
      (rt_protocol (dr_tasks s ! i)) (dr_proxy s) = (r, px')"
    and cache: "px_cache (dr_proxy s) = Some c" and port: "supports (dr_tasks s ! i) (dc_port_mappings c)"
  shows "runs_to cfg s i r px'"
proof -
  have "route_step cfg s (set_phase i (Chosen True (dc_address c) (dc_port_mappings c)) s)"
    using rs_read [OF assms(1), of cfg] by (simp add: read_cache_def cache port)
  note converse_rtranclp_into_rtranclp [OF this install_run [OF task_phase_length [OF assms(1)], of cfg True
    "dc_address c" "dc_port_mappings c" now]]
  then show ?thesis using assms(2) port
    by (auto simp: establish_default_session_def default_route_def cache supports_def intro: runs_to_route)
qed

lemma other_port_run:
  assumes "task_phase s i = Some Starting"
    and "establish_default_session cfg (dr_cluster s) now (rt_client (dr_tasks s ! i)) (rt_port (dr_tasks s ! i))
      (rt_protocol (dr_tasks s ! i)) (dr_proxy s) = (r, px')"
    and cache: "px_cache (dr_proxy s) = Some c" and port: "\<not> supports (dr_tasks s ! i) (dc_port_mappings c)"
  shows "runs_to cfg s i r px'"
proof -
  note i = task_phase_length [OF assms(1)]
  have "route_step cfg s (set_phase i (Asking False) s)"
    using rs_read [OF assms(1), of cfg] by (simp add: read_cache_def cache port)
  note run = converse_rtranclp_into_rtranclp [OF this query_run [OF i]]
  note E = assms(2) [unfolded establish_default_session_def default_route_def Let_def]
  show ?thesis
  proof (cases "query_default_endpoint cfg (dr_cluster s) (px_lb (dr_proxy s))")
    case (Inl e)
    then show ?thesis using run E cache port by (auto simp: supports_def same_cache intro: runs_to_error)
  next
    case (Inr am)
    obtain a m where am: "am = (a, m)" by force
    have "(route_step cfg)\<^sup>*\<^sup>* s (if_supported i a m s)" using run by (simp add: Inr am)
    from supported_run(1) [OF i this, of now] supported_run(2) [OF i this] E cache port show ?thesis
      by (cases "supports (dr_tasks s ! i) m")
         (auto simp: Inr am supports_def same_cache intro: runs_to_route runs_to_error)
  qed
qed

lemma miss_run:
  assumes "task_phase s i = Some Starting" and free: "no_readers s"
    and "establish_default_session cfg (dr_cluster s) now (rt_client (dr_tasks s ! i)) (rt_port (dr_tasks s ! i))
      (rt_protocol (dr_tasks s ! i)) (dr_proxy s) = (r, px')"
    and cache: "px_cache (dr_proxy s) = None"
  shows "runs_to cfg s i r px'"
proof -
  note i = task_phase_length [OF assms(1)]
  have "route_step cfg s (set_phase i (Asking True) s)"
    using rs_read [OF assms(1), of cfg] by (simp add: read_cache_def cache)
  note run = converse_rtranclp_into_rtranclp [OF this query_run [OF i]]
  note E = assms(3) [unfolded establish_default_session_def default_route_def Let_def]
  show ?thesis
  proof (cases "query_default_endpoint cfg (dr_cluster s) (px_lb (dr_proxy s))")
    case (Inl e)
    then show ?thesis using run E cache by (auto simp: same_cache intro: runs_to_error)
  next
    case (Inr am)
    obtain a m where am: "am = (a, m)" by force
    let ?s1 = "set_phase i (Storing a m) s"
    let ?s2 = "s\<lparr>dr_proxy := (dr_proxy s)\<lparr>px_cache := Some \<lparr>dc_address = a, dc_port_mappings = m\<rparr>\<rparr>\<rparr>"
    have i2: "i < length (dr_tasks ?s2)" using i by simp
    have "store_answer i ?s1 = if_supported i a m ?s2" using i by (simp add: store_answer_def)
    moreover have "no_readers ?s1" using free i
      by (auto simp: no_readers_def list_all_length nth_list_update set_phase_def)
    ultimately have "route_step cfg ?s1 (if_supported i a m ?s2)" using i rs_store [of ?s1 i a m cfg] by simp
    with run have "(route_step cfg)\<^sup>*\<^sup>* s (if_supported i a m ?s2)" by (simp add: Inr am)
    from supported_run(1) [OF i2 this, of now] supported_run(2) [OF i2 this] E cache show ?thesis
      by (cases "supports (dr_tasks s ! i) m")
         (auto simp: Inr am supports_def intro: runs_to_route runs_to_error)
  qed
qed

section \<open>A cache that nothing but the cluster changes\<close>

definition monitor_text :: "config \<Rightarrow> k8s_api \<Rightarrow> error + string option" where
  "monitor_text cfg api =
     (let de = get_default_endpoint cfg in
      case hm_get (cfg_resource_query_mapping cfg) (de_resource_type de) of
        None \<Rightarrow> Inl (UnknownResourceType (de_resource_type de))
      | Some mapping \<Rightarrow> and_then (endpoint_resources api de mapping) (current_target mapping))"

lemma monitor_lists_text:
  "monitor_lists cfg s = s\<lparr>dr_monitor := (case monitor_text cfg (dr_cluster s) of Inl _ \<Rightarrow> Idle | Inr current \<Rightarrow> Seen current)\<rparr>"
  by (simp add: monitor_lists_def monitor_text_def Let_def split: option.splits sum.splits)

fun will_store :: "route_phase \<Rightarrow> bool" where
  "will_store (Asking cached) = cached"
| "will_store (Answered cached _) = cached"
| "will_store (Storing _ _) = True"
| "will_store _ = False"

text \<open>The cache is filled, no task is about to write it, and the monitor knows the cluster as it is.\<close>

definition settled :: "config \<Rightarrow> default_endpoint_cache \<Rightarrow> routes_state \<Rightarrow> bool" where
  "settled cfg c s \<longleftrightarrow> px_cache (dr_proxy s) = Some c
     \<and> list_all (\<lambda>t. \<not> will_store (rt_phase t)) (dr_tasks s)
     \<and> monitor_text cfg (dr_cluster s) = Inr (dr_last s)
     \<and> dr_monitor s \<in> {Idle, Listing, Seen (dr_last s)}"

lemma settled_set_phase:
  "settled cfg c s \<Longrightarrow> \<not> will_store ph \<Longrightarrow> px_cache p = Some c \<Longrightarrow> settled cfg c (set_phase i ph (s\<lparr>dr_proxy := p\<rparr>))"
  "settled cfg c s \<Longrightarrow> \<not> will_store ph \<Longrightarrow> settled cfg c (set_phase i ph s)"
  by (auto simp: settled_def set_phase_def intro!: list_all_update)

lemma settled_phase: "settled cfg c s \<Longrightarrow> task_phase s i = Some ph \<Longrightarrow> \<not> will_store ph"
  by (auto simp: settled_def task_phase_def list_all_length split: if_splits)

lemma settled_step: "route_step cfg s s' \<Longrightarrow> settled cfg c s \<Longrightarrow> settled cfg c s'"
proof (induction rule: route_step.induct)
  case (rs_read s i)
  then show ?case by (auto simp: read_cache_def settled_set_phase split: option.splits) (simp add: settled_def)
next
  case (rs_ask s i cached)
  then show ?case using settled_phase [OF rs_ask(2,1)] by (auto simp: ask_cluster_asked settled_set_phase split: sum.splits)
next
  case (rs_choose s i cached resources)
  then show ?case using settled_phase [OF rs_choose(2,1)]
    by (auto simp: choose_target_def if_supported_def Let_def settled_set_phase split: sum.splits)
next
  case (rs_store s i a m)
  then show ?case using settled_phase [OF rs_store(3,1)] by simp
next
  case (rs_replace s i g a m)
  then show ?case by (auto simp: replace_old_def intro!: settled_set_phase(1)) (simp add: settled_def)
next
  case (rs_install s i g a m now)
  then show ?case by (auto simp: install_route_def intro!: settled_set_phase(1)) (simp add: settled_def)
next
  case (rs_count s i g a)
  then show ?case by (auto simp: count_session_def intro!: settled_set_phase(1)) (simp add: settled_def)
next
  case (rs_list s)
  then show ?case by (simp add: monitor_lists_text settled_def)
next
  case (rs_compare s current)
  then show ?case by (auto simp: monitor_compares_def compare_target_iff settled_def)
qed (simp_all add: settled_def packet_arrives_def)

lemma settled_run: "(route_step cfg)\<^sup>*\<^sup>* s s' \<Longrightarrow> settled cfg c s \<Longrightarrow> settled cfg c s'"
  by (induction rule: rtranclp_induct) (auto intro: settled_step)

section \<open>A director with one client\<close>

text \<open>A director with at most one client, whose cache and monitor are given.\<close>

definition one_client :: "config \<Rightarrow> k8s_api \<Rightarrow> k8s_api list \<Rightarrow> route_phase list \<Rightarrow> monitor_phase \<Rightarrow> string option
    \<Rightarrow> default_endpoint_cache option \<Rightarrow> routes_state" where
  "one_client cfg api past phases mo seen cache =
     \<lparr>dr_cluster = api, dr_past = past,
      dr_tasks = map (\<lambda>ph. \<lparr>rt_client = sample_client, rt_port = 7777, rt_protocol = Udp, rt_phase = ph\<rparr>) phases,
      dr_proxy = (proxy_new cfg store_new None)\<lparr>px_cache := cache\<rparr>, dr_last = seen, dr_monitor = mo\<rparr>"

lemma one_client_phase: "task_phase (one_client cfg api past [ph] mo seen cache) 0 = Some ph"
  by (simp add: task_phase_def one_client_def)

lemma oc_arrives:
  "route_step cfg (one_client cfg api past [] mo seen cache) (one_client cfg api past [Starting] mo seen cache)"
proof -
  have "one_client cfg api past [Starting] mo seen cache
      = packet_arrives sample_client 7777 Udp (one_client cfg api past [] mo seen cache)"
    by (simp add: one_client_def packet_arrives_def)
  then show ?thesis using rs_first_packet by simp
qed

lemma oc_reads:
  "route_step cfg (one_client cfg api past [Starting] mo seen None) (one_client cfg api past [Asking True] mo seen None)"
proof -
  have "one_client cfg api past [Asking True] mo seen None = read_cache 0 (one_client cfg api past [Starting] mo seen None)"
    by (simp add: one_client_def read_cache_def set_phase_def)
  then show ?thesis using rs_read [OF one_client_phase] by simp
qed

lemma oc_asks:
  assumes "asked cfg api = Inr resources"
  shows "route_step cfg (one_client cfg api past [Asking w] mo seen cache) (one_client cfg api past [Answered w resources] mo seen cache)"
proof -
  have "ask_cluster cfg 0 (one_client cfg api past [Asking w] mo seen cache) = one_client cfg api past [Answered w resources] mo seen cache"
    unfolding ask_cluster_asked [OF one_client_phase] by (simp add: one_client_def set_phase_def assms)
  then show ?thesis using rs_ask [OF one_client_phase, of cfg] by metis
qed

lemma oc_changes:
  "default_step cfg (one_client cfg api past phases mo seen cache) (one_client cfg api' (api' # past) phases mo seen cache)"
proof -
  have "one_client cfg api' (api' # past) phases mo seen cache = cluster_becomes api' (one_client cfg api past phases mo seen cache)"
    by (simp add: one_client_def cluster_becomes_def)
  then show ?thesis using ds_cluster by simp
qed

lemma oc_chooses:
  assumes "selected_target cfg (px_lb (proxy_new cfg store_new None)) resources = Inr (a, m)"
  shows "route_step cfg (one_client cfg api past [Answered True resources] mo seen cache)
    (one_client cfg api past [Storing a m] mo seen cache)"
proof -
  have "choose_target cfg 0 (one_client cfg api past [Answered True resources] mo seen cache)
      = one_client cfg api past [Storing a m] mo seen cache"
    unfolding choose_target_def one_client_phase option.case route_phase.case
    by (simp add: one_client_def set_phase_def assms)
  then show ?thesis using rs_choose [OF one_client_phase, of cfg] by metis
qed

text \<open>A check of the monitor, which finds the text changed.\<close>

lemma check_run:
  assumes run: "(default_step cfg)\<^sup>*\<^sup>* s0 (one_client cfg api past phases Idle seen None)"
    and now_text: "monitor_text cfg api = Inr current" and "list_all (\<lambda>ph. \<not> holds_read ph) phases"
  shows "(default_step cfg)\<^sup>*\<^sup>* s0 (one_client cfg api past phases Idle current None)"
proof -
  let ?s = "\<lambda>mo. one_client cfg api past phases mo seen None"
  have "(?s Idle)\<lparr>dr_monitor := Listing\<rparr> = ?s Listing" "monitor_lists cfg (?s Listing) = ?s (Seen current)"
    by (simp_all add: monitor_lists_text one_client_def now_text)
  moreover have "monitor_compares current (?s (Seen current)) = one_client cfg api past phases Idle current None"
    by (simp add: monitor_compares_def compare_target_iff one_client_def)
  moreover have "route_step cfg (?s Idle) ((?s Idle)\<lparr>dr_monitor := Listing\<rparr>)"
    by (rule rs_tick) (simp add: one_client_def)
  moreover have "route_step cfg (?s Listing) (monitor_lists cfg (?s Listing))"
    by (rule rs_list) (simp add: one_client_def)
  moreover have "route_step cfg (?s (Seen current)) (monitor_compares current (?s (Seen current)))"
    by (rule rs_compare) (use assms(3) in \<open>simp_all add: one_client_def no_readers_def list_all_iff\<close>)
  ultimately show ?thesis using run
    by (metis ds_route rtranclp.rtrancl_into_rtrancl)
qed

text \<open>The answer is stored, and nothing is left that would change the cache.\<close>

lemma oc_stored:
  "store_answer 0 (one_client cfg api past [Storing a m] mo seen cache) =
     one_client cfg api past [if hm_get m (7777, Udp) \<noteq> None then Chosen False a m else Refused (PortUnsupported 7777)]
       mo seen (Some \<lparr>dc_address = a, dc_port_mappings = m\<rparr>)"
  unfolding store_answer_def one_client_phase option.case route_phase.case
  by (simp add: if_supported_def set_phase_def one_client_def Let_def supports_def)

lemma oc_stores:
  "route_step cfg (one_client cfg api past [Storing a m] mo seen cache)
     (store_answer 0 (one_client cfg api past [Storing a m] mo seen cache))"
  by (rule rs_store [OF one_client_phase]) (simp add: no_readers_def one_client_def)

lemma oc_settled:
  "monitor_text cfg api = Inr seen \<Longrightarrow> settled cfg \<lparr>dc_address = a, dc_port_mappings = m\<rparr>
     (store_answer 0 (one_client cfg api past [Storing a m] Idle seen cache))"
  by (simp add: oc_stored) (simp add: settled_def one_client_def)

lemma run_step: "(default_step cfg)\<^sup>*\<^sup>* s0 s \<Longrightarrow> route_step cfg s s' \<Longrightarrow> (default_step cfg)\<^sup>*\<^sup>* s0 s'"
  by (rule rtranclp.rtrancl_into_rtrancl) (auto intro: ds_route)

text \<open>The client asks, and the cluster answers.\<close>

lemma asked_reached:
  assumes "(default_step cfg)\<^sup>*\<^sup>* s0 (one_client cfg api past [] Idle seen None)" and "asked cfg api = Inr resources"
  shows "(default_step cfg)\<^sup>*\<^sup>* s0 (one_client cfg api past [Answered True resources] Idle seen None)"
  using run_step [OF run_step [OF run_step [OF assms(1) oc_arrives] oc_reads] oc_asks [OF assms(2)]] .

lemma oc_start: "routes_start cfg api = one_client cfg api [api] [] Idle None None"
  by (simp add: routes_start_def one_client_def monitor_new_def proxy_new_def)

section \<open>Properties\<close>

text \<open>
  C16. Whatever first packets, answers, cluster changes, invalidations and other traffic interleave: the cache holds
  nothing but what a query of the default endpoint gave for some state of the cluster, and so does every route about
  to be installed, which supports the packet's port; a route taken from the cache is installed while it is still
  the cached one, since its read lock keeps the invalidation out; and the balancer's count of a backend
  is the number of default sessions ever established to it.
\<close>

theorem default_routes_answered:
  assumes "(default_step cfg)\<^sup>*\<^sup>* (routes_start cfg api) s"
    and "task_phase s i \<in> {Some (Chosen guarded a m), Some (Cleared guarded a m)}"
  shows "answered cfg (dr_past s) a m
    \<and> hm_get m (rt_port (dr_tasks s ! i), rt_protocol (dr_tasks s ! i)) \<noteq> None
    \<and> (guarded \<longrightarrow> px_cache (dr_proxy s) = Some \<lparr>dc_address = a, dc_port_mappings = m\<rparr>)
    \<and> (\<forall>c. px_cache (dr_proxy s) = Some c \<longrightarrow> answered cfg (dr_past s) (dc_address c) (dc_port_mappings c))
    \<and> get_session_count (px_lb (dr_proxy s)) backend
        = length (filter (\<lambda>t. rt_phase t = Established backend) (dr_tasks s))"
proof -
  note D = routes_invD [OF routes_inv_reachable [OF assms(1)]]
  from assms(2) consider "task_phase s i = Some (Chosen guarded a m)" | "task_phase s i = Some (Cleared guarded a m)" by auto
  then have "answered cfg (dr_past s) a m \<and> supports (dr_tasks s ! i) m
      \<and> (guarded \<longrightarrow> cached_as (px_cache (dr_proxy s)) a m)"
    by cases (auto dest: D(6))
  then show ?thesis using D(3) D(5) [of backend] by (auto simp: supports_def cached_as_def established_def)
qed

text \<open>
  C18. No first packet waits forever: from every reachable state every task can run to its end, with a route or with an
  error, because the tasks that hold the cache's read lock wait for nobody, so that the write lock
  becomes free for the tasks that store an answer and for the monitor.
\<close>

theorem no_first_packet_stuck:
  assumes "(default_step cfg)\<^sup>*\<^sup>* (routes_start cfg api) s" and "i < length (dr_tasks s)"
  shows "\<exists>s'. (default_step cfg)\<^sup>*\<^sup>* s s'
    \<and> ((\<exists>address. task_phase s' i = Some (Established address)) \<or> (\<exists>e. task_phase s' i = Some (Refused e)))"
proof -
  have "task_phase s i = Some (rt_phase (dr_tasks s ! i))" using assms(2) by (simp add: task_phase_def)
  then obtain s' where s': "(route_step cfg)\<^sup>*\<^sup>* s s'" "ended s' i" using task_ends by blast
  then obtain ph where "task_phase s' i = Some ph" "rank ph = 0" by (auto simp: ended_def)
  moreover from s'(1) have "(default_step cfg)\<^sup>*\<^sup>* s s'" by (rule mono_rtranclp [rule_format, rotated]) (rule ds_route)
  ultimately show ?thesis by (cases ph) auto
qed

text \<open>
  The two models of a first packet fit together: a task that nobody disturbs, with no reader of the cache before
  it, ends with exactly the proxy state and the result of \<open>establish_default_session\<close> on the cluster as it is.
\<close>

lemma undisturbed_default_session:
  assumes "task_phase s i = Some Starting" and "no_readers s"
    and "establish_default_session cfg (dr_cluster s) now (rt_client (dr_tasks s ! i)) (rt_port (dr_tasks s ! i))
      (rt_protocol (dr_tasks s ! i)) (dr_proxy s) = (r, px')"
  shows "\<exists>ph. (route_step cfg)\<^sup>*\<^sup>* s (set_phase i ph (s\<lparr>dr_proxy := px'\<rparr>))
    \<and> (case r of Inl e \<Rightarrow> ph = Refused e | Inr _ \<Rightarrow> \<exists>address. ph = Established address)"
proof (cases "px_cache (dr_proxy s)")
  case None
  then show ?thesis using miss_run [OF assms] by (simp add: runs_to_def)
next
  case (Some c)
  then show ?thesis using hit_run [OF assms(1,3)] other_port_run [OF assms(1,3)]
    by (cases "supports (dr_tasks s ! i) (dc_port_mappings c)") (simp_all add: runs_to_def)
qed

text \<open>
  C17. A query for the default endpoint that is under way while the monitor notices a change undoes the invalidation:
  let the cluster answer one target and then, changed, another text. Then there is a run after which the monitor
  has recorded the new text and the cache holds the old target; and whatever packets, checks and traffic follow,
  the cache keeps it until the cluster changes again, so that every new client with a default route goes to the old target.
\<close>

theorem stale_answer_survives:
  assumes "query_default_endpoint cfg api (px_lb (proxy_new cfg store_new None)) = Inr (a, m)"
    and "monitor_text cfg api = Inr (Some t)" and "monitor_text cfg api' = Inr (Some t')" and "t \<noteq> t'"
  shows "\<exists>s. (default_step cfg)\<^sup>*\<^sup>* (routes_start cfg api) s \<and> dr_cluster s = api' \<and> dr_last s = Some t'
    \<and> dr_monitor s = Idle
    \<and> (\<forall>s'. (route_step cfg)\<^sup>*\<^sup>* s s' \<longrightarrow> px_cache (dr_proxy s') = Some \<lparr>dc_address = a, dc_port_mappings = m\<rparr>)"
proof -
  let ?px = "proxy_new cfg store_new None" and ?c = "\<lparr>dc_address = a, dc_port_mappings = m\<rparr>"
  let ?run = "(default_step cfg)\<^sup>*\<^sup>* (routes_start cfg api)"
  obtain resources where q: "asked cfg api = Inr resources" "selected_target cfg (px_lb ?px) resources = Inr (a, m)"
    using assms(1) by (auto simp: query_default_endpoint_split result_simps)
  have "?run (one_client cfg api [api] [] Idle None None)" by (simp add: oc_start)
  with assms(2) have "?run (one_client cfg api [api] [] Idle (Some t) None)" by (auto intro: check_run)
  note asked_reached [OF this q(1)]
  then have "?run (one_client cfg api' [api', api] [Answered True resources] Idle (Some t) None)"
    by (rule rtranclp.rtrancl_into_rtrancl) (rule oc_changes)
  note check_run [OF run_step [OF this oc_chooses [OF q(2)]] assms(3)]
  then have "?run (one_client cfg api' [api', api] [Storing a m] Idle (Some t') None)" by simp
  note reached = run_step [OF this oc_stores]
  let ?s = "store_answer 0 (one_client cfg api' [api', api] [Storing a m] Idle (Some t') None)"
  have "px_cache (dr_proxy s') = Some ?c" if "(route_step cfg)\<^sup>*\<^sup>* ?s s'" for s'
    using settled_run [OF that oc_settled [OF assms(3)]] by (simp add: settled_def)
  moreover have "dr_cluster ?s = api'" "dr_last ?s = Some t'" "dr_monitor ?s = Idle"
    unfolding oc_stored by (simp_all add: one_client_def)
  ultimately show ?thesis using reached by blast
qed

text \<open>The same backend under another address.\<close>

definition moved_api :: k8s_api where
  "moved_api = endpoint_api\<lparr>api_list :=
     (\<lambda>_. Inr \<lparr>lresp_items = [sample_resource ''b'' ''10.0.0.9'' [(''max'', ''1'')]], lresp_version = None\<rparr>)\<rparr>"

definition sample_target :: port_mappings where
  "sample_target = [((7777, Udp), 7777)]"

lemma sample_answer:
  "query_default_endpoint capacity_config endpoint_api (px_lb (proxy_new capacity_config store_new None))
     = Inr (''10.0.0.1'', sample_target)"
  using capacity_proxy_eval
  by (simp add: capacity_proxy_def capacity_query capacity_select(1) capacity_target sample_target_def)

lemma sample_text: "current_target sample_pod_mapping [sample_resource ''b'' address labels]
    = Inr (Some (target_text ''b'' address 7777))"
  by (simp add: current_target_def sample_pod_mapping_def) (simp add: sample_resource_def sample_meta_def)

lemma sample_monitor_text:
  "monitor_text capacity_config endpoint_api = Inr (Some (target_text ''b'' ''10.0.0.1'' 7777))"
  "monitor_text capacity_config moved_api = Inr (Some (target_text ''b'' ''10.0.0.9'' 7777))"
  by (simp_all add: monitor_text_def capacity_lookup endpoint_resources_sample sample_text)
     (simp add: endpoint_resources_def query_resources_def query_resources_snapshot_def moved_api_def endpoint_api_def
      endpoint_status_def sample_default_endpoint_def sample_text)

lemma stale_answer_survives_witness:
  "\<exists>s. (default_step capacity_config)\<^sup>*\<^sup>* (routes_start capacity_config endpoint_api) s
    \<and> dr_cluster s = moved_api
    \<and> dr_last s = Some (target_text ''b'' ''10.0.0.9'' 7777)
    \<and> px_cache (dr_proxy s) = Some \<lparr>dc_address = ''10.0.0.1'', dc_port_mappings = sample_target\<rparr>"
proof -
  have "target_text ''b'' ''10.0.0.1'' 7777 \<noteq> target_text ''b'' ''10.0.0.9'' 7777" by (simp add: target_text_def)
  from stale_answer_survives [OF sample_answer sample_monitor_text this] show ?thesis by blast
qed

text \<open>The client after its answer was stored.\<close>

definition sample_chosen :: routes_state where
  "sample_chosen = one_client capacity_config endpoint_api [endpoint_api] [Chosen False ''10.0.0.1'' sample_target]
     Idle None (Some \<lparr>dc_address = ''10.0.0.1'', dc_port_mappings = sample_target\<rparr>)"

lemma sample_chosen_reached: "(default_step capacity_config)\<^sup>*\<^sup>* (routes_start capacity_config endpoint_api) sample_chosen"
proof -
  let ?run = "(default_step capacity_config)\<^sup>*\<^sup>* (routes_start capacity_config endpoint_api)"
  obtain resources where q: "asked capacity_config endpoint_api = Inr resources"
    "selected_target capacity_config (px_lb (proxy_new capacity_config store_new None)) resources = Inr (''10.0.0.1'', sample_target)"
    using sample_answer by (auto simp: query_default_endpoint_split result_simps)
  have "?run (one_client capacity_config endpoint_api [endpoint_api] [] Idle None None)" by (simp add: oc_start)
  from run_step [OF run_step [OF asked_reached [OF this q(1)] oc_chooses [OF q(2)]] oc_stores]
  show ?thesis by (simp add: oc_stored sample_chosen_def sample_target_def)
qed

lemma default_routes_answered_witness:
  "answered capacity_config [endpoint_api] ''10.0.0.1'' sample_target
   \<and> get_session_count (px_lb (dr_proxy sample_chosen)) ''10.0.0.1'' = 0"
  using default_routes_answered [OF sample_chosen_reached, of 0 False "''10.0.0.1''" sample_target "''10.0.0.1''"]
  by (simp add: sample_chosen_def one_client_phase) (simp add: one_client_def)

lemma no_first_packet_stuck_witness:
  "\<exists>s'. (default_step capacity_config)\<^sup>*\<^sup>* sample_chosen s'
     \<and> ((\<exists>address. task_phase s' 0 = Some (Established address)) \<or> (\<exists>e. task_phase s' 0 = Some (Refused e)))"
  by (rule no_first_packet_stuck [OF sample_chosen_reached]) (simp add: sample_chosen_def one_client_def)

end
