(* ===== verification/TcpConnections.thy ===== *)
theory TcpConnections
  imports Director SessionSpec
begin

text \<open>
  TCP connections that stay open: \<open>handle_tcp_connection\<close> of \<open>src/proxy.rs\<close> cut at the copying of the bytes, while which
  every other handler runs. An open connection is a pair of the client's address and the target's; it keeps
  neither a session nor a lock. The lemmas show that the whole handler is one of the interleavings, that the
  invariant of the director survives them, and what an open connection does not keep alive.
\<close>

section \<open>Opening and closing\<close>

definition open_tcp :: "config \<Rightarrow> k8s_api \<Rightarrow> network \<Rightarrow> nat \<Rightarrow> socket_addr \<Rightarrow> u16 \<Rightarrow> data_proxy \<Rightarrow> (error + socket_addr) \<times> data_proxy" where
  "open_tcp cfg api nw now client proxy_port px =
     (case (if get_by_addr (px_store px) client = None
            then establish_default_session cfg api now client proxy_port Tcp px
            else (Inr (), px)) of
        (Inl e, px') \<Rightarrow> (Inl e, px')
      | (Inr _, px') \<Rightarrow>
          (and_then (ok_or SessionNotEstablished (get_by_addr (px_store px') client)) (\<lambda>session.
           and_then (get_target_addr session proxy_port Tcp) (\<lambda>target_addr.
             if nw_connected nw then Inr target_addr else Inl IoError)), px'))"

text \<open>The copying has ended, in whatever way; the session is touched if there is one.\<close>

definition close_tcp :: "nat \<Rightarrow> socket_addr \<Rightarrow> data_proxy \<Rightarrow> data_proxy" where
  "close_tcp now client px = px\<lparr>px_store := touch_by_addr now client (px_store px)\<rparr>"

lemma handle_tcp_connection_split:
  "handle_tcp_connection cfg api nw now closed client port px =
     (case open_tcp cfg api nw now client port px of
        (Inl e, px') \<Rightarrow> (Inl e, [], px')
      | (Inr target, px') \<Rightarrow> (Inr (), [Connection client target], close_tcp closed client px'))"
  by (auto simp: handle_tcp_connection_def open_tcp_def close_tcp_def Let_def split: sum.splits option.splits prod.splits)

record connections =
  cn_director :: director
  cn_open :: "(socket_addr \<times> socket_addr) list"

definition connections_start :: "config \<Rightarrow> connections" where
  "connections_start cfg = \<lparr>cn_director = start_director cfg, cn_open = []\<rparr>"

inductive connection_step :: "query_server \<Rightarrow> connections \<Rightarrow> connections \<Rightarrow> bool" for qs where
  cn_opens: "open_tcp (qs_config qs) api nw now client port (proxy_of (cn_director s)) = (Inr target, px) \<Longrightarrow>
    connection_step qs s (s\<lparr>cn_director := put_proxy px (cn_director s), cn_open := cn_open s @ [(client, target)]\<rparr>)"
| cn_refused: "open_tcp (qs_config qs) api nw now client port (proxy_of (cn_director s)) = (Inl e, px) \<Longrightarrow>
    connection_step qs s (s\<lparr>cn_director := put_proxy px (cn_director s)\<rparr>)"
| cn_closes: "cn_open s = opened @ (client, target) # others \<Longrightarrow>
    connection_step qs s (s\<lparr>cn_director := put_proxy (close_tcp now client (proxy_of (cn_director s))) (cn_director s),
      cn_open := opened @ others\<rparr>)"
| cn_other: "director_step qs (cn_director s) d \<Longrightarrow> connection_step qs s (s\<lparr>cn_director := d\<rparr>)"

section \<open>The invariant of the director\<close>

lemma put_proxy_of [simp]: "put_proxy (proxy_of d) d = d" "proxy_of (put_proxy px d) = px"
  "put_proxy px (put_proxy px' d) = put_proxy px d" "di_cleanup_manager (put_proxy px d) = di_cleanup_manager d"
  by (simp_all add: put_proxy_def proxy_of_def)

lemma open_tcp_store: "open_tcp cfg api nw now client port px = (r, px') \<Longrightarrow>
    px' = px \<or> (\<exists>r1. establish_default_session cfg api now client port Tcp px = (r1, px'))"
  by (auto simp: open_tcp_def split: if_splits sum.splits prod.splits)

lemma open_tcp_inv:
  assumes "director_inv d" and "open_tcp cfg api nw now client port (proxy_of d) = (r, px)"
  shows "director_inv (put_proxy px d)"
  using open_tcp_store [OF assms(2)] establish_inv [of "proxy_of d"] assms(1)
  by (auto simp: director_inv_def put_proxy_def)

lemma close_tcp_inv: "director_inv d \<Longrightarrow> director_inv (put_proxy (close_tcp now client (proxy_of d)) d)"
  by (simp add: director_inv_def put_proxy_def close_tcp_def store_inv_touch)

text \<open>The cleanup task keeps the manager it was started with.\<close>

definition connections_inv :: "config \<Rightarrow> connections \<Rightarrow> bool" where
  "connections_inv cfg s \<longleftrightarrow> director_inv (cn_director s)
     \<and> di_cleanup_manager (cn_director s) = snd (manager_new (cfg_session_timeout_seconds cfg))"

lemma director_step_manager: "director_step qs d d' \<Longrightarrow> di_cleanup_manager d' = di_cleanup_manager d"
  by (erule director_stepE) (simp_all add: run_cleanup_def run_monitor_def Let_def split: prod.splits)

lemma connections_inv_step:
  assumes "connection_step qs s s'" and "connections_inv cfg s"
  shows "connections_inv cfg s'"
proof -
  from assms have inv: "director_inv (cn_director s)" by (simp add: connections_inv_def)
  have "director_inv (cn_director s')" using assms(1)
  proof cases
    case (cn_other d)
    then show ?thesis using director_inv_step inv by auto
  qed (use inv in \<open>auto intro: open_tcp_inv close_tcp_inv\<close>)
  moreover have "di_cleanup_manager (cn_director s') = di_cleanup_manager (cn_director s)"
    using assms(1) by cases (auto dest: director_step_manager)
  ultimately show ?thesis using assms(2) by (simp add: connections_inv_def)
qed

interpretation connections_run: step_invariant "connection_step qs" "connections_start (qs_config qs)" "connections_inv (qs_config qs)"
  for qs
proof
  show "connections_inv (qs_config qs) (connections_start (qs_config qs))"
    by (simp add: connections_inv_def connections_start_def director_inv_start) (simp add: start_director_def manager_new_def Let_def)
qed (rule connections_inv_step)

lemmas connections_inv_reachable = connections_run.inv_reachable

text \<open>The whole handler is an opening and a closing with nothing in between.\<close>

lemma handler_is_run:
  assumes "handle_tcp_connection (qs_config qs) api nw now closed client port (proxy_of (cn_director s)) = (r, out, px)"
  shows "(connection_step qs)\<^sup>*\<^sup>* s (s\<lparr>cn_director := put_proxy px (cn_director s)\<rparr>)"
proof (cases "open_tcp (qs_config qs) api nw now client port (proxy_of (cn_director s))")
  case (Pair r1 px1)
  show ?thesis
  proof (cases r1)
    case (Inl e)
    then show ?thesis using assms Pair cn_refused [of qs api nw now client port s e px1]
      by (simp add: handle_tcp_connection_split r_into_rtranclp)
  next
    case (Inr target)
    let ?s1 = "s\<lparr>cn_director := put_proxy px1 (cn_director s), cn_open := cn_open s @ [(client, target)]\<rparr>"
    have "connection_step qs s ?s1" using Pair Inr by (auto intro: cn_opens)
    moreover have "connection_step qs ?s1 (s\<lparr>cn_director := put_proxy px (cn_director s)\<rparr>)"
      using cn_closes [of ?s1 "cn_open s" client target "[]" qs closed] assms Pair Inr
      by (simp add: handle_tcp_connection_split)
    ultimately show ?thesis by (rule converse_rtranclp_into_rtranclp [OF _ r_into_rtranclp])
  qed
qed

lemma cleanup_isolated: "director_inv d \<Longrightarrow> isolated (di_store (run_cleanup now d))"
proof -
  assume "director_inv d"
  then have "director_inv (run_cleanup now d)" by (rule conjunct1 [OF director_inv_step [OF step_cleanup]])
  then show ?thesis by (simp add: director_inv_def store_invD(1))
qed

lemma cleanup_store:
  "di_cleanup_manager d = snd (manager_new t) \<Longrightarrow> di_store (run_cleanup now d) = fst (cleanup_tick t None now (di_store d, di_main_lb d))"
  by (simp add: run_cleanup_def manager_new_def Let_def split: prod.splits)

text \<open>A pass of the cleanup takes an idle session away for every socket of its IP.\<close>

lemma cleanup_takes:
  assumes inv: "connections_inv cfg s" and session: "get_by_addr (di_store (cn_director s)) client = Some session"
    and idle: "is_timed_out (cfg_session_timeout_seconds cfg) now session" and a: "sa_ip a = sa_ip client"
  shows "get_by_addr (di_store (run_cleanup now (cn_director s))) a = None"
proof -
  let ?d = "cn_director s" and ?t = "cfg_session_timeout_seconds cfg"
  have iso: "isolated (di_store ?d)" using inv store_invD(1) by (auto simp: connections_inv_def director_inv_def)
  have store: "di_store (run_cleanup now ?d) = fst (cleanup_tick ?t None now (di_store ?d, di_main_lb ?d))"
    using inv by (simp add: connections_inv_def cleanup_store)
  have "isolated (di_store (run_cleanup now ?d))" using inv by (simp add: connections_inv_def cleanup_isolated)
  then have "get_by_addr (di_store (run_cleanup now ?d)) a = sm_get (di_store (run_cleanup now ?d)) (sa_ip client)"
    by (simp add: get_by_addr_inv a)
  then show ?thesis using idle session
    by (simp add: store sm_get_cleanup_tick [OF iso] get_by_addr_inv [OF iso])
qed

section \<open>Properties\<close>

text \<open>
  C19. An open TCP connection is no activity of its client: connecting leaves the session as it was, and the bytes
  that are copied touch nothing, so that once the last packet, query or closing is longer ago than the
  timeout, a cleanup pass takes the route from every socket of the client's IP while the connection, which may have
  been opened a moment before, stays open; closing it later does not bring the route back.
\<close>

theorem open_connection_loses_route:
  assumes "(connection_step qs)\<^sup>*\<^sup>* (connections_start (qs_config qs)) s"
    and "get_by_addr (di_store (cn_director s)) client = Some session"
    and "is_timed_out (cfg_session_timeout_seconds (qs_config qs)) now session"
    and "open_tcp (qs_config qs) api nw opened client port (proxy_of (cn_director s)) = (Inr target, px)"
  shows "\<exists>s1 s2. connection_step qs s s1 \<and> connection_step qs s1 s2 \<and> cn_director s1 = cn_director s
    \<and> cn_open s2 = cn_open s @ [(client, target)]
    \<and> (\<forall>a. get_by_addr (di_store (cn_director s2)) a = None \<or> sa_ip a \<noteq> sa_ip client)
    \<and> close_tcp closed client (proxy_of (cn_director s2)) = proxy_of (cn_director s2)"
proof -
  note inv = connections_inv_reachable [OF assms(1)]
  have px: "px = proxy_of (cn_director s)" using assms(2,4) by (simp add: open_tcp_def)
  let ?s1 = "s\<lparr>cn_open := cn_open s @ [(client, target)]\<rparr>"
  let ?s2 = "?s1\<lparr>cn_director := run_cleanup now (cn_director s)\<rparr>"
  have "connection_step qs s ?s1" using cn_opens [OF assms(4)] by (simp add: px)
  moreover have "connection_step qs ?s1 ?s2" using cn_other [of qs ?s1 "run_cleanup now (cn_director s)"] step_cleanup by simp
  moreover have gone: "get_by_addr (di_store (cn_director ?s2)) a = None \<or> sa_ip a \<noteq> sa_ip client" for a
    using cleanup_takes [OF inv assms(2,3)] by auto
  moreover have "close_tcp closed client (proxy_of (cn_director ?s2)) = proxy_of (cn_director ?s2)"
  proof -
    have "isolated (di_store (cn_director ?s2))" using inv by (simp add: connections_inv_def cleanup_isolated)
    then show ?thesis using gone [of client]
      by (simp add: close_tcp_def touch_by_addr_ip sm_touch_def get_by_addr_inv sm_get_def)
  qed
  ultimately show ?thesis by (intro exI [of _ ?s1] exI [of _ ?s2]) simp
qed

text \<open>The sample director with a TCP data port and one connection.\<close>

definition tcp_config :: config where
  "tcp_config = capacity_config\<lparr>cfg_data_ports := Some [\<lparr>dp_port = 7777, dp_protocol = Tcp, dp_name = ''tcp''\<rparr>]\<rparr>"

definition tcp_server :: query_server where
  "tcp_server = sample_server\<lparr>qs_config := tcp_config\<rparr>"

definition connected_proxy :: data_proxy where
  "connected_proxy = \<lparr>px_store = upsert_multi_port 0 sample_client ''10.0.0.1'' [((7777, Tcp), 7777)] store_new,
     px_cache = Some \<lparr>dc_address = ''10.0.0.1'', dc_port_mappings = [((7777, Tcp), 7777)]\<rparr>,
     px_lb = increment_session ''10.0.0.1'' (lb_new (LabelArithmetic ''cur'' ''max'' 0))\<rparr>"

abbreviation tcp_session :: session where
  "tcp_session \<equiv> new_multi_port 0 ''10.0.0.1'' [((7777, Tcp), 7777)]"

lemma tcp_query:
  "query_default_endpoint tcp_config endpoint_api (lb_new (LabelArithmetic ''cur'' ''max'' 0)) = Inr (''10.0.0.1'', [((7777, Tcp), 7777)])"
proof -
  have lookup: "get_default_endpoint tcp_config = sample_default_endpoint"
    "hm_get (cfg_resource_query_mapping tcp_config) (de_resource_type sample_default_endpoint) = Some sample_pod_mapping"
    "get_data_ports tcp_config = [\<lparr>dp_port = 7777, dp_protocol = Tcp, dp_name = ''tcp''\<rparr>]"
    using capacity_lookup(1,2) by (simp_all add: tcp_config_def get_default_endpoint_def get_data_ports_def)
  have "extract_endpoint_target_multi_port tcp_config (sample_resource ''b'' ''10.0.0.1'' labels) sample_pod_mapping
      = Inr (''10.0.0.1'', [((7777, Tcp), 7777)])" for labels
    by (simp add: extract_endpoint_target_multi_port_def sample_pod_mapping_def lookup)
  moreover have "rm_address_path sample_pod_mapping = Some ''status.podIP''" "rm_address_type sample_pod_mapping = None"
    by (simp_all add: sample_pod_mapping_def)
  ultimately show ?thesis by (simp add: query_default_endpoint_def lookup endpoint_resources_sample capacity_select(1))
qed

lemma tcp_start: "proxy_of (start_director tcp_config) = capacity_proxy"
  using start_capacity by (simp add: start_director_def proxy_of_def tcp_config_def proxy_new_def get_load_balancing_def split: prod.splits)

lemma connected_session: "get_by_addr (px_store connected_proxy) sample_client = Some tcp_session"
  by (simp add: connected_proxy_def upsert_multi_port_def get_by_addr_def table_defs sample_client_def addr_v4_def)

lemma tcp_opens:
  "open_tcp tcp_config endpoint_api sample_network now sample_client 7777 connected_proxy = (Inr (addr_v4 10 0 0 1 7777), connected_proxy)"
  "open_tcp tcp_config endpoint_api sample_network 0 sample_client 7777 capacity_proxy = (Inr (addr_v4 10 0 0 1 7777), connected_proxy)"
proof -
  have target: "get_target_addr tcp_session 7777 Tcp = Inr (addr_v4 10 0 0 1 7777)"
    using parse_show_socket_addr [of 10 0 0 1 7777, unfolded show_ipv4_sample]
    by (simp add: get_target_addr_def new_multi_port_def Let_def)
  show "open_tcp tcp_config endpoint_api sample_network now sample_client 7777 connected_proxy = (Inr (addr_v4 10 0 0 1 7777), connected_proxy)"
    by (simp add: open_tcp_def connected_session target) (simp add: sample_network_def)
  have "establish_default_session tcp_config endpoint_api 0 sample_client 7777 Tcp capacity_proxy = (Inr (), connected_proxy)"
    by (simp add: establish_default_session_def default_route_def capacity_proxy_eval tcp_query connected_proxy_def)
  moreover have "get_by_addr (px_store capacity_proxy) sample_client = None"
    by (simp add: get_by_addr_def sm_get_def capacity_proxy_eval store_new_def)
  ultimately show "open_tcp tcp_config endpoint_api sample_network 0 sample_client 7777 capacity_proxy
      = (Inr (addr_v4 10 0 0 1 7777), connected_proxy)"
    by (simp add: open_tcp_def connected_session target) (simp add: sample_network_def)
qed

lemma open_connection_loses_route_witness:
  "\<exists>s. (connection_step tcp_server)\<^sup>*\<^sup>* (connections_start tcp_config) s \<and> length (cn_open s) = 2
     \<and> get_by_addr (di_store (cn_director s)) sample_client = None"
proof -
  have cfg: "qs_config tcp_server = tcp_config" by (simp add: tcp_server_def)
  let ?start = "connections_start tcp_config" and ?t = "addr_v4 10 0 0 1 7777"
  let ?s = "?start\<lparr>cn_director := put_proxy connected_proxy (start_director tcp_config), cn_open := [(sample_client, ?t)]\<rparr>"
  have "connection_step tcp_server ?start ?s"
    using cn_opens [of tcp_server endpoint_api sample_network 0 sample_client 7777 ?start ?t connected_proxy] tcp_opens(2)
    by (simp add: cfg connections_start_def tcp_start)
  then have run: "(connection_step tcp_server)\<^sup>*\<^sup>* (connections_start (qs_config tcp_server)) ?s" by (simp add: cfg r_into_rtranclp)
  have store: "di_store (cn_director ?s) = px_store connected_proxy" by (simp add: put_proxy_def)
  have "get_by_addr (di_store (cn_director ?s)) sample_client = Some tcp_session" unfolding store by (rule connected_session)
  moreover have "is_timed_out (cfg_session_timeout_seconds (qs_config tcp_server)) 300000000001 tcp_session"
    by (simp add: cfg is_timed_out_def new_multi_port_def tcp_config_def capacity_config_def sample_config_def)
  moreover have "open_tcp (qs_config tcp_server) endpoint_api sample_network 300000000000 sample_client 7777 (proxy_of (cn_director ?s))
      = (Inr ?t, connected_proxy)"
    by (simp add: cfg tcp_opens(1))
  ultimately obtain s1 s2 where "connection_step tcp_server ?s s1" "connection_step tcp_server s1 s2"
    "cn_open s2 = [(sample_client, ?t)] @ [(sample_client, ?t)]" "get_by_addr (di_store (cn_director s2)) sample_client = None"
    using open_connection_loses_route [OF run] by force
  then show ?thesis using run by (intro exI [of _ s2]) (auto simp: cfg intro: rtranclp.rtrancl_into_rtrancl)
qed

end
