(* ===== verification/Conformance.thy ===== *)
theory Conformance
  imports LoadBalancer Session
begin

text \<open>
  The repository's unit tests of \<open>session.rs\<close>, \<open>load_balancer.rs\<close> and \<open>k8s_client.rs\<close> as executable
  definitions over the model: the same inputs, the same calls in the same order, and the conjunction of the
  asserted facts. Each is shown true by evaluation, so the model does what the program's authors expect.
\<close>

section \<open>Sessions\<close>

text \<open>The single-port constructors that only the tests use.\<close>

definition session_new :: "nat \<Rightarrow> string \<Rightarrow> u16 \<Rightarrow> session" where
  "session_new now target_ip port = new_multi_port now target_ip [((port, Udp), port)]"

definition upsert :: "nat \<Rightarrow> socket_addr \<Rightarrow> string \<Rightarrow> u16 \<Rightarrow> session_store \<Rightarrow> session_store" where
  "upsert now client target_ip port st = upsert_multi_port now client target_ip [((port, Udp), port)] st"

abbreviation test_client :: socket_addr where
  "test_client \<equiv> addr_v4 127 0 0 1 12345"

abbreviation other_port :: socket_addr where
  "other_port \<equiv> addr_v4 127 0 0 1 54321"

definition target_ip_of :: "session_store \<Rightarrow> socket_addr \<Rightarrow> string option" where
  "target_ip_of st client = map_option s_target_ip (get_by_addr st client)"

definition test_session_creation :: bool where
  "test_session_creation =
     (let manager = upsert 0 test_client ''10.0.0.1'' 7777 store_new in
      target_ip_of manager test_client = Some ''10.0.0.1'' \<and> sm_count manager = 1)"

definition test_session_upsert :: bool where
  "test_session_upsert =
     (let manager = upsert 0 test_client ''10.0.0.1'' 7777 store_new;
          manager' = upsert 1 test_client ''10.0.0.2'' 7777 manager in
      target_ip_of manager test_client = Some ''10.0.0.1''
      \<and> target_ip_of manager' test_client = Some ''10.0.0.2'' \<and> sm_count manager' = 1)"

definition test_session_timeout :: bool where
  "test_session_timeout =
     (case get_by_addr (upsert 0 test_client ''10.0.0.1'' 7777 store_new) test_client of
        None \<Rightarrow> False
      | Some s \<Rightarrow> \<not> is_timed_out 1 0 s \<and> is_timed_out 1 2000000000 s)"

definition test_multi_port_session :: bool where
  "test_multi_port_session =
     (case get_by_addr (upsert_multi_port 0 test_client ''10.0.0.1''
          [((7777, Udp), 7777), ((7777, Tcp), 7778), ((27015, Udp), 27015)] store_new) test_client of
        None \<Rightarrow> False
      | Some s \<Rightarrow> s_target_ip s = ''10.0.0.1'' \<and> length (s_port_mappings s) = 3
          \<and> get_target_addr s 7777 Udp = Inr (addr_v4 10 0 0 1 7777)
          \<and> get_target_addr s 7777 Tcp = Inr (addr_v4 10 0 0 1 7778)
          \<and> get_target_addr s 27015 Udp = Inr (addr_v4 10 0 0 1 27015))"

definition test_session_touch :: bool where
  "test_session_touch =
     (let manager = upsert 0 test_client ''10.0.0.1'' 7777 store_new;
          manager' = touch_by_addr 100000000 test_client manager in
      case (get_by_addr manager test_client, get_by_addr manager' test_client) of
        (Some session1, Some session2) \<Rightarrow> s_last_activity session2 > s_last_activity session1
      | _ \<Rightarrow> False)"

definition test_ip_based_sessions :: bool where
  "test_ip_based_sessions =
     (let manager = upsert 0 test_client ''10.0.0.1'' 7777 store_new;
          manager' = upsert 1 other_port ''10.0.0.2'' 7777 manager in
      sm_count manager = 1 \<and> target_ip_of manager' test_client = Some ''10.0.0.2''
      \<and> target_ip_of manager' test_client = target_ip_of manager' other_port \<and> sm_count manager' = 1)"

definition test_udp_sockets_are_isolated_by_client_source_port :: bool where
  "test_udp_sockets_are_isolated_by_client_source_port =
     (case get_or_create_udp_socket True 7777 test_client (session_new 0 ''10.0.0.1'' 7777) [] of
        Inl _ \<Rightarrow> False
      | Inr (old_socket, s1, socks1) \<Rightarrow>
          (case get_or_create_udp_socket True 7777 other_port s1 socks1 of
             Inl _ \<Rightarrow> False
           | Inr (new_socket, s2, socks2) \<Rightarrow>
               (case get_or_create_udp_socket True 7777 other_port s2 socks2 of
                  Inl _ \<Rightarrow> False
                | Inr (reused_new_socket, s3, socks3) \<Rightarrow>
                    old_socket \<noteq> new_socket \<and> new_socket = reused_new_socket \<and> length (s_udp_sockets s3) = 2
                    \<and> list_all sk_shutdown (snd (shutdown_sockets s3 socks3)))))"

lemmas session_test_defs = upsert_def session_new_def target_ip_of_def upsert_multi_port_def upsert_shutdown_old_def
  upsert_insert_def get_by_addr_def sm_get_def sm_count_def store_new_def put_session_def new_multi_port_def
  shutdown_sockets_def shutdown_all_def addr_v4_def

lemma session_tests:
  "test_session_creation" "test_session_upsert" "test_session_timeout" "test_session_touch" "test_ip_based_sessions"
  "test_udp_sockets_are_isolated_by_client_source_port"
  by (simp_all add: test_session_creation_def test_session_upsert_def test_session_timeout_def test_session_touch_def
      test_ip_based_sessions_def test_udp_sockets_are_isolated_by_client_source_port_def session_test_defs Let_def
      is_timed_out_def touch_by_addr_def sm_touch_def session_touch_def key_by_addr_def get_or_create_udp_socket_def
      socket_new_def socket_shutdown_def)

lemma multi_port_test: "test_multi_port_session"
proof -
  have ip: "''10.0.0.1'' = show_ipv4 10 0 0 1" by code_simp
  show ?thesis
    using parse_show_socket_addr [of 10 0 0 1 7777] parse_show_socket_addr [of 10 0 0 1 7778]
      parse_show_socket_addr [of 10 0 0 1 27015]
    by (simp add: test_multi_port_session_def session_test_defs get_target_addr_def Let_def ip)
qed

section \<open>Balancing\<close>

definition create_mock_resource :: "string \<Rightarrow> string \<Rightarrow> (string, string) hashmap \<Rightarrow> dynamic_object" where
  "create_mock_resource n address labels =
     \<lparr>do_metadata = \<lparr>om_name = Some n, om_uid = None, om_resource_version = None, om_labels = Some labels,
        om_annotations = None, om_deletion_timestamp = None\<rparr>,
      do_json = Some (JObject [(''status'', JObject [(''podIP'', JString address)])])\<rparr>"

definition selected_name :: "load_balancer \<Rightarrow> dynamic_object list \<Rightarrow> string option" where
  "selected_name lb resources =
     (case select_backend lb resources ''status.podIP'' None of
        Inl _ \<Rightarrow> None | Inr r \<Rightarrow> om_name (do_metadata r))"

definition test_least_sessions_selection :: bool where
  "test_least_sessions_selection =
     (let resources = [create_mock_resource ''pod-1'' ''10.0.0.1'' [], create_mock_resource ''pod-2'' ''10.0.0.2'' [],
            create_mock_resource ''pod-3'' ''10.0.0.3'' []];
          lb = fold increment_session [''10.0.0.1'', ''10.0.0.1'', ''10.0.0.2''] (lb_new LeastSessions);
          lb' = fold increment_session [''10.0.0.3'', ''10.0.0.3''] lb in
      selected_name lb resources = Some ''pod-3'' \<and> selected_name lb' resources = Some ''pod-2'')"

definition test_label_arithmetic_selection :: bool where
  "test_label_arithmetic_selection =
     (let users = (\<lambda>current. [(''currentUsers'', current), (''maxUsers'', ''10'')]);
          resources = [create_mock_resource ''pod-1'' ''10.0.0.1'' (users ''5''),
            create_mock_resource ''pod-2'' ''10.0.0.2'' (users ''8''), create_mock_resource ''pod-3'' ''10.0.0.3'' (users ''2'')];
          lb = lb_new (LabelArithmetic ''currentUsers'' ''maxUsers'' 2);
          lb' = fold increment_session (replicate 4 ''10.0.0.3'') lb in
      selected_name lb resources = Some ''pod-3'' \<and> selected_name lb' resources = Some ''pod-1'')"

definition test_label_arithmetic_at_capacity :: bool where
  "test_label_arithmetic_at_capacity =
     (let resources = [create_mock_resource ''pod-1'' ''10.0.0.1'' [(''currentUsers'', ''9''), (''maxUsers'', ''10'')]] in
      selected_name (lb_new (LabelArithmetic ''currentUsers'' ''maxUsers'' 1)) resources = None)"

lemma mock_address [simp]:
  "extract_address (create_mock_resource n address labels) ''status.podIP'' None = Inr address"
  by (simp add: create_mock_resource_def extract_address_def extract_json_path_def path_part_def)

lemma mock_meta [simp]:
  "om_name (do_metadata (create_mock_resource n address labels)) = Some n"
  "om_labels (do_metadata (create_mock_resource n address labels)) = Some labels"
  by (simp_all add: create_mock_resource_def)

lemma name_of_least:
  assumes "lb_strategy_of lb = LeastSessions" and "resources \<noteq> []"
    and "least_backends lb ''status.podIP'' None resources = Inr bs"
    and "first_least (\<lambda>(_, _, count). count) bs = Some (r, x)"
  shows "selected_name lb resources = om_name (do_metadata r)"
  using assms by (simp add: selected_name_def select_backend_def select_least_sessions_def)

abbreviation three_pods :: "dynamic_object list" where
  "three_pods \<equiv> [create_mock_resource ''pod-1'' ''10.0.0.1'' [], create_mock_resource ''pod-2'' ''10.0.0.2'' [],
     create_mock_resource ''pod-3'' ''10.0.0.3'' []]"

abbreviation loaded :: "(string \<times> nat) list \<Rightarrow> load_balancer" where
  "loaded counts \<equiv> \<lparr>lb_strategy_of = LeastSessions, lb_session_counts = counts\<rparr>"

abbreviation three_backends :: "nat \<Rightarrow> nat \<Rightarrow> nat \<Rightarrow> (dynamic_object \<times> string \<times> nat) list" where
  "three_backends a b c \<equiv> [(create_mock_resource ''pod-1'' ''10.0.0.1'' [], ''10.0.0.1'', a),
     (create_mock_resource ''pod-2'' ''10.0.0.2'' [], ''10.0.0.2'', b), (create_mock_resource ''pod-3'' ''10.0.0.3'' [], ''10.0.0.3'', c)]"

lemma least_sessions_test: "test_least_sessions_selection"
proof -
  let ?lb = "fold increment_session [''10.0.0.1'', ''10.0.0.1'', ''10.0.0.2''] (lb_new LeastSessions)"
  let ?lb' = "fold increment_session [''10.0.0.3'', ''10.0.0.3''] ?lb"
  have lb: "?lb = loaded [(''10.0.0.1'', 2), (''10.0.0.2'', 1)]"
    by (simp add: increment_session_def lb_new_def)
  have lb': "?lb' = loaded [(''10.0.0.1'', 2), (''10.0.0.2'', 1), (''10.0.0.3'', 2)]"
    by (simp only: lb) (simp add: increment_session_def)
  have "selected_name ?lb three_pods = Some ''pod-3''" unfolding lb
  proof (subst name_of_least)
    show "least_backends (loaded [(''10.0.0.1'', 2), (''10.0.0.2'', 1)]) ''status.podIP'' None three_pods = Inr (three_backends 2 1 0)"
      by (simp add: get_session_count_def)
    show "first_least (\<lambda>(_, _, count). count) (three_backends 2 1 0)
        = Some (create_mock_resource ''pod-3'' ''10.0.0.3'' [], ''10.0.0.3'', 0)"
      by (simp add: first_least_def)
  qed simp_all
  moreover have "selected_name ?lb' three_pods = Some ''pod-2''" unfolding lb'
  proof (subst name_of_least)
    show "least_backends (loaded [(''10.0.0.1'', 2), (''10.0.0.2'', 1), (''10.0.0.3'', 2)]) ''status.podIP'' None three_pods
        = Inr (three_backends 2 1 2)"
      by (simp add: get_session_count_def)
    show "first_least (\<lambda>(_, _, count). count) (three_backends 2 1 2)
        = Some (create_mock_resource ''pod-2'' ''10.0.0.2'' [], ''10.0.0.2'', 1)"
      by (simp add: first_least_def)
  qed simp_all
  ultimately show ?thesis by (simp only: test_least_sessions_selection_def Let_def simp_thms)
qed

lemma test_digits: "parse_i64 ''2'' = Some 2" "parse_i64 ''5'' = Some 5" "parse_i64 ''8'' = Some 8" "parse_i64 ''9'' = Some 9"
  "parse_i64 ''10'' = Some 10"
  by (simp_all add: parse_i64_def parse_unsigned_def digits_value_def digit_value_def is_ascii_digit_def)

lemma users_candidate:
  "arithmetic_candidate lb ''currentUsers'' ''maxUsers'' ovl
     (create_mock_resource n a [(''currentUsers'', c), (''maxUsers'', ''10'')]) a =
   (case parse_i64 c of
      None \<Rightarrow> None
    | Some cur \<Rightarrow> let av = available_capacity 10 cur (get_session_count lb a) ovl in if sint av > 0 then Some (av, cur) else None)"
  by (simp add: arithmetic_candidate_def current_value_def max_value_def test_digits Let_def split: option.split)

abbreviation with_users :: "string \<Rightarrow> (string \<times> string) list" where
  "with_users c \<equiv> [(''currentUsers'', c), (''maxUsers'', ''10'')]"

lemma name_of_roomiest:
  assumes "lb_strategy_of lb = LabelArithmetic cl ml ovl" and "resources \<noteq> []"
    and "arithmetic_candidates lb ''status.podIP'' None cl ml ovl resources = Inr cs"
  shows "selected_name lb resources = Option.bind (first_least arithmetic_key cs) (\<lambda>c. om_name (do_metadata (fst c)))"
  using assms by (cases "first_least arithmetic_key cs") (simp_all add: selected_name_def select_backend_def select_label_arithmetic_def del: first_least_None_iff)

abbreviation user_pods :: "dynamic_object list" where
  "user_pods \<equiv> [create_mock_resource ''pod-1'' ''10.0.0.1'' (with_users ''5''),
     create_mock_resource ''pod-2'' ''10.0.0.2'' (with_users ''8''), create_mock_resource ''pod-3'' ''10.0.0.3'' (with_users ''2'')]"

abbreviation arithmetic_balancer :: "(string \<times> nat) list \<Rightarrow> load_balancer" where
  "arithmetic_balancer counts \<equiv>
     \<lparr>lb_strategy_of = LabelArithmetic ''currentUsers'' ''maxUsers'' 2, lb_session_counts = counts\<rparr>"

lemma user_candidates:
  "arithmetic_candidates (arithmetic_balancer counts) ''status.podIP'' None ''currentUsers'' ''maxUsers'' 2 user_pods =
    Inr (List.map_filter (\<lambda>(r, a, cur). let av = available_capacity 10 cur (get_session_count (arithmetic_balancer counts) a) 2 in
        if sint av > 0 then Some (r, a, av, cur) else None)
      [(create_mock_resource ''pod-1'' ''10.0.0.1'' (with_users ''5''), ''10.0.0.1'', 5),
       (create_mock_resource ''pod-2'' ''10.0.0.2'' (with_users ''8''), ''10.0.0.2'', 8),
       (create_mock_resource ''pod-3'' ''10.0.0.3'' (with_users ''2''), ''10.0.0.3'', 2)])"
  by (simp add: users_candidate test_digits List.map_filter_def Let_def)

lemma roomiest_first:
  "first_least arithmetic_key [(r1, a1, av1, c1), (r3, a3, av3, c3)] =
     (if sint av3 < sint av1 \<or> sint av1 = sint av3 \<and> c1 \<le> c3 then Some (r1, a1, av1, c1) else Some (r3, a3, av3, c3))"
  by (auto simp: first_least_def arithmetic_key_def less_eq_prod_def)

lemma label_arithmetic_test: "test_label_arithmetic_selection"
proof -
  let ?lb = "arithmetic_balancer []"
  let ?lb' = "fold increment_session (replicate 4 ''10.0.0.3'') ?lb"
  have lb': "?lb' = arithmetic_balancer [(''10.0.0.3'', 4)]"
    by (simp add: increment_session_def numeral_eq_Suc)
  have "selected_name ?lb user_pods = Some ''pod-3''"
    by (subst name_of_roomiest [OF _ _ user_candidates])
       (simp_all add: List.map_filter_def available_capacity_def get_session_count_def roomiest_first Let_def)
  moreover have "selected_name ?lb' user_pods = Some ''pod-1''" unfolding lb'
    by (subst name_of_roomiest [OF _ _ user_candidates])
       (simp_all add: List.map_filter_def available_capacity_def get_session_count_def roomiest_first Let_def)
  moreover have "lb_new (LabelArithmetic ''currentUsers'' ''maxUsers'' 2) = ?lb" by (simp add: lb_new_def)
  ultimately show ?thesis by (simp only: test_label_arithmetic_selection_def Let_def simp_thms)
qed

lemma at_capacity_test: "test_label_arithmetic_at_capacity"
  by (simp add: test_label_arithmetic_at_capacity_def selected_name_def select_backend_def select_label_arithmetic_def
      users_candidate test_digits available_capacity_def get_session_count_def lb_new_def first_least_def Let_def)

section \<open>Kubernetes objects\<close>

definition test_extract_json_path :: bool where
  "test_extract_json_path =
     (let j = JObject [(''status'', JObject [(''state'', JString ''Allocated'')]),
                       (''metadata'', JObject [(''name'', JString ''test-server'')])] in
      extract_json_path j ''status.state'' = Inr (Some (JString ''Allocated''))
      \<and> extract_json_path j ''metadata.name'' = Inr (Some (JString ''test-server''))
      \<and> extract_json_path j ''nonexistent.path'' = Inr None)"

definition game_ports :: "json" where
  "game_ports = JArray
     [JObject [(''name'', JString ''game-udp''), (''containerPort'', JNumber (PosInt 7777)), (''protocol'', JString ''UDP'')],
      JObject [(''name'', JString ''game-tcp''), (''containerPort'', JNumber (PosInt 7777)), (''protocol'', JString ''TCP'')]]"

definition game_pod :: "json" where
  "game_pod = JObject
     [(''spec'', JObject [(''containers'', JArray [JObject [(''name'', JString ''game-servers''), (''ports'', game_ports)]])]),
      (''status'', JObject [(''podIP'', JString ''10.244.1.44''), (''phase'', JString ''Running'')])]"

definition test_extract_json_path_with_arrays :: bool where
  "test_extract_json_path_with_arrays \<longleftrightarrow>
     extract_json_path game_pod ''spec.containers[0].name'' = Inr (Some (JString ''game-servers''))
     \<and> extract_json_path game_pod ''spec.containers[0].ports[0].containerPort'' = Inr (Some (JNumber (PosInt 7777)))
     \<and> extract_json_path game_pod ''spec.containers[0].ports[1].protocol'' = Inr (Some (JString ''TCP''))
     \<and> extract_json_path game_pod ''status.podIP'' = Inr (Some (JString ''10.244.1.44''))
     \<and> extract_json_path game_pod ''spec.containers[5].name'' = Inr None"

definition no_meta :: object_meta where
  "no_meta = \<lparr>om_name = Some ''test-pod'', om_uid = None, om_resource_version = None, om_labels = None,
     om_annotations = None, om_deletion_timestamp = None\<rparr>"

definition test_extract_port_from_pod_spec :: bool where
  "test_extract_port_from_pod_spec =
     (let p = \<lparr>do_metadata = no_meta, do_json = Some game_pod\<rparr> in
      extract_port p None (Some ''game-udp'') = Inr 7777 \<and> extract_port p None (Some ''game-tcp'') = Inr 7777
      \<and> extract_port p (Some ''spec.containers[0].ports[0].containerPort'') None = Inr 7777
      \<and> extract_port p (Some ''spec.containers[0].ports[1].containerPort'') None = Inr 7777
      \<and> extract_port p None (Some ''non-existent'') = Inl (PortNameNotFound ''non-existent''))"

definition test_annotation_selector_matching :: bool where
  "test_annotation_selector_matching =
     (let r = \<lparr>do_metadata = no_meta\<lparr>om_annotations :=
            Some [(''currentPlayers'', ''32''), (''maxPlayers'', ''64''), (''map'', ''de_dust2'')]\<rparr>, do_json = None\<rparr>;
          plain = \<lparr>do_metadata = no_meta, do_json = None\<rparr>;
          selector1 = hm_insert ''currentPlayers'' ''32'' [];
          selector2 = hm_insert ''map'' ''de_dust2'' selector1;
          selector3 = hm_insert ''currentPlayers'' ''64'' selector2 in
      matches_annotation_selector r selector1 \<and> matches_annotation_selector r selector2
      \<and> \<not> matches_annotation_selector r selector3
      \<and> \<not> matches_annotation_selector r (hm_insert ''nonExistent'' ''value'' [])
      \<and> \<not> matches_annotation_selector plain selector3)"

lemma walk_text:
  "split_on CHR ''.'' path = map show_step ps \<Longrightarrow> list_all plain_step ps \<Longrightarrow> extract_json_path j path = Inr (json_at j ps)"
  by (simp add: extract_json_path_def walk_path_show)

lemma show_indices: "show_nat 0 = ''0''" "show_nat 1 = ''1''" "show_nat (Suc 0) = ''1''" "show_nat 5 = ''5''"
  by code_simp+

lemma test_paths [simp]:
  "extract_json_path j ''status.state'' = Inr (json_at j [Field ''status'', Field ''state''])"
  "extract_json_path j ''metadata.name'' = Inr (json_at j [Field ''metadata'', Field ''name''])"
  "extract_json_path j ''nonexistent.path'' = Inr (json_at j [Field ''nonexistent'', Field ''path''])"
  "extract_json_path j ''status.podIP'' = Inr (json_at j [Field ''status'', Field ''podIP''])"
  "extract_json_path j ''spec.containers[0].name'' = Inr (json_at j [Field ''spec'', Elem ''containers'' 0, Field ''name''])"
  "extract_json_path j ''spec.containers[5].name'' = Inr (json_at j [Field ''spec'', Elem ''containers'' 5, Field ''name''])"
  "extract_json_path j ''spec.containers[0].ports[0].containerPort''
     = Inr (json_at j [Field ''spec'', Elem ''containers'' 0, Elem ''ports'' 0, Field ''containerPort''])"
  "extract_json_path j ''spec.containers[0].ports[1].containerPort''
     = Inr (json_at j [Field ''spec'', Elem ''containers'' 0, Elem ''ports'' 1, Field ''containerPort''])"
  "extract_json_path j ''spec.containers[0].ports[1].protocol''
     = Inr (json_at j [Field ''spec'', Elem ''containers'' 0, Elem ''ports'' 1, Field ''protocol''])"
  by (rule walk_text; simp add: show_indices)+

lemma path_tests: "test_extract_json_path" "test_extract_json_path_with_arrays"
  by (simp_all add: test_extract_json_path_def test_extract_json_path_with_arrays_def game_pod_def game_ports_def)

lemma port_test: "test_extract_port_from_pod_spec"
  by (simp add: test_extract_port_from_pod_spec_def extract_port_def game_pod_def
      game_ports_def status_ports_def container_ports_def Let_def)

lemma annotation_test: "test_annotation_selector_matching"
  by (simp add: test_annotation_selector_matching_def matches_annotation_selector_def no_meta_def Let_def)

end
