(* ===== verification/Wire.thy ===== *)
theory Wire
  imports QueryServer
begin

text \<open>
  What travels on the query port: the JSON of a request and of a reply, as the \<open>serde\<close> attributes of
  \<open>src/query_server.rs\<close> and \<open>src/characters.rs\<close> declare it, and the client of \<open>examples/client_example.rs\<close>.
  A JSON object is its list of members in the order of the text, so that repeated members can be
  expressed. The lemmas say exactly which documents are which request, and that a client can tell replies apart.
\<close>

section \<open>Requests\<close>

text \<open>
  An internally tagged enum with \<open>deny_unknown_fields\<close>: one member \<open>type\<close> names the variant, the others are
  its fields, each at most once; the lists default to empty. A JSON array is taken too: the tag,
  then the fields in order.
\<close>

fun string_of_json :: "json \<Rightarrow> string option" where
  "string_of_json (JString s) = Some s"
| "string_of_json _ = None"

fun strings_of_json :: "json \<Rightarrow> string list option" where
  "strings_of_json (JArray xs) = those (map string_of_json xs)"
| "strings_of_json _ = None"

type_synonym members = "(string \<times> json) list"

definition string_field :: "members \<Rightarrow> string \<Rightarrow> string option" where
  "string_field fs k = Option.bind (map_of fs k) string_of_json"

definition list_field :: "members \<Rightarrow> string \<Rightarrow> string list option" where
  "list_field fs k = (case map_of fs k of None \<Rightarrow> Some [] | Some j \<Rightarrow> strings_of_json j)"

definition only_fields :: "string list \<Rightarrow> members \<Rightarrow> bool" where
  "only_fields ks fs \<longleftrightarrow> distinct (map fst fs) \<and> list_all (\<lambda>k. k \<in> set ks) (map fst fs)"

definition decode_members :: "string \<Rightarrow> members \<Rightarrow> query_request option" where
  "decode_members tag fs =
     (if tag = ''characterList'' then
        if only_fields [''map'', ''characterIds''] fs
        then Option.bind (string_field fs ''map'') (\<lambda>m.
          map_option (CharacterList m) (list_field fs ''characterIds''))
        else None
      else if tag = ''query'' then
        if only_fields [''map'', ''characterId'', ''friendIds''] fs
        then Option.bind (string_field fs ''map'') (\<lambda>m. Option.bind (string_field fs ''characterId'') (\<lambda>c.
          map_option (Query m c) (list_field fs ''friendIds'')))
        else None
      else None)"

definition decode_elements :: "string \<Rightarrow> json list \<Rightarrow> query_request option" where
  "decode_elements tag xs =
     (if tag = ''characterList'' then
        (case xs of
           [m] \<Rightarrow> map_option (\<lambda>m. CharacterList m []) (string_of_json m)
         | [m, ids] \<Rightarrow> Option.bind (string_of_json m) (\<lambda>m. map_option (CharacterList m) (strings_of_json ids))
         | _ \<Rightarrow> None)
      else if tag = ''query'' then
        (case xs of
           [m, c] \<Rightarrow> Option.bind (string_of_json m) (\<lambda>m. map_option (\<lambda>c. Query m c []) (string_of_json c))
         | [m, c, ids] \<Rightarrow> Option.bind (string_of_json m) (\<lambda>m. Option.bind (string_of_json c) (\<lambda>c.
             map_option (Query m c) (strings_of_json ids)))
         | _ \<Rightarrow> None)
      else None)"

fun decode_request :: "json \<Rightarrow> query_request option" where
  "decode_request (JObject fs) =
     (case filter (\<lambda>f. fst f = ''type'') fs of
        [(_, JString tag)] \<Rightarrow> decode_members tag (filter (\<lambda>f. fst f \<noteq> ''type'') fs)
      | _ \<Rightarrow> None)"
| "decode_request (JArray (JString tag # xs)) = decode_elements tag xs"
| "decode_request _ = None"

definition json_strings :: "string list \<Rightarrow> json" where
  "json_strings xs = JArray (map JString xs)"

fun encode_request :: "query_request \<Rightarrow> members" where
  "encode_request (CharacterList m ids) =
     [(''type'', JString ''characterList''), (''map'', JString m), (''characterIds'', json_strings ids)]"
| "encode_request (Query m c ids) =
     [(''type'', JString ''query''), (''map'', JString m), (''characterId'', JString c), (''friendIds'', json_strings ids)]"

text \<open>The member that may be left out when it is empty.\<close>

fun list_member :: "query_request \<Rightarrow> string" where
  "list_member (CharacterList _ _) = ''characterIds''"
| "list_member (Query _ _ _) = ''friendIds''"

section \<open>Replies\<close>

fun status_text :: "character_status \<Rightarrow> string" where
  "status_text Allocated = ''Allocated''"
| "status_text Used = ''Used''"
| "status_text Disconnected = ''Disconnected''"

definition encode_character :: "character \<Rightarrow> json" where
  "encode_character c = JObject
     ([(''characterId'', JString (ch_id c)), (''status'', JString (status_text (ch_status c)))]
      @ (case ch_disconnected_at c of None \<Rightarrow> [] | Some at \<Rightarrow> [(''disconnectedAt'', JString at)]))"

definition encode_server :: "character_server \<Rightarrow> json" where
  "encode_server s = JObject
     [(''server'', JString (cs_server s)), (''characters'', JArray (map encode_character (cs_characters s)))]"

definition json_port :: "u16 \<Rightarrow> json" where
  "json_port p = JNumber (PosInt (ucast p))"

fun encode_response :: "query_response \<Rightarrow> json" where
  "encode_response (CharacterListReply servers) = JObject [(''servers'', JArray (map encode_server servers))]"
| "encode_response (Success status server ports) = JObject
     [(''status'', JString status), (''server'', JString server),
      (''ports'', JObject (map (\<lambda>(n, p). (n, json_port p)) ports))]"
| "encode_response (ErrorReply text) = JObject [(''error'', JString text)]"

section \<open>The example client\<close>

definition example_request :: json where
  "example_request = JObject [(''type'', JString ''query''), (''map'', JString ''tutorial''),
     (''characterId'', JString ''me''), (''friendIds'', JArray [JString ''friend-1''])]"

text \<open>The client stops with the reply's error, where it has one, and sends gameplay otherwise.\<close>

definition example_client :: "json \<Rightarrow> json + u8 list \<times> socket_addr" where
  "example_client response =
     (case get_field response ''error'' of
        Some error \<Rightarrow> Inl error
      | None \<Rightarrow> Inr (map (\<lambda>c. word_of_nat (of_char c)) ''gameplay'', addr_v4 127 0 0 1 7777))"

section \<open>Facts\<close>

lemma string_of_json_Some [simp]: "string_of_json j = Some s \<longleftrightarrow> j = JString s"
  by (cases j) auto

lemma those_strings: "those (map string_of_json js) = Some xs \<longleftrightarrow> js = map JString xs"
proof (induction js arbitrary: xs)
  case (Cons j js)
  then show ?case by (cases xs; cases j) (auto split: option.splits)
qed auto

lemma strings_of_json_Some [simp]: "strings_of_json j = Some xs \<longleftrightarrow> j = json_strings xs"
  by (cases j) (auto simp: json_strings_def those_strings)

lemma json_strings_inject [simp]: "json_strings xs = json_strings ys \<longleftrightarrow> xs = ys"
  by (auto simp: json_strings_def inj_map_eq_map inj_def)

lemma string_field_Some: "string_field fs k = Some s \<longleftrightarrow> map_of fs k = Some (JString s)"
  by (cases "map_of fs k") (auto simp: string_field_def)

lemma list_field_Some: "list_field fs k = Some xs \<longleftrightarrow> map_of fs k = Some (json_strings xs) \<or> xs = [] \<and> map_of fs k = None"
  by (cases "map_of fs k") (auto simp: list_field_def)

lemma only_fields_iff: "only_fields ks fs \<longleftrightarrow> distinct (map fst fs) \<and> (\<forall>k. k \<notin> set ks \<longrightarrow> map_of fs k = None)"
  by (auto simp: only_fields_def list_all_iff map_of_eq_None_iff)

lemma decode_members_Some:
  "decode_members tag fs = Some r \<longleftrightarrow>
     (case r of
        CharacterList m ids \<Rightarrow> tag = ''characterList'' \<and> only_fields [''map'', ''characterIds''] fs
          \<and> string_field fs ''map'' = Some m \<and> list_field fs ''characterIds'' = Some ids
      | Query m c ids \<Rightarrow> tag = ''query'' \<and> only_fields [''map'', ''characterId'', ''friendIds''] fs
          \<and> string_field fs ''map'' = Some m \<and> string_field fs ''characterId'' = Some c
          \<and> list_field fs ''friendIds'' = Some ids)"
  by (cases r) (auto simp: decode_members_def bind_eq_Some_conv)

lemma decode_members_distinct: "decode_members tag fs = Some r \<Longrightarrow> distinct (map fst fs)"
  unfolding decode_members_Some only_fields_iff by (cases r) simp_all

text \<open>Splitting off the tag.\<close>

lemma map_of_untagged: "map_of (filter (\<lambda>f. fst f \<noteq> t) fs) k = (if k = t then None else map_of fs k)"
  by (induction fs) auto

lemma tag_filter:
  "filter (\<lambda>f. fst f = t) fs = [(k, v)] \<and> distinct (map fst (filter (\<lambda>f. fst f \<noteq> t) fs)) \<longleftrightarrow>
     k = t \<and> map_of fs t = Some v \<and> distinct (map fst fs)"
proof (induction fs)
  case (Cons f fs)
  show ?case
  proof (cases "fst f = t")
    case True
    have "filter (\<lambda>f. fst f = t) fs = [] \<longleftrightarrow> t \<notin> fst ` set fs" by (auto simp: filter_empty_conv)
    moreover have "t \<notin> fst ` set fs \<Longrightarrow> filter (\<lambda>f. fst f \<noteq> t) fs = fs" by (induction fs) auto
    ultimately show ?thesis using True by (cases f) auto
  next
    case False
    then show ?thesis using Cons by (cases f) auto
  qed
qed simp

lemma decode_object_iff:
  "decode_request (JObject fs) = Some r \<longleftrightarrow>
     (\<exists>tag. map_of fs ''type'' = Some (JString tag) \<and> distinct (map fst fs)
        \<and> decode_members tag (filter (\<lambda>f. fst f \<noteq> ''type'') fs) = Some r)"
proof -
  let ?rest = "filter (\<lambda>f. fst f \<noteq> ''type'') fs"
  have "decode_request (JObject fs) = Some r \<longleftrightarrow>
      (\<exists>k tag. filter (\<lambda>f. fst f = ''type'') fs = [(k, JString tag)] \<and> decode_members tag ?rest = Some r)"
    by (auto split: list.splits prod.splits json.splits)
  also have "\<dots> \<longleftrightarrow> (\<exists>k tag. (filter (\<lambda>f. fst f = ''type'') fs = [(k, JString tag)] \<and> distinct (map fst ?rest))
      \<and> decode_members tag ?rest = Some r)"
    using decode_members_distinct by blast
  also have "\<dots> \<longleftrightarrow> (\<exists>tag. map_of fs ''type'' = Some (JString tag) \<and> distinct (map fst fs)
      \<and> decode_members tag ?rest = Some r)"
    unfolding tag_filter by auto
  finally show ?thesis .
qed

lemma status_text_inject [simp]: "status_text s = status_text s' \<longleftrightarrow> s = s'"
  by (cases s; cases s') simp_all

lemma encode_character_inject [simp]: "encode_character c = encode_character c' \<longleftrightarrow> c = c'"
  by (cases c; cases c') (auto simp: encode_character_def split: option.splits)

lemma map_inject: "(\<And>x y. f x = f y \<longleftrightarrow> x = y) \<Longrightarrow> map f xs = map f ys \<longleftrightarrow> xs = ys"
  by (simp add: inj_map_eq_map inj_def)

lemma encode_server_inject [simp]: "encode_server s = encode_server s' \<longleftrightarrow> s = s'"
  by (cases s; cases s') (simp add: encode_server_def map_inject)

lemma map_members_inject:
  "(\<And>x y. f x = f y \<longleftrightarrow> x = y) \<Longrightarrow> map (\<lambda>(n, p). (n, f p)) xs = map (\<lambda>(n, p). (n, f p)) ys \<longleftrightarrow> xs = ys"
  by (rule map_inject) auto

lemma json_port_inject [simp]: "json_port p = json_port q \<longleftrightarrow> p = q"
proof -
  have "unat (ucast x :: u64) = unat x" for x :: u16
    using unat_u16_le [of x] by (simp add: unsigned_ucast_eq take_bit_nat_eq_self)
  then show ?thesis unfolding json_port_def by (metis json.inject(2) json_number.inject(1) unsigned_word_eqI)
qed

text \<open>Two lists of members agree but for one that may be missing.\<close>

lemma agree_iff:
  assumes "distinct (map fst es)"
  shows "(\<forall>k. map_of fs k = map_of es k \<or> k = l \<and> map_of fs k = None \<and> map_of es k = Some e) \<longleftrightarrow>
     list_all (\<lambda>(k, v). map_of fs k = Some v \<or> k = l \<and> v = e \<and> map_of fs k = None) es
     \<and> (\<forall>k. k \<notin> set (map fst es) \<longrightarrow> map_of fs k = None)" (is "?L \<longleftrightarrow> ?R")
proof
  assume L: ?L
  have "map_of fs k = Some v \<or> k = l \<and> v = e \<and> map_of fs k = None" if "(k, v) \<in> set es" for k v
    using spec [OF L, of k] map_of_is_SomeI [OF assms that] by auto
  moreover have "map_of fs k = None" if "k \<notin> set (map fst es)" for k
  proof -
    have "map_of es k = None" using that by (simp add: map_of_eq_None_iff)
    then show ?thesis using spec [OF L, of k] by auto
  qed
  ultimately show ?R by (auto simp: list_all_iff)
next
  assume R: ?R
  show ?L
  proof
    fix k
    show "map_of fs k = map_of es k \<or> k = l \<and> map_of fs k = None \<and> map_of es k = Some e"
    proof (cases "map_of es k")
      case None
      then have "k \<notin> set (map fst es)" by (simp add: map_of_eq_None_iff)
      then have "map_of fs k = None" using R by blast
      then show ?thesis using None by simp
    next
      case (Some v)
      then have "(k, v) \<in> set es" by (rule map_of_SomeD)
      then show ?thesis using R Some by (auto simp: list_all_iff)
    qed
  qed
qed

lemma encode_request_distinct: "distinct (map fst (encode_request r))"
  by (cases r) simp_all

text \<open>The members that decode to a request.\<close>

lemma decode_agree:
  "decode_request (JObject fs) = Some r \<longleftrightarrow> distinct (map fst fs)
     \<and> list_all (\<lambda>(k, v). map_of fs k = Some v \<or> k = list_member r \<and> v = json_strings [] \<and> map_of fs k = None) (encode_request r)
     \<and> (\<forall>k. k \<notin> set (map fst (encode_request r)) \<longrightarrow> map_of fs k = None)"
proof -
  let ?rest = "filter (\<lambda>f. fst f \<noteq> ''type'') fs"
  have keep: "distinct (map fst fs) \<Longrightarrow> distinct (map fst ?rest)" by (rule distinct_map_filter)
  have rest: "string_field ?rest k = Some s \<longleftrightarrow> map_of fs k = Some (JString s)" if "k \<noteq> ''type''" for k s
    using that by (simp add: string_field_Some map_of_untagged)
  have rests: "list_field ?rest k = Some xs \<longleftrightarrow> map_of fs k = Some (json_strings xs) \<or> xs = [] \<and> map_of fs k = None"
    if "k \<noteq> ''type''" for k xs
    using that by (simp add: list_field_Some map_of_untagged)
  have others: "only_fields ks ?rest \<longleftrightarrow> distinct (map fst ?rest) \<and> (\<forall>k. k \<notin> set (''type'' # ks) \<longrightarrow> map_of fs k = None)" for ks
    by (auto simp: only_fields_iff map_of_untagged)
  show ?thesis
    unfolding decode_object_iff decode_members_Some others using keep
    by (cases r) (auto simp: rest rests)
qed

section \<open>Properties\<close>

text \<open>
  C12. The query port takes exactly the documented requests: a JSON object is a request if and only if it is that
  request's own object, with its members in any order, none repeated, none added and none missing but an empty
  list; so any further field (a namespace, a token, a server) makes it no request at all, and every request the
  program can write reads back as itself.
\<close>

theorem accepted_requests:
  "(decode_request (JObject fs) = Some r \<longleftrightarrow>
      distinct (map fst fs)
      \<and> (\<forall>k. map_of fs k = map_of (encode_request r) k
           \<or> k = list_member r \<and> map_of fs k = None \<and> map_of (encode_request r) k = Some (json_strings [])))
   \<and> decode_request (JObject (encode_request r)) = Some r"
proof -
  note D = encode_request_distinct [of r]
  have "decode_request (JObject gs) = Some r \<longleftrightarrow> distinct (map fst gs)
      \<and> (\<forall>k. map_of gs k = map_of (encode_request r) k
           \<or> k = list_member r \<and> map_of gs k = None \<and> map_of (encode_request r) k = Some (json_strings []))" for gs
    unfolding decode_agree agree_iff [OF D] by (rule refl)
  then show ?thesis using D by simp
qed

text \<open>
  A client can tell the replies apart: different replies are different documents, the example client sees an error
  exactly when the reply is one, with its text, and otherwise sends its gameplay; and what that client asks is
  a query of the map \<open>tutorial\<close> for the character \<open>me\<close> with one friend.
\<close>

theorem replies_told_apart:
  "(encode_response a = encode_response b \<longleftrightarrow> a = b)
   \<and> (example_client (encode_response a) = Inl e \<longleftrightarrow> (\<exists>t. a = ErrorReply t \<and> e = JString t))
   \<and> decode_request example_request = Some (Query ''tutorial'' ''me'' [''friend-1''])"
proof -
  have "encode_response a = encode_response b \<longleftrightarrow> a = b"
    by (cases a; cases b) (auto simp: map_inject map_members_inject)
  moreover have "example_client (encode_response a) = Inl e \<longleftrightarrow> (\<exists>t. a = ErrorReply t \<and> e = JString t)"
    by (cases a) (auto simp: example_client_def)
  moreover have "decode_request example_request = Some (Query ''tutorial'' ''me'' [''friend-1''])"
    by (simp add: example_request_def decode_members_def only_fields_def string_field_def list_field_def json_strings_def)
  ultimately show ?thesis by blast
qed

end
