(* ===== verification/Requests.thy ===== *)
theory Requests
  imports QueryServer
begin

text \<open>
  Reading one request from a TCP stream (\<open>read_request\<close> of \<open>src/query_server.rs\<close>): the result does not
  depend on how TCP cuts the stream, is bounded in size, and is there after a bounded number of reads.
\<close>

section \<open>While a query waits\<close>

text \<open>
  \<open>wait_for_disconnect\<close> over what the stream delivers: it returns at the end of the stream or at an error,
  and drops whatever the client still sends.
\<close>

fun wait_for_disconnect :: "(string + u8 list) list \<Rightarrow> bool" where
  "wait_for_disconnect [] = False"
| "wait_for_disconnect (Inl e # reads) = True"
| "wait_for_disconnect (Inr bytes # reads) = (if bytes = [] then True else wait_for_disconnect reads)"

lemma wait_for_disconnect_iff:
  "wait_for_disconnect reads \<longleftrightarrow> (\<exists>r \<in> set reads. r = Inr [] \<or> (\<exists>e. r = Inl e))"
  by (induction reads rule: wait_for_disconnect.induct) auto

section \<open>Properties: reading a request\<close>

text \<open>
  What JSON promises of a document that is an object: every shorter start of it is a text that ends
  too early, never an error of another kind and never a value.
\<close>

definition one_document :: "(u8 list \<Rightarrow> parse_result) \<Rightarrow> u8 list \<Rightarrow> query_request \<Rightarrow> bool" where
  "one_document parse doc request \<longleftrightarrow>
     doc \<noteq> [] \<and> parse doc = Parsed request
     \<and> (\<forall>k. 0 < k \<and> k < length doc \<longrightarrow> parse (take k doc) = NeedsMore)"

lemma read_request_chunks:
  assumes doc: "one_document parse doc request" and len: "length doc \<le> 65536"
  shows "concat chunks = drop (length payload) doc \<Longrightarrow> payload = take (length payload) doc
    \<Longrightarrow> length payload < length doc \<Longrightarrow> [] \<notin> set chunks
    \<Longrightarrow> read_request parse payload (map Inr chunks @ rest) = Inr (Some request)"
proof (induction chunks arbitrary: payload)
  case Nil
  then show ?case by simp
next
  case (Cons c chunks)
  let ?p = "payload @ c"
  have doc_eq: "doc = ?p @ concat chunks"
    using Cons.prems(1,2) append_take_drop_id [of "length payload" doc] by simp
  then have p: "?p = take (length ?p) doc" "length ?p \<le> length doc" by (simp_all add: doc_eq)
  have c: "c \<noteq> []" using Cons.prems(4) by auto
  show ?case
  proof (cases "length ?p = length doc")
    case True
    then have "?p = doc" using p by simp
    then show ?thesis using c doc len True by (simp add: one_document_def)
  next
    case False
    then have "parse ?p = NeedsMore" using doc p c unfolding one_document_def
      by (metis bot_nat_0.not_eq_extremum append_is_Nil_conv length_0_conv nat_less_le)
    moreover have "read_request parse ?p (map Inr chunks @ rest) = Inr (Some request)"
    proof (rule Cons.IH [OF _ p(1)])
      show "concat chunks = drop (length ?p) doc" by (simp add: doc_eq)
      show "length ?p < length doc" using False p(2) by linarith
      show "[] \<notin> set chunks" using Cons.prems(4) by simp
    qed
    ultimately show ?thesis using c p(2) len by simp
  qed
qed

text \<open>
  C39. A request is read the same however TCP cuts it: for one JSON document of at most 65536 bytes,
  every way of splitting it into non-empty reads gives that request, whatever the stream would have
  delivered afterwards.
\<close>

theorem read_request_any_chunks:
  assumes "one_document parse doc request" and "length doc \<le> 65536"
    and "concat chunks = doc" and "[] \<notin> set chunks"
  shows "read_request parse [] (map Inr chunks @ rest) = Inr (Some request)"
  using read_request_chunks [OF assms(1,2), of chunks "[]"] assms(1,3,4) by (simp add: one_document_def)

definition brace_parser :: "u8 list \<Rightarrow> parse_result" where
  "brace_parser bytes =
     (if bytes = [123, 125] then Parsed (CharacterList ''m'' [])
      else if bytes = [123] then NeedsMore else Malformed ''x'')"

lemma read_request_any_chunks_witness:
  "read_request brace_parser [] [Inr [123], Inr [125], Inl ''reset''] = Inr (Some (CharacterList ''m'' []))"
proof -
  have "one_document brace_parser [123, 125] (CharacterList ''m'' [])"
    by (auto simp: one_document_def brace_parser_def take_Cons' less_Suc_eq numeral_2_eq_2)
  from read_request_any_chunks [OF this, of "[[123], [125]]" "[Inl ''reset'']"] show ?thesis by simp
qed

text \<open>
  A stream never yields more than the limit: a request longer than 65536 bytes is refused, a
  stream that closes inside a document is reported as incomplete, and one that closes before its
  first byte is no request at all and no error.
\<close>

theorem read_request_limits:
  assumes "\<forall>k. 0 < k \<and> k \<le> length bytes \<longrightarrow> parse (take k bytes) = NeedsMore"
    and "[] \<notin> set chunks" and "concat chunks = bytes"
  shows "read_request parse [] (map Inr chunks) =
    (if bytes = [] then Inr None else if length bytes > 65536 then Inl RequestTooLarge
     else Inl IncompleteRequest)"
proof -
  have "concat chunks = drop (length payload) bytes \<Longrightarrow> payload = take (length payload) bytes \<Longrightarrow>
      length payload \<le> length bytes \<Longrightarrow> length payload \<le> 65536 \<Longrightarrow> [] \<notin> set chunks \<Longrightarrow>
      read_request parse payload (map Inr chunks) =
        (if bytes = [] then Inr None else if length bytes > 65536 then Inl RequestTooLarge else Inl IncompleteRequest)"
    for payload
  proof (induction chunks arbitrary: payload)
    case Nil
    then have "payload = bytes" by (metis append_take_drop_id append_Nil2 concat.simps(1))
    with Nil(4) show ?case by (simp add: at_end_def)
  next
    case (Cons c chunks)
    let ?p = "payload @ c"
    have eq: "bytes = ?p @ concat chunks"
      using Cons.prems(1,2) append_take_drop_id [of "length payload" bytes] by simp
    have c: "c \<noteq> []" using Cons.prems(5) by auto
    have "parse ?p = NeedsMore" using assms(1) [rule_format, of "length ?p"] c by (simp add: eq)
    moreover have "length ?p \<le> 65536 \<Longrightarrow> read_request parse ?p (map Inr chunks) =
        (if bytes = [] then Inr None else if length bytes > 65536 then Inl RequestTooLarge else Inl IncompleteRequest)"
      by (rule Cons.IH) (use Cons.prems(5) in \<open>simp_all add: eq\<close>)
    moreover have "bytes \<noteq> []" "length ?p > 65536 \<Longrightarrow> length bytes > 65536" using c by (simp_all add: eq)
    ultimately show ?case using c by (cases "length ?p > 65536") simp_all
  qed
  from this [of "[]"] assms(2,3) show ?thesis by simp
qed

lemma read_request_limits_witness:
  "read_request brace_parser [] [Inr [123]] = Inl IncompleteRequest"
  using read_request_limits [of "[123]" brace_parser "[[123]]"]
  by (auto simp: brace_parser_def take_Cons' le_Suc_eq)

lemma read_request_decides:
  "length payload \<le> 65536 \<Longrightarrow> [] \<notin> set chunks \<Longrightarrow> length payload + length chunks > 65536 \<Longrightarrow>
     read_request parse payload (map Inr chunks @ rest) = read_request parse payload (map Inr chunks)"
proof (induction chunks arbitrary: payload)
  case (Cons c chunks)
  let ?p = "payload @ c"
  have "length c \<ge> 1" using Cons.prems(2) by (cases c) auto
  then have "length ?p \<le> 65536 \<Longrightarrow>
      read_request parse ?p (map Inr chunks @ rest) = read_request parse ?p (map Inr chunks)"
    by (intro Cons.IH) (use Cons.prems in auto)
  then show ?case by (simp add: Let_def split: parse_result.splits)
qed simp

text \<open>
  C36. Reading a request ends: after 65537 reads that bring bytes the server has decided, whatever the
  parser says and whatever the stream would deliver next, so a client cannot keep the reader busy forever by
  feeding it bytes; what it has decided is a request, or one of the errors of a malformed or too long one.
\<close>

theorem read_request_terminates:
  assumes "[] \<notin> set chunks" and "length chunks = 65537"
  shows "(\<forall>rest. read_request parse [] (map Inr chunks @ rest) = read_request parse [] (map Inr chunks))
    \<and> (\<exists>request. read_request parse [] (map Inr chunks) = Inr (Some request)
       \<or> read_request parse [] (map Inr chunks) = Inl RequestTooLarge
       \<or> (\<exists>msg. read_request parse [] (map Inr chunks) = Inl (InvalidRequest msg)))"
proof -
  have dec: "read_request parse [] (map Inr chunks @ rest) = read_request parse [] (map Inr chunks)" for rest
    using read_request_decides [of "[]" chunks parse rest] assms by simp
  have shape: "read_request parse payload (map Inr cs @ [Inl why]) = Inl (RequestReadFailed why)
     \<or> (\<exists>request. read_request parse payload (map Inr cs @ [Inl why]) = Inr (Some request))
     \<or> read_request parse payload (map Inr cs @ [Inl why]) = Inl RequestTooLarge
     \<or> (\<exists>msg. read_request parse payload (map Inr cs @ [Inl why]) = Inl (InvalidRequest msg))"
    if "[] \<notin> set cs" for cs payload why
    using that by (induction cs arbitrary: payload) (auto simp: Let_def split: parse_result.splits)
  show ?thesis
    using shape [OF assms(1), of "[]" "''a''"] shape [OF assms(1), of "[]" "''b''"] by (auto simp: dec)
qed

lemma read_request_terminates_witness:
  "read_request brace_parser [] (map Inr (replicate 65537 [123]) @ [Inl ''reset''])
     = read_request brace_parser [] (map Inr (replicate 65537 [123]))"
  using read_request_terminates [of "replicate 65537 [123]" brace_parser] by simp

end
