(* ===== verification/AccessTests.thy ===== *)
theory AccessTests
  imports Director Wire Requests
begin

text \<open>
  The tests of \<open>proxy.rs\<close>, \<open>query_server.rs\<close>, \<open>characters.rs\<close> and \<open>config.rs\<close> over the model: a fixture's API
  server is a \<open>k8s_api\<close> with the fixture's answers, its Pods are the decoded objects, and each test is an
  executable definition of the facts it asserts. Ports that the operating system chooses in a test
  are arguments, so that the facts hold for all of them.
\<close>

section \<open>From a query to the selected Pod\<close>

text \<open>
  \<open>access_fixture\<close> of \<open>proxy.rs\<close>: two ready Pods, of which the second shows the friend's character.
\<close>

definition fixture_meta :: "string \<Rightarrow> string \<Rightarrow> (string, string) hashmap \<Rightarrow> object_meta" where
  "fixture_meta n u labels = \<lparr>om_name = Some n, om_uid = Some u, om_resource_version = Some ''1'',
     om_labels = Some labels, om_annotations = None, om_deletion_timestamp = None\<rparr>"

definition fixture_object :: "u16 \<Rightarrow> object_meta \<Rightarrow> dynamic_object" where
  "fixture_object backend_port meta = \<lparr>do_metadata = meta, do_json = Some (JObject
     [(''spec'', JObject [(''containers'', JArray [JObject [(''name'', JString ''game''),
        (''ports'', JArray [JObject [(''name'', JString ''game''), (''containerPort'', JNumber (PosInt (ucast backend_port)))]])]])]),
      (''status'', JObject [(''phase'', JString ''Running''), (''podIP'', JString ''127.0.0.1'')])])\<rparr>"

definition decoded :: "dynamic_object \<Rightarrow> pod" where
  "decoded r = \<lparr>pod_metadata = do_metadata r, pod_status_of = Some
     \<lparr>ps_phase = Some ''Running'', ps_pod_ip = Some ''127.0.0.1'',
      ps_conditions = Some [\<lparr>pc_type = ''Ready'', pc_status = ''True''\<rparr>]\<rparr>\<rparr>"

definition fixture_pod :: "dynamic_object \<Rightarrow> pod option" where
  "fixture_pod r = Some (decoded r)"

definition empty_server :: "u16 \<Rightarrow> dynamic_object" where
  "empty_server backend_port = fixture_object backend_port (fixture_meta ''empty-server'' ''pod-0'' [(''map'', ''tutorial'')])"

definition selected_server :: "u16 \<Rightarrow> dynamic_object" where
  "selected_server backend_port = fixture_object backend_port (fixture_meta ''selected-server'' ''pod-1''
     [(''characters.udp-director.io/friend-1'', ''Used''), (''map'', ''tutorial'')])"

definition fixture_api :: "u16 \<Rightarrow> bool \<Rightarrow> k8s_api" where
  "fixture_api backend_port reject_patch =
     \<lparr>api_list = (\<lambda>_. Inr \<lparr>lresp_items = [empty_server backend_port, selected_server backend_port], lresp_version = None\<rparr>),
      api_services = (\<lambda>_. Inr []),
      api_patch = (\<lambda>_. if reject_patch then Inl (ApiError 409) else Inr ())\<rparr>"

definition fixture_mapping :: resource_mapping where
  "fixture_mapping = \<lparr>rm_group = [], rm_version = ''v1'', rm_resource = ''pods'', rm_service_selector_label = None,
     rm_service_target_port_name = None, rm_address_path = Some ''status.podIP'', rm_address_type = None,
     rm_port_path = None, rm_port_name = Some ''game'', rm_ports = None\<rparr>"

definition fixture_config :: "nat \<Rightarrow> u16 \<Rightarrow> config" where
  "fixture_config capacity data_port =
     \<lparr>cfg_query_port = 9000, cfg_map_label = default_map_label, cfg_max_characters_per_server = capacity,
      cfg_character_label_prefix = default_character_label_prefix, cfg_disconnect_annotation = default_disconnect_annotation,
      cfg_capacity_demand = None, cfg_data_port = Some data_port, cfg_data_ports = None,
      cfg_default_endpoint = \<lparr>de_resource_type = ''pod'', de_namespace = ''games'', de_label_selector = None,
        de_annotation_selector = None, de_status_query = None\<rparr>,
      cfg_session_timeout_seconds = 300, cfg_resource_query_mapping = [(''pod'', fixture_mapping)], cfg_load_balancing = None\<rparr>"

definition fixture_server :: "codecs \<Rightarrow> nat \<Rightarrow> u16 \<Rightarrow> query_server" where
  "fixture_server cd capacity data_port =
     \<lparr>qs_config = fixture_config capacity data_port, qs_codecs = cd, qs_decode = fixture_pod\<rparr>"

definition fixture_list :: list_request where
  "fixture_list = \<lparr>lr_namespace = ''games'', lr_group = [], lr_version = ''v1'', lr_api_version = ''v1'',
     lr_plural = ''pods'', lr_label_selector = Some ''map=tutorial''\<rparr>"

definition fixture_patch :: patch_request where
  "fixture_patch = \<lparr>pr_namespace = ''games'', pr_pod = ''selected-server'', pr_resource_version = ''1'',
     pr_label = ''characters.udp-director.io/me'', pr_value = ''Allocated''\<rparr>"

abbreviation fixture_lookup :: query_request where
  "fixture_lookup \<equiv> CharacterList ''tutorial'' [''friend-1'']"

abbreviation fixture_query :: query_request where
  "fixture_query \<equiv> Query ''tutorial'' ''me'' [''friend-1'']"

definition gameplay_bytes :: "u8 list" where
  "gameplay_bytes = [255, 255, 255, 255] @ map (\<lambda>c. word_of_nat (of_char c)) ''RESETordinary-game-bytes''"

definition reply_bytes :: "u8 list" where
  "reply_bytes = map (\<lambda>c. word_of_nat (of_char c)) ''server-reply''"

definition fixture_network :: "bool \<Rightarrow> network" where
  "fixture_network sent = \<lparr>nw_bound = True, nw_sent = sent, nw_connected = True\<rparr>"

text \<open>
  The test: a lookup that finds the friend, then the query; where it fails, the error and no session,
  otherwise the reply, the label write as the fixture checks it, a send that is given up while it is suspended (it
  leaves the sessions to be inspected), and one datagram each way.
\<close>

definition access_fixture ::
  "codecs \<Rightarrow> u16 \<Rightarrow> u16 \<Rightarrow> socket_addr \<Rightarrow> socket_addr \<Rightarrow> int \<Rightarrow> nat \<Rightarrow> nat \<Rightarrow> bool \<Rightarrow> bool" where
  "access_fixture cd data_port backend_port tcp udp now clock capacity reject_patch \<longleftrightarrow>
     (let server = fixture_server cd capacity data_port;
          api = fixture_api backend_port reject_patch;
          found = process_query server fixture_lookup tcp api now [];
          reply = process_query server fixture_query tcp api now [];
          sessions = apply_effects clock (snd reply) store_new;
          probed = snd (snd (proxy_packet_bidirectional (fixture_network False) (addr_v4 127 0 0 1 12345) [112, 114, 111, 98, 101]
            data_port sessions));
          proxy = proxy_new (qs_config server) probed None;
          forwarded = handle_udp_data_packet (qs_config server) api (fixture_network True) clock udp gameplay_bytes data_port proxy
      in fst found = Replied (CharacterListReply [\<lparr>cs_server = ''pod-1'',
           cs_characters = [\<lparr>ch_id = ''friend-1'', ch_status = Used, ch_disconnected_at = None\<rparr>]\<rparr>])
       \<and> snd found = [ListPods fixture_list]
       \<and> (if capacity = 0 \<or> reject_patch
          then fst reply = Replied (ErrorReply (if capacity = 0 then ''No server available'' else ''Unable to establish route''))
             \<and> sm_get sessions (sa_ip tcp) = None
          else fst reply = Replied (Success ''Allocated'' ''pod-1'' [(''default'', data_port)])
             \<and> filter (\<lambda>e. case e of PatchLabel _ \<Rightarrow> True | _ \<Rightarrow> False) (snd reply) = [PatchLabel fixture_patch]
             \<and> sm_count probed = 1
             \<and> (case forwarded of
                  (Inr _, [Datagram upstream target payload], proxy') \<Rightarrow>
                    target = addr_v4 127 0 0 1 backend_port \<and> payload = gameplay_bytes
                    \<and> (case receive_turn (st_sockets (px_store proxy')) upstream (Received reply_bytes) of
                         TaskForwards reply_to bytes \<Rightarrow>
                           sa_ip reply_to = sa_ip udp \<and> sa_port reply_to = sa_port udp \<and> bytes = reply_bytes
                       | _ \<Rightarrow> False)
                | _ \<Rightarrow> False)))"

text \<open>The tests that run it.\<close>

abbreviation tcp_lookup_client :: "u16 \<Rightarrow> socket_addr" where
  "tcp_lookup_client p \<equiv> addr_v4 127 0 0 1 p"

definition tcp_label_query_then_unmodified_udp_reaches_selected_pod :: "codecs \<Rightarrow> u16 \<Rightarrow> u16 \<Rightarrow> u16 \<Rightarrow> u16 \<Rightarrow> bool" where
  "tcp_label_query_then_unmodified_udp_reaches_selected_pod cd data_port backend_port p q \<longleftrightarrow>
     access_fixture cd data_port backend_port (tcp_lookup_client p) (tcp_lookup_client q) 0 0 128 False"

definition full_capacity_does_not_install_route :: "codecs \<Rightarrow> u16 \<Rightarrow> u16 \<Rightarrow> u16 \<Rightarrow> u16 \<Rightarrow> bool" where
  "full_capacity_does_not_install_route cd data_port backend_port p q \<longleftrightarrow>
     access_fixture cd data_port backend_port (tcp_lookup_client p) (tcp_lookup_client q) 0 0 0 False"

definition conflicting_assignment_does_not_install_route :: "codecs \<Rightarrow> u16 \<Rightarrow> u16 \<Rightarrow> u16 \<Rightarrow> u16 \<Rightarrow> bool" where
  "conflicting_assignment_does_not_install_route cd data_port backend_port p q \<longleftrightarrow>
     access_fixture cd data_port backend_port (tcp_lookup_client p) (tcp_lookup_client q) 0 0 128 True"

subsection \<open>Evaluation\<close>

definition fixture_env :: "codecs \<Rightarrow> nat \<Rightarrow> u16 \<Rightarrow> socket_addr \<Rightarrow> query_request \<Rightarrow> access_env" where
  "fixture_env cd capacity data_port tcp request =
     access_env_of (fixture_server cd capacity data_port) tcp request fixture_mapping"

abbreviation friend :: character where
  "friend \<equiv> \<lparr>ch_id = ''friend-1'', ch_status = Used, ch_disconnected_at = None\<rparr>"

abbreviation fixture_candidates :: "u16 \<Rightarrow> candidate list" where
  "fixture_candidates backend_port \<equiv>
     [(empty_server backend_port, decoded (empty_server backend_port), []),
      (selected_server backend_port, decoded (selected_server backend_port), [friend])]"

lemma fixture_pod_fields [simp]:
  "pod_metadata (decoded r) = do_metadata r" "pod_ready (decoded r) \<longleftrightarrow> om_deletion_timestamp (do_metadata r) = None"
  by (simp_all add: decoded_def pod_ready_def)

lemma fixture_meta_fields [simp]:
  "om_name (fixture_meta n u l) = Some n" "om_uid (fixture_meta n u l) = Some u" "om_labels (fixture_meta n u l) = Some l"
  "om_resource_version (fixture_meta n u l) = Some ''1''" "om_annotations (fixture_meta n u l) = None"
  "om_deletion_timestamp (fixture_meta n u l) = None"
  by (simp_all add: fixture_meta_def)

lemma fixture_object_meta [simp]: "do_metadata (fixture_object p m) = m"
  by (simp add: fixture_object_def)

lemma friend_id: "valid_character_id ''friend-1''" "valid_character_id ''tutorial''" "valid_character_id ''me''"
  "\<not> valid_character_id []"
  by (simp_all add: valid_character_id_def is_ascii_alphanumeric_def)

lemma fixture_characters:
  "characters_on_pod cd (fixture_config capacity data_port) (decoded (empty_server p)) [] now = []"
  "characters_on_pod cd (fixture_config capacity data_port) (decoded (selected_server p)) [] now = [friend]"
  by (simp_all add: characters_on_pod_def empty_server_def selected_server_def fixture_config_def List.map_filter_def
      character_of_label_def character_prefix_def default_character_label_prefix_def
      status_of_label_def friend_id)

lemma fixture_env_fields:
  "ae_config (fixture_env cd capacity data_port tcp request) = fixture_config capacity data_port"
  "ae_codecs (fixture_env cd capacity data_port tcp request) = cd"
  "ae_decode (fixture_env cd capacity data_port tcp request) = fixture_pod"
  "ae_client (fixture_env cd capacity data_port tcp request) = tcp"
  "ae_mapping (fixture_env cd capacity data_port tcp request) = fixture_mapping"
  "ae_map (fixture_env cd capacity data_port tcp request) = fst (access_params request)"
  "ae_ids (fixture_env cd capacity data_port tcp request) = fst (snd (access_params request))"
  "ae_character (fixture_env cd capacity data_port tcp request) = snd (snd (access_params request))"
  by (simp_all add: fixture_env_def fixture_server_def access_env_of_def split: prod.splits)

lemma fixture_candidates:
  "build_candidates (fixture_env cd capacity data_port tcp request) now [empty_server p, selected_server p]
     = Inr (fixture_candidates p)"
proof -
  have "om_deletion_timestamp (do_metadata (empty_server p)) = None" "om_deletion_timestamp (do_metadata (selected_server p)) = None"
    by (simp_all add: empty_server_def selected_server_def)
  then show ?thesis by (simp add: fixture_env_fields fixture_pod_def fixture_characters)
qed

lemma fixture_draining: "\<not> pod_draining (decoded (empty_server p))" "\<not> pod_draining (decoded (selected_server p))"
  by (simp_all add: pod_draining_def DRAIN_LABEL_def empty_server_def selected_server_def)

lemma fixture_choice:
  "choose_candidate (fixture_env cd 128 data_port tcp fixture_query) ''me'' (fixture_candidates p)
     = Some (selected_server p, decoded (selected_server p), [friend])"
  "choose_candidate (fixture_env cd 0 data_port tcp fixture_query) ''me'' (fixture_candidates p) = None"
  by (simp_all add: choose_candidate_def eligible_candidates_def has_room_def has_character_def fixture_draining
      fixture_env_fields fixture_config_def first_least_def candidate_key_def less_eq_prod_def)

lemma fixture_snapshot:
  "read_snapshot (fixture_env cd capacity data_port tcp request) (fixture_api p reject)
     = Inr ([empty_server p, selected_server p], [])"
  by (simp add: fixture_env_fields fixture_config_def read_snapshot_def query_resources_snapshot_def
      fixture_api_def access_status_def)

lemma fixture_pods_request:
  "access_params request = (''tutorial'', ids, c) \<Longrightarrow>
     pods_request (fixture_env cd capacity data_port tcp request) = fixture_list"
  by (simp add: pods_request_def list_request_of_def label_selector_text_def access_labels_def fixture_list_def
      fixture_env_fields fixture_config_def fixture_mapping_def default_map_label_def)

lemma backend_port_read: "port_of_number (PosInt (ucast (p :: u16))) = Inr p"
proof -
  have "unat (ucast p :: u64) = unat p" using unat_u16_le [of p] by (simp add: unsigned_ucast_eq take_bit_nat_eq_self)
  moreover from this have "(ucast (ucast p :: u64) :: u16) = p"
    using unat_ucast_u16 [of "ucast p"] unat_u16_le [of p] by (simp add: unsigned_word_eqI)
  ultimately show ?thesis using unat_u16_le [of p] by simp
qed

lemma fixture_address:
  "extract_direct_target (selected_server p) fixture_mapping ''status.podIP'' = Inr (''127.0.0.1'', p)"
  using backend_port_read [of p]
  by (simp add: extract_direct_target_def fixture_mapping_def selected_server_def fixture_object_def extract_address_def
      extract_json_path_def path_part_def extract_port_def status_ports_def container_ports_def del: port_of_number.simps)

lemma fixture_backend:
  "backend_ports api (fixture_config capacity data_port) fixture_mapping (selected_server p) n = Inr (''127.0.0.1'', [(''default'', p)])"
  using fixture_address [of p]
  by (simp add: backend_ports_def map_err_def extract_target_info_def)
     (simp add: fixture_mapping_def fixture_config_def get_data_ports_def)

lemma fixture_write:
  "write_label (fixture_api p reject) (fixture_env cd capacity data_port tcp fixture_query) ''me''
     (selected_server p, decoded (selected_server p), [friend])
   = (if reject then Inl (KubeFailed (ApiError 409)) else Inr (), [PatchLabel fixture_patch])"
  using fixture_draining(2) [of p]
  by (simp add: write_label_def shows_used_def allocate_request_def send_patch_def allocation_key_def fixture_patch_def
      fixture_api_def fixture_env_fields fixture_config_def default_character_label_prefix_def lift_def)
     (simp add: selected_server_def send_patch_def lift_def)

lemma fixture_finish:
  "finish_access (fixture_api p reject) (fixture_env cd capacity data_port tcp fixture_query) ''me''
     (selected_server p, decoded (selected_server p), [friend])
   = (if reject then (Inl (KubeFailed (ApiError 409)), [PatchLabel fixture_patch])
      else (Inr (Answered (Success ''Allocated'' ''pod-1'' [(''default'', data_port)])),
        [PatchLabel fixture_patch, InstallRoute tcp ''127.0.0.1'' [((data_port, Udp), p)]]))"
proof -
  have ports: "get_data_ports (fixture_config capacity data_port) = [\<lparr>dp_port = data_port, dp_protocol = Udp, dp_name = ''default''\<rparr>]"
    by (simp add: get_data_ports_def fixture_config_def)
  have meta: "om_name (do_metadata (selected_server p)) = Some ''selected-server''"
    "om_uid (do_metadata (selected_server p)) = Some ''pod-1''" by (simp_all add: selected_server_def)
  show ?thesis
    by (simp add: finish_access_def fixture_env_fields fixture_backend fixture_write ports meta lift_def)
qed

lemma fixture_round:
  "access_round (fixture_env cd 128 data_port tcp fixture_query) (fixture_api p reject) now [empty_server p, selected_server p]
   = (if reject then (Inl (KubeFailed (ApiError 409)), [PatchLabel fixture_patch])
      else (Inr (Some (Answered (Success ''Allocated'' ''pod-1'' [(''default'', data_port)]))),
        [PatchLabel fixture_patch, InstallRoute tcp ''127.0.0.1'' [((data_port, Udp), p)]]))"
  "access_round (fixture_env cd 0 data_port tcp fixture_query) (fixture_api p reject) now [empty_server p, selected_server p]
   = (Inr None, [])"
  "access_round (fixture_env cd capacity data_port tcp fixture_lookup) (fixture_api p reject) now [empty_server p, selected_server p]
   = (Inr (Some (Answered (CharacterListReply [\<lparr>cs_server = ''pod-1'', cs_characters = [friend]\<rparr>]))), [])"
proof -
  have uid: "om_uid (do_metadata (selected_server p)) = Some ''pod-1''" by (simp add: selected_server_def)
  show "access_round (fixture_env cd 128 data_port tcp fixture_query) (fixture_api p reject) now [empty_server p, selected_server p]
   = (if reject then (Inl (KubeFailed (ApiError 409)), [PatchLabel fixture_patch])
      else (Inr (Some (Answered (Success ''Allocated'' ''pod-1'' [(''default'', data_port)]))),
        [PatchLabel fixture_patch, InstallRoute tcp ''127.0.0.1'' [((data_port, Udp), p)]]))"
    "access_round (fixture_env cd 0 data_port tcp fixture_query) (fixture_api p reject) now [empty_server p, selected_server p]
   = (Inr None, [])"
    "access_round (fixture_env cd capacity data_port tcp fixture_lookup) (fixture_api p reject) now [empty_server p, selected_server p]
   = (Inr (Some (Answered (CharacterListReply [\<lparr>cs_server = ''pod-1'', cs_characters = [friend]\<rparr>]))), [])"
    by (simp_all add: access_round_def fixture_candidates fixture_choice fixture_finish fixture_env_fields uid lift_def
        del: build_candidates.simps)
qed

lemma fixture_valid:
  "valid_access (access_params fixture_query)" "valid_access (access_params fixture_lookup)"
  by (simp_all add: valid_access_def friend_id)

lemma fixture_process:
  "process_query (fixture_server cd capacity data_port) request tcp (fixture_api p reject) now []
   = (case drop_guard (do_then (take_lock (fixture_env cd capacity data_port tcp request)) (\<lambda>_.
        do_then (emit (ListPods (pods_request (fixture_env cd capacity data_port tcp request)))) (\<lambda>_.
          access_loop (fixture_env cd capacity data_port tcp request) False (fixture_api p reject) now
            ([empty_server p, selected_server p], []) []))) of (result, es) \<Rightarrow>
        (case result of
           Inr (Answered response) \<Rightarrow> Replied response
         | Inr Waiting \<Rightarrow> StillWaiting
         | Inl (DemandFailed Cancelled) \<Rightarrow> NoReply
         | Inl Panic \<Rightarrow> NoReply
         | Inl (DemandFailed e) \<Rightarrow> Replied (ErrorReply (show_demand_error e))
         | Inl _ \<Rightarrow> Replied (ErrorReply ''Unable to establish route''), es))"
  if "valid_access (access_params request)"
proof -
  have m: "hm_get (cfg_resource_query_mapping (fixture_config capacity data_port))
      (de_resource_type (cfg_default_endpoint (fixture_config capacity data_port))) = Some fixture_mapping"
    "rm_group fixture_mapping = []" "rm_resource fixture_mapping = ''pods''"
    by (simp_all add: fixture_config_def fixture_mapping_def)
  have env: "access_env_of (fixture_server cd capacity data_port) tcp request fixture_mapping = fixture_env cd capacity data_port tcp request"
    by (simp add: fixture_env_def)
  have qs: "qs_config (fixture_server cd capacity data_port) = fixture_config capacity data_port"
    by (simp add: fixture_server_def)
  show ?thesis using that
    by (simp add: process_query_def process_access_def qs m env fixture_snapshot Let_def)
qed

lemma fixture_replies:
  "process_query (fixture_server cd capacity data_port) fixture_lookup tcp (fixture_api p reject) now []
   = (Replied (CharacterListReply [\<lparr>cs_server = ''pod-1'', cs_characters = [friend]\<rparr>]), [ListPods fixture_list])"
  "process_query (fixture_server cd 128 data_port) fixture_query tcp (fixture_api p False) now []
   = (Replied (Success ''Allocated'' ''pod-1'' [(''default'', data_port)]),
      [LockAssignments, ListPods fixture_list, PatchLabel fixture_patch,
       InstallRoute tcp ''127.0.0.1'' [((data_port, Udp), p)], UnlockAssignments])"
  "process_query (fixture_server cd 128 data_port) fixture_query tcp (fixture_api p True) now []
   = (Replied (ErrorReply ''Unable to establish route''),
      [LockAssignments, ListPods fixture_list, PatchLabel fixture_patch, UnlockAssignments])"
  "process_query (fixture_server cd 0 data_port) fixture_query tcp (fixture_api p reject) now []
   = (Replied (ErrorReply ''No server available''), [LockAssignments, ListPods fixture_list, UnlockAssignments])"
proof -
  have demand: "cfg_capacity_demand (fixture_config 0 data_port) = None" by (simp add: fixture_config_def)
  note eval = fixture_process [OF fixture_valid(1)] fixture_process [OF fixture_valid(2)] access_loop.simps fixture_round fixture_pods_request [OF access_params.simps(1)]
    fixture_pods_request [OF access_params.simps(2)] take_lock_def fixture_env_fields lift_def drop_guard_def holds_lock_def
  show "process_query (fixture_server cd capacity data_port) fixture_lookup tcp (fixture_api p reject) now []
   = (Replied (CharacterListReply [\<lparr>cs_server = ''pod-1'', cs_characters = [friend]\<rparr>]), [ListPods fixture_list])"
    by (simp add: eval)
  show "process_query (fixture_server cd 128 data_port) fixture_query tcp (fixture_api p False) now []
   = (Replied (Success ''Allocated'' ''pod-1'' [(''default'', data_port)]),
      [LockAssignments, ListPods fixture_list, PatchLabel fixture_patch,
       InstallRoute tcp ''127.0.0.1'' [((data_port, Udp), p)], UnlockAssignments])"
    by (simp add: eval)
  show "process_query (fixture_server cd 128 data_port) fixture_query tcp (fixture_api p True) now []
   = (Replied (ErrorReply ''Unable to establish route''),
      [LockAssignments, ListPods fixture_list, PatchLabel fixture_patch, UnlockAssignments])"
    by (simp add: eval)
  show "process_query (fixture_server cd 0 data_port) fixture_query tcp (fixture_api p reject) now []
   = (Replied (ErrorReply ''No server available''), [LockAssignments, ListPods fixture_list, UnlockAssignments])"
    by (simp add: eval start_waiting_def demand)
qed

text \<open>The datagrams each way, from the route of the reply; the probe does not disturb them.\<close>

lemma probe_store:
  "snd (snd (proxy_packet_bidirectional (fixture_network False) client bytes port st))
     = snd (snd (proxy_packet_bidirectional (fixture_network True) client bytes port st))"
  by (simp add: proxy_packet_bidirectional_def fixture_network_def split: option.splits sum.splits prod.splits)

lemma local_ip: "show_ipv4 127 0 0 1 = ''127.0.0.1''"
  by code_simp

lemma fixture_probe:
  assumes iso: "isolated st" and ip: "sa_ip client = ip"
    and route: "route_of st client = Some (''127.0.0.1'', [((data_port, Udp), p)])"
    and st': "st' = snd (snd (proxy_packet_bidirectional (fixture_network False) client bytes data_port st))"
  shows "isolated st'" "route_of st' addr = route_of st addr" "sm_count st' = sm_count st"
proof -
  obtain s where s: "sm_get st (sa_ip client) = Some s" "s_target_ip s = ''127.0.0.1''" "s_port_mappings s = [((data_port, Udp), p)]"
    using route by (auto simp: route_session [OF iso])
  have target: "get_target_addr s data_port Udp = Inr (addr_v4 127 0 0 1 p)"
    using parse_show_socket_addr [of 127 0 0 1 p] s(2,3) by (simp add: get_target_addr_def local_ip [symmetric] Let_def)
  have net: "nw_bound (fixture_network True)" "nw_sent (fixture_network True)" by (simp_all add: fixture_network_def)
  obtain sid st1 where run: "proxy_packet_bidirectional (fixture_network True) client bytes data_port st
      = (Inr (), [Datagram sid (addr_v4 127 0 0 1 p) bytes], st1)"
    and keeps: "isolated st1" "\<And>x. route_of st1 x = route_of st x"
    using proxy_packet_route [OF iso s(1) target net] by blast
  have "st' = st1" by (simp add: st' probe_store run)
  then show "isolated st'" "route_of st' addr = route_of st addr" "sm_count st' = sm_count st"
    using keeps proxy_packet_keeps(2) [OF iso run] by simp_all
qed

lemma px_store_new: "px_store (proxy_new cfg st cache) = st"
  by (simp add: proxy_new_def)

lemma local_round_trip:
  assumes iso: "isolated st" and route: "route_of st udp = Some (''127.0.0.1'', [((data_port, Udp), p)])"
  shows "\<exists>sid px'. handle_udp_data_packet cfg' api (fixture_network True) clock udp bytes data_port (proxy_new cfg st None)
        = (Inr (), [Datagram sid (addr_v4 127 0 0 1 p) bytes], px')
      \<and> (\<exists>reply_to. receive_turn (st_sockets (px_store px')) sid (Received reply) = TaskForwards reply_to reply
          \<and> sa_ip reply_to = sa_ip udp \<and> sa_port reply_to = sa_port udp)"
proof -
  let ?px = "proxy_new cfg st None"
  have "route_of (px_store ?px) udp = Some (''127.0.0.1'', [((data_port, Udp), p)])"
    using route by (simp add: px_store_new)
  moreover have "upstream_addr ''127.0.0.1'' p = Some (addr_v4 127 0 0 1 p)"
    using upstream_ipv4 [of 127 0 0 1 p] by (simp only: local_ip)
  moreover have "isolated (px_store ?px)" by (simp only: px_store_new iso)
  moreover have "hm_get [((data_port, Udp), p)] (data_port, Udp) = Some p" by simp
  moreover have "nw_bound (fixture_network True)" "nw_sent (fixture_network True)" by (simp_all add: fixture_network_def)
  ultimately show ?thesis
    using udp_packet_routed [where reply = reply and bytes = bytes and cfg = cfg' and api = api and now = clock] by blast
qed

lemma local_route:
  "sa_ip a = IPv4 127 0 0 1 \<Longrightarrow> sa_ip tcp = IPv4 127 0 0 1 \<Longrightarrow>
     route_of (upsert_multi_port clock tcp ''127.0.0.1'' routes store_new) a = Some (''127.0.0.1'', routes)"
  "isolated (upsert_multi_port clock tcp ip routes store_new)"
proof -
  have new: "isolated store_new" using store_inv_new store_invD(1) by blast
  have iso: "isolated (upsert_multi_port clock tcp ip routes store_new)" for ip by (rule isolated_upsert [OF new])
  show "isolated (upsert_multi_port clock tcp ip routes store_new)" by (rule iso)
  show "route_of (upsert_multi_port clock tcp ''127.0.0.1'' routes store_new) a = Some (''127.0.0.1'', routes)"
    if "sa_ip a = IPv4 127 0 0 1" "sa_ip tcp = IPv4 127 0 0 1"
    using upsert_route [OF new, of clock tcp "''127.0.0.1''" routes] that by (simp add: route_of_def get_by_addr_inv [OF iso])
qed

lemma fixture_forwarding:
  assumes st: "st = apply_effects clock [LockAssignments, ListPods fixture_list, PatchLabel fixture_patch,
      InstallRoute tcp ''127.0.0.1'' [((data_port, Udp), p)], UnlockAssignments] store_new"
    and probed: "probed = snd (snd (proxy_packet_bidirectional (fixture_network False) (addr_v4 127 0 0 1 12345) probe data_port st))"
    and ip: "sa_ip tcp = IPv4 127 0 0 1" "sa_ip udp = IPv4 127 0 0 1"
  shows "sm_count probed = 1
    \<and> (\<exists>sid px'. handle_udp_data_packet cfg' api (fixture_network True) clock udp bytes data_port (proxy_new cfg probed None)
        = (Inr (), [Datagram sid (addr_v4 127 0 0 1 p) bytes], px')
      \<and> (\<exists>reply_to. receive_turn (st_sockets (px_store px')) sid (Received reply) = TaskForwards reply_to reply
          \<and> sa_ip reply_to = sa_ip udp \<and> sa_port reply_to = sa_port udp))"
proof -
  let ?probe = "addr_v4 127 0 0 1 12345"
  have st_eq: "st = upsert_multi_port clock tcp ''127.0.0.1'' [((data_port, Udp), p)] store_new"
    by (simp add: st apply_effects_def apply_effect_def)
  have probe_ip: "sa_ip ?probe = IPv4 127 0 0 1" by (simp add: addr_v4_def)
  note iso = local_route(2) [where clock = clock and tcp = tcp and ip = "''127.0.0.1''" and routes = "[((data_port, Udp), p)]",
    folded st_eq]
  note route = local_route(1) [OF _ ip(1), where clock = clock and routes = "[((data_port, Udp), p)]", folded st_eq]
  note keeps = fixture_probe [OF iso refl route [OF probe_ip] probed]
  have "sm_count st = 1"
    by (simp add: st_eq upsert_count) (simp add: store_new_def sm_get_def sm_count_def)
  then show ?thesis
    using keeps(3) local_round_trip [OF keeps(1), of udp data_port p] keeps(2) [of udp] route [OF ip(2)] by simp
qed

text \<open>The three tests pass, for every choice of ports, of parsers and of the clock.\<close>

lemma access_fixture_holds:
  assumes "capacity = 0 \<or> capacity = 128" and ip: "sa_ip tcp = IPv4 127 0 0 1" "sa_ip udp = IPv4 127 0 0 1"
  shows "access_fixture cd data_port backend_port tcp udp now clock capacity reject_patch"
proof -
  let ?api = "fixture_api backend_port reject_patch" and ?server = "fixture_server cd capacity data_port"
  let ?reply = "process_query ?server fixture_query tcp ?api now []"
  show ?thesis
  proof (cases "capacity = 0 \<or> reject_patch")
    case True
    then have reply: "fst ?reply = Replied (ErrorReply (if capacity = 0 then ''No server available'' else ''Unable to establish route''))"
      "sm_get (apply_effects clock (snd ?reply) store_new) (sa_ip tcp) = None"
      using assms(1) by (auto simp: fixture_replies apply_effects_def apply_effect_def sm_get_def store_new_def)
    then show ?thesis using True by (simp add: access_fixture_def fixture_replies(1) Let_def)
  next
    case False
    then have c: "capacity = 128" "\<not> reject_patch" using assms(1) by auto
    have reply: "?reply = (Replied (Success ''Allocated'' ''pod-1'' [(''default'', data_port)]),
      [LockAssignments, ListPods fixture_list, PatchLabel fixture_patch,
       InstallRoute tcp ''127.0.0.1'' [((data_port, Udp), backend_port)], UnlockAssignments])"
      using c fixture_replies(2) by simp
    let ?probed = "snd (snd (proxy_packet_bidirectional (fixture_network False) (addr_v4 127 0 0 1 12345) [112, 114, 111, 98, 101]
            data_port (apply_effects clock (snd ?reply) store_new)))"
    obtain sid px' reply_to where
      forwarded: "handle_udp_data_packet (qs_config ?server) ?api (fixture_network True) clock udp
          gameplay_bytes data_port (proxy_new (qs_config ?server) ?probed None)
        = (Inr (), [Datagram sid (addr_v4 127 0 0 1 backend_port) gameplay_bytes], px')"
      and ret: "receive_turn (st_sockets (px_store px')) sid (Received reply_bytes) = TaskForwards reply_to reply_bytes"
        "sa_ip reply_to = sa_ip udp" "sa_port reply_to = sa_port udp"
      and count: "sm_count ?probed = 1"
      using fixture_forwarding [OF refl refl ip, where clock = clock and data_port = data_port and p = backend_port
          and probe = "[112, 114, 111, 98, 101]" and cfg' = "qs_config ?server" and api = ?api and bytes = gameplay_bytes
          and cfg = "qs_config ?server" and reply = reply_bytes]
      unfolding reply snd_conv by blast
    show ?thesis unfolding access_fixture_def Let_def forwarded
      using ret count by (simp add: fixture_replies c)
  qed
qed

lemma access_tests:
  "tcp_label_query_then_unmodified_udp_reaches_selected_pod cd data_port backend_port p q"
  "full_capacity_does_not_install_route cd data_port backend_port p q"
  "conflicting_assignment_does_not_install_route cd data_port backend_port p q"
  unfolding tcp_label_query_then_unmodified_udp_reaches_selected_pod_def full_capacity_does_not_install_route_def
    conflicting_assignment_does_not_install_route_def
  by (rule access_fixture_holds; simp add: addr_v4_def)+

section \<open>Characters\<close>

definition character_ids_fit_kubernetes_label_names :: bool where
  "character_ids_fit_kubernetes_label_names \<longleftrightarrow>
     valid_character_id ''character-123'' \<and> valid_character_id ''7a23bc10-1234-4321-9988-123456789abc''
     \<and> list_all (\<lambda>cid. \<not> valid_character_id cid) [[], ''character:Used'', ''a/b'', ''a,b'', ''-id'']"

text \<open>
  \<open>config.example.yaml\<close> as the records it parses to, and the two parsers on the texts of the test; instants are
  counted from its \<open>now\<close>.
\<close>

definition example_config :: config where
  "example_config =
     \<lparr>cfg_query_port = 9000, cfg_map_label = ''map'', cfg_max_characters_per_server = 128,
      cfg_character_label_prefix = ''characters.udp-director.io'', cfg_disconnect_annotation = ''udp-director.io/disconnected-at'',
      cfg_capacity_demand = None, cfg_data_port = Some 7777, cfg_data_ports = None,
      cfg_default_endpoint = \<lparr>de_resource_type = ''pod'', de_namespace = ''game-servers'',
        de_label_selector = Some [(''app'', ''game-server'')], de_annotation_selector = None, de_status_query = None\<rparr>,
      cfg_session_timeout_seconds = 300, cfg_resource_query_mapping = [(''pod'', fixture_mapping)], cfg_load_balancing = None\<rparr>"

definition disconnected_text :: string where
  "disconnected_text = ''{\"c\":\"2026-09-07T11:58:01Z\",\"d\":\"2026-09-07T11:58:00Z\"}''"

definition test_codecs :: codecs where
  "test_codecs =
     \<lparr>parse_rfc3339 = map_of [(''2026-09-07T11:58:01Z'', seconds (- 119)), (''2026-09-07T11:58:00Z'', seconds (- 120))],
      parse_string_map = map_of [(disconnected_text, [(''c'', ''2026-09-07T11:58:01Z''), (''d'', ''2026-09-07T11:58:00Z'')])]\<rparr>"

definition labelled_pod :: pod where
  "labelled_pod = \<lparr>pod_metadata = \<lparr>om_name = None, om_uid = None, om_resource_version = None,
     om_labels = Some [(''characters.udp-director.io/a'', ''Allocated''), (''characters.udp-director.io/b'', ''Used''),
       (''characters.udp-director.io/c'', ''Disconnected''), (''characters.udp-director.io/d'', ''Disconnected''),
       (''characters.udp-director.io/e'', ''Disconnected'')],
     om_annotations = Some [(''udp-director.io/disconnected-at'', disconnected_text)], om_deletion_timestamp = None\<rparr>,
     pod_status_of = None\<rparr>"

definition labels_support_all_states_and_expire_disconnected_at_120_seconds :: bool where
  "labels_support_all_states_and_expire_disconnected_at_120_seconds \<longleftrightarrow>
     (let result = characters_on_pod test_codecs example_config labelled_pod [] 0 in
      map ch_id result = [''a'', ''b'', ''c'']
      \<and> map ch_status result = [Allocated, Used, Disconnected]
      \<and> ch_disconnected_at (result ! 2) \<noteq> None
      \<and> length (characters_on_pod test_codecs example_config labelled_pod [''b'', ''c''] 0) = 2
      \<and> characters_on_pod test_codecs example_config labelled_pod [''absent''] 0 = []
      \<and> length (characters_on_pod test_codecs example_config labelled_pod [] (seconds 1)) = 2)"

lemma character_id_test: "character_ids_fit_kubernetes_label_names"
  by (simp add: character_ids_fit_kubernetes_label_names_def valid_character_id_def is_ascii_alphanumeric_def)

lemma letter_ids: "valid_character_id ''a''" "valid_character_id ''b''" "valid_character_id ''c''" "valid_character_id ''d''"
  "valid_character_id ''e''"
  by (simp_all add: valid_character_id_def is_ascii_alphanumeric_def)

lemma test_disconnect_times:
  "disconnect_times test_codecs example_config labelled_pod = [(''c'', ''2026-09-07T11:58:01Z''), (''d'', ''2026-09-07T11:58:00Z'')]"
  by (simp add: disconnect_times_def labelled_pod_def example_config_def test_codecs_def)

lemma labels_test: "labels_support_all_states_and_expire_disconnected_at_120_seconds"
  unfolding labels_support_all_states_and_expire_disconnected_at_120_seconds_def characters_on_pod_def test_disconnect_times
  by (simp add: labelled_pod_def List.map_filter_def character_of_label_def character_prefix_def example_config_def
      status_of_label_def letter_ids test_codecs_def RECONNECT_SECONDS_def)

section \<open>Configuration\<close>

definition test_uri :: "string \<Rightarrow> uri option" where
  "test_uri endpoint = (if endpoint = ''http://controller:8080/v1alpha1/demand''
     then Some \<lparr>uri_scheme = Some ''http'', uri_authority = Some ''controller:8080''\<rparr> else None)"

definition demand_with :: "(string, string) hashmap option \<Rightarrow> capacity_demand_config" where
  "demand_with aliases = \<lparr>cd_endpoint = ''http://controller:8080/v1alpha1/demand'',
     cd_backend_groups = (case aliases of None \<Rightarrow> [] | Some a \<Rightarrow> a), cd_boot_timeout_seconds = default_boot_timeout\<rparr>"

definition capacity_demand_accepts_omitted_empty_and_explicit_aliases :: bool where
  "capacity_demand_accepts_omitted_empty_and_explicit_aliases \<longleftrightarrow>
     list_all (\<lambda>aliases.
       let expected = Option.bind aliases (\<lambda>a. hm_get a ''tutorial'');
           config = example_config\<lparr>cfg_capacity_demand := Some (demand_with aliases)\<rparr> in
       validate test_uri config = Inr ()
       \<and> (case cfg_capacity_demand config of
            None \<Rightarrow> False
          | Some demand \<Rightarrow> cd_boot_timeout_seconds demand = 300 \<and> hm_get (cd_backend_groups demand) ''tutorial'' = expected))
       [None, Some [], Some [(''tutorial'', ''example-backend'')]]"

definition game_config :: "string \<Rightarrow> status_query_config option \<Rightarrow> config" where
  "game_config namespace status =
     \<lparr>cfg_query_port = 9000, cfg_map_label = ''map'', cfg_max_characters_per_server = 128,
      cfg_character_label_prefix = default_character_label_prefix, cfg_disconnect_annotation = default_disconnect_annotation,
      cfg_capacity_demand = None, cfg_data_port = Some 7777, cfg_data_ports = None,
      cfg_default_endpoint = \<lparr>de_resource_type = ''gameserver'', de_namespace = namespace,
        de_label_selector = Some [(''agones.dev/fleet'', ''tutorial'')], de_annotation_selector = None, de_status_query = status\<rparr>,
      cfg_session_timeout_seconds = 300, cfg_resource_query_mapping = [], cfg_load_balancing = None\<rparr>"

definition test_default_endpoint_config :: bool where
  "test_default_endpoint_config \<longleftrightarrow>
     (let endpoint = get_default_endpoint (game_config ''default''
        (Some \<lparr>sq_json_path = ''status.state'', sq_expected_values = [''Ready'']\<rparr>)) in
      de_resource_type endpoint = ''gameserver'' \<and> de_namespace endpoint = ''default'')"

definition test_default_endpoint_without_status_query :: bool where
  "test_default_endpoint_without_status_query \<longleftrightarrow>
     (let endpoint = get_default_endpoint (game_config ''game-servers'' None) in
      de_resource_type endpoint = ''gameserver'' \<and> de_namespace endpoint = ''game-servers'' \<and> de_status_query endpoint = None)"

lemma backend_alias: "valid_character_id ''example-backend''"
  by (simp add: valid_character_id_def is_ascii_alphanumeric_def)

lemma demand_validates:
  assumes "aliases \<in> {None, Some [], Some [(''tutorial'', ''example-backend'')]}"
  shows "validate test_uri (example_config\<lparr>cfg_capacity_demand := Some (demand_with aliases)\<rparr>) = Inr ()"
proof -
  have "validate_groups (cd_backend_groups (demand_with aliases)) = Inr ()"
    using assms friend_id backend_alias by (auto simp: demand_with_def)
  moreover have "cd_endpoint (demand_with aliases) = ''http://controller:8080/v1alpha1/demand''"
    "cd_boot_timeout_seconds (demand_with aliases) = 300"
    by (simp_all add: demand_with_def default_boot_timeout_def)
  ultimately show ?thesis
    by (simp add: validate_def validate_demand_def test_uri_def example_config_def fixture_mapping_def get_data_ports_def)
qed

lemma demand_fields:
  "cd_backend_groups (demand_with aliases) = (case aliases of None \<Rightarrow> [] | Some a \<Rightarrow> a)"
  "cd_boot_timeout_seconds (demand_with aliases) = 300"
  by (simp_all add: demand_with_def default_boot_timeout_def)

lemma config_tests:
  "capacity_demand_accepts_omitted_empty_and_explicit_aliases" "test_default_endpoint_config" "test_default_endpoint_without_status_query"
  unfolding capacity_demand_accepts_omitted_empty_and_explicit_aliases_def test_default_endpoint_config_def
    test_default_endpoint_without_status_query_def
  by (simp_all add: demand_validates demand_fields game_config_def get_default_endpoint_def)

section \<open>Requests\<close>

definition rejects_infrastructure_fields :: bool where
  "rejects_infrastructure_fields \<longleftrightarrow>
     decode_request (JObject [(''type'', JString ''query''), (''map'', JString ''tutorial''), (''characterId'', JString ''me''),
       (''namespace'', JString ''private'')]) = None
     \<and> decode_request (JObject [(''type'', JString ''query''), (''map'', JString ''tutorial''), (''characterId'', JString ''me''),
       (''friendIds'', JArray [JString ''friend''])]) \<noteq> None"

definition rejects_removed_ticket_requests :: bool where
  "rejects_removed_ticket_requests \<longleftrightarrow>
     list_all (\<lambda>kind. decode_request (JObject [(''type'', JString kind), (''token'', JString ''obsolete'')]) = None)
       [''allocation'', ''sessionReset'']"

function chunks :: "nat \<Rightarrow> 'a list \<Rightarrow> 'a list list" where
  "chunks n xs = (if n = 0 \<or> xs = [] then [] else take n xs # chunks n (drop n xs))"
  by pat_completeness auto
termination by (relation "measure (\<lambda>(n, xs). length xs)") auto

declare chunks.simps [simp del]

definition pad50 :: "string \<Rightarrow> string" where
  "pad50 digits = replicate (50 - length digits) CHR ''0'' @ digits"

definition fragmented_request :: query_request where
  "fragmented_request = CharacterList ''tutorial'' (map (\<lambda>i. ''character-'' @ pad50 (show_nat i)) [0..<128])"

definition reads_fragmented_character_list_larger_than_one_tcp_read :: "(u8 list \<Rightarrow> parse_result) \<Rightarrow> u8 list \<Rightarrow> bool" where
  "reads_fragmented_character_list_larger_than_one_tcp_read parse payload \<longleftrightarrow>
     (case read_request parse [] (map Inr (chunks 17 payload)) of
        Inr (Some (CharacterList _ character_ids)) \<Rightarrow> length character_ids = 128
      | _ \<Rightarrow> False)"

definition truncated_text :: "u8 list" where
  "truncated_text = map (\<lambda>c. word_of_nat (of_char c)) ''{\"type\":\"query\"''"

definition truncated_request_is_not_processed :: "(u8 list \<Rightarrow> parse_result) \<Rightarrow> bool" where
  "truncated_request_is_not_processed parse \<longleftrightarrow>
     (case read_request parse [] [Inr truncated_text] of Inl _ \<Rightarrow> True | Inr _ \<Rightarrow> False)"

lemma wire_tests: "rejects_infrastructure_fields" "rejects_removed_ticket_requests"
  by (simp_all add: rejects_infrastructure_fields_def rejects_removed_ticket_requests_def decode_members_def only_fields_def
      string_field_def list_field_def)

lemma concat_chunks: "n > 0 \<Longrightarrow> concat (chunks n xs) = xs"
  by (induction n xs rule: chunks.induct) (subst chunks.simps, auto)

lemma chunks_nonempty: "[] \<notin> set (chunks n xs)"
  by (induction n xs rule: chunks.induct) (subst chunks.simps, auto)

lemma fragmented_test:
  assumes "one_document parse payload fragmented_request" and "length payload \<le> 65536"
  shows "reads_fragmented_character_list_larger_than_one_tcp_read parse payload"
proof -
  have "payload \<noteq> []" using assms(1) by (simp add: one_document_def)
  then have "read_request parse [] (map Inr (chunks 17 payload) @ []) = Inr (Some fragmented_request)"
    by (intro read_request_chunks [OF assms]) (simp_all add: concat_chunks chunks_nonempty)
  then show ?thesis
    by (simp add: reads_fragmented_character_list_larger_than_one_tcp_read_def fragmented_request_def)
qed

lemma truncated_test:
  assumes "\<And>r. parse truncated_text \<noteq> Parsed r"
  shows "truncated_request_is_not_processed parse"
proof -
  have "truncated_text \<noteq> []" "length truncated_text \<le> 65536" by (simp_all add: truncated_text_def)
  then show ?thesis
  proof (cases "parse truncated_text")
    case (Parsed r)
    then show ?thesis using assms by blast
  qed (simp_all add: truncated_request_is_not_processed_def at_end_def)
qed

end
