(* ===== verification/CapacityTests.thy ===== *)
theory CapacityTests
  imports AccessTests
begin

text \<open>
  The tests of \<open>capacity_tests.rs\<close> over the model. The fixture is a small HTTP server that plays the capacity
  controller and the API server with one Pod; here it is a state with one function per request. A query
  is run event by event (\<open>after\<close>), and its effects act on the fixture, on the director's
  startup signals and on its sessions (\<open>replay\<close>). What a test only waits for, to order its steps, is the order of the
  steps here; its counter of watches is not kept.
\<close>

section \<open>The fixture\<close>

definition server_pod :: "u16 \<Rightarrow> bool \<Rightarrow> bool \<Rightarrow> dynamic_object" where
  "server_pod backend_port ready draining = \<lparr>do_metadata =
     \<lparr>om_name = Some ''example-server'', om_uid = Some ''opaque-example'', om_resource_version = Some ''1'',
      om_labels = Some [(''app'', ''game-server''), (''map'', ''tutorial''), (''udp-director.io/draining'', show_bool draining)],
      om_annotations = None, om_deletion_timestamp = None\<rparr>,
     do_json = Some (JObject
       [(''spec'', JObject [(''containers'', JArray [JObject [(''name'', JString ''server''),
          (''ports'', JArray [JObject [(''name'', JString ''game''), (''containerPort'', JNumber (PosInt (ucast backend_port)))]])]])]),
        (''status'', JObject [(''phase'', JString ''Running''), (''podIP'', JString ''127.0.0.1''),
          (''conditions'', JArray [JObject [(''type'', JString ''Ready''), (''status'', JString (if ready then ''True'' else ''False''))]])])])\<rparr>"

abbreviation example_pod :: "bool \<Rightarrow> bool \<Rightarrow> dynamic_object" where
  "example_pod \<equiv> server_pod 7777"

text \<open>The Pod while it is scheduled: no address yet.\<close>

definition pending_pod :: dynamic_object where
  "pending_pod = (example_pod False True)\<lparr>do_json := Some (JObject
     [(''status'', JObject [(''phase'', JString ''Pending''),
        (''conditions'', JArray [JObject [(''type'', JString ''Ready''), (''status'', JString ''False'')]])])])\<rparr>"

text \<open>Reading such an object as a Pod.\<close>

definition text_at :: "json \<Rightarrow> string \<Rightarrow> string option" where
  "text_at j k = Option.bind (get_field j k) string_of_json"

definition read_pod :: "dynamic_object \<Rightarrow> pod" where
  "read_pod r = \<lparr>pod_metadata = do_metadata r, pod_status_of =
     map_option (\<lambda>s. \<lparr>ps_phase = text_at s ''phase'', ps_pod_ip = text_at s ''podIP'',
       ps_conditions = (case get_field s ''conditions'' of
          Some (JArray cs) \<Rightarrow> those (map (\<lambda>c. case (text_at c ''type'', text_at c ''status'') of
            (Some t, Some v) \<Rightarrow> Some \<lparr>pc_type = t, pc_status = v\<rparr> | _ \<Rightarrow> None) cs)
        | _ \<Rightarrow> None)\<rparr>)
     (Option.bind (do_json r) (\<lambda>j. get_field j ''status''))\<rparr>"

definition example_decode :: "dynamic_object \<Rightarrow> pod option" where
  "example_decode r = Some (read_pod r)"

record fixture =
  fx_pod :: "dynamic_object option"
  fx_version :: nat
  fx_demands :: nat
  fx_groups :: "string list"
  fx_patches :: nat
  fx_status :: nat
  fx_conflict :: bool
  fx_ready_on_demand :: bool
  fx_config :: config
  fx_flights :: capacity_demand
  fx_sessions :: session_store

definition capacity_config_with :: "(string, string) hashmap \<Rightarrow> u64 \<Rightarrow> config" where
  "capacity_config_with groups timeout = example_config\<lparr>cfg_capacity_demand := Some
     \<lparr>cd_endpoint = ''http://127.0.0.1/v1alpha1/demand'', cd_backend_groups = groups, cd_boot_timeout_seconds = timeout\<rparr>\<rparr>"

definition configured :: "dynamic_object option \<Rightarrow> config \<Rightarrow> fixture" where
  "configured pod cfg = \<lparr>fx_pod = pod, fx_version = 1, fx_demands = 0, fx_groups = [], fx_patches = 0, fx_status = 202,
     fx_conflict = False, fx_ready_on_demand = False, fx_config = cfg, fx_flights = demand_new, fx_sessions = store_new\<rparr>"

abbreviation example_capacity :: "u64 \<Rightarrow> config" where
  "example_capacity \<equiv> capacity_config_with [(''tutorial'', ''example-backend'')]"

definition fixture_new :: "dynamic_object option \<Rightarrow> u64 \<Rightarrow> fixture" where
  "fixture_new pod timeout = configured pod (example_capacity timeout)"

definition set_pod :: "dynamic_object \<Rightarrow> fixture \<Rightarrow> fixture" where
  "set_pod r fx = fx\<lparr>fx_version := Suc (fx_version fx),
     fx_pod := Some (r\<lparr>do_metadata := (do_metadata r)\<lparr>om_resource_version := Some (show_nat (Suc (fx_version fx)))\<rparr>\<rparr>)\<rparr>"

text \<open>The four branches of \<open>handle\<close>: the demand, the label write, the watch and the list.\<close>

definition on_demand :: "string \<Rightarrow> fixture \<Rightarrow> fixture" where
  "on_demand grp fx =
     (let fx' = fx\<lparr>fx_demands := Suc (fx_demands fx), fx_groups := fx_groups fx @ [grp]\<rparr> in
      if fx_ready_on_demand fx then set_pod (example_pod True False) fx' else fx')"

definition on_patch :: "patch_request \<Rightarrow> fixture \<Rightarrow> (kube_error + unit) \<times> fixture" where
  "on_patch pr fx =
     (let fx' = fx\<lparr>fx_patches := Suc (fx_patches fx)\<rparr> in
      case fx_pod fx of
        None \<Rightarrow> (Inl TransportError, fx')
      | Some r \<Rightarrow>
          if fx_conflict fx \<or> om_resource_version (do_metadata r) \<noteq> Some (pr_resource_version pr)
          then (Inl (ApiError 409), fx')
          else (Inr (), set_pod (r\<lparr>do_metadata := (do_metadata r)\<lparr>om_labels :=
            map_option (hm_insert (pr_label pr) (pr_value pr)) (om_labels (do_metadata r))\<rparr>\<rparr>) fx'))"

definition on_watch :: "string \<Rightarrow> fixture \<Rightarrow> watch_event list" where
  "on_watch version fx =
     (case fx_pod fx of
        None \<Rightarrow> []
      | Some r \<Rightarrow> if om_resource_version (do_metadata r) \<noteq> Some version then [OtherEvent] else [])"

definition on_list :: "fixture \<Rightarrow> list_response" where
  "on_list fx = \<lparr>lresp_items = (case fx_pod fx of None \<Rightarrow> [] | Some r \<Rightarrow> [r]), lresp_version = Some (show_nat (fx_version fx))\<rparr>"

definition api_of :: "fixture \<Rightarrow> k8s_api" where
  "api_of fx = \<lparr>api_list = (\<lambda>_. Inr (on_list fx)), api_services = (\<lambda>_. Inr []), api_patch = (\<lambda>pr. fst (on_patch pr fx))\<rparr>"

section \<open>Running queries\<close>

text \<open>
  The watch answers a query that last read the fixture as it was before. \<open>after\<close>: the reply and the effects since the
  last event.
\<close>

definition woken_by :: "fixture \<Rightarrow> fixture \<Rightarrow> cold_event" where
  "woken_by last_read fx = PodsChanged (Inr (map Inr (on_watch (show_nat (fx_version last_read)) fx))) 0 (api_of fx)"

definition after :: "fixture \<Rightarrow> query_request \<Rightarrow> socket_addr \<Rightarrow> cold_event list \<Rightarrow> query_result \<times> query_effect list" where
  "after fx request client events =
     (let run = process_query \<lparr>qs_config = fx_config fx, qs_codecs = test_codecs, qs_decode = example_decode\<rparr> request client (api_of fx) 0;
          (reply, es) = run events
      in (reply, if events = [] then es else drop (length (snd (run (butlast events)))) es))"

text \<open>A signal takes part in the director's flight of the group, and posts where that is the first to do so.\<close>

definition take_part :: "string \<Rightarrow> fixture \<Rightarrow> fixture" where
  "take_part grp fx =
     (case cfg_capacity_demand (fx_config fx) of
        None \<Rightarrow> fx
      | Some demand \<Rightarrow>
          (case signal 0 demand grp (fx_flights fx) of
             (Inl _, d) \<Rightarrow> fx\<lparr>fx_flights := d\<rparr>
           | (Inr f, d) \<Rightarrow>
               let d' = snd (await_accepted True True (Some (fx_status fx)) f d);
                   fx' = fx\<lparr>fx_flights := d'\<rparr>
               in if cap_posts d' = cap_posts d then fx' else on_demand grp fx'))"

definition replay :: "query_effect list \<Rightarrow> fixture \<Rightarrow> fixture" where
  "replay es fx = fold (\<lambda>e fx. case e of
       SignalDemand grp \<Rightarrow> take_part grp fx
     | PatchLabel pr \<Rightarrow> snd (on_patch pr fx)
     | _ \<Rightarrow> fx\<lparr>fx_sessions := apply_effect 0 e (fx_sessions fx)\<rparr>) es fx"

text \<open>The query that holds the first flight ends.\<close>

definition leaves :: "fixture \<Rightarrow> fixture" where
  "leaves fx = fx\<lparr>fx_flights := release 0 (fx_flights fx)\<rparr>"

abbreviation access :: "string \<Rightarrow> string \<Rightarrow> query_request" where
  "access m c \<equiv> Query m c []"

definition has_status :: "query_result \<Rightarrow> string \<Rightarrow> bool" where
  "has_status r s \<longleftrightarrow> (case r of Replied (Success s' _ _) \<Rightarrow> s' = s | _ \<Rightarrow> False)"

definition has_error :: "query_result \<Rightarrow> string \<Rightarrow> bool" where
  "has_error r e \<longleftrightarrow> r = Replied (ErrorReply e)"

definition character_key :: "string \<Rightarrow> string" where
  "character_key c = ''characters.udp-director.io/'' @ c"

definition character_label :: "fixture \<Rightarrow> string \<Rightarrow> string option" where
  "character_label fx c = Option.bind (fx_pod fx) (\<lambda>r. Option.bind (om_labels (do_metadata r))
     (\<lambda>labels. hm_get labels (character_key c)))"

section \<open>The tests\<close>

definition hot_access_assigns_without_signaling :: "socket_addr \<Rightarrow> bool" where
  "hot_access_assigns_without_signaling client \<longleftrightarrow>
     (let fx = fixture_new (Some (example_pod True False)) 5;
          (reply, es) = after fx (access ''tutorial'' ''joining'') client [];
          fx = replay es fx
      in has_status reply ''Allocated'' \<and> fx_demands fx = 0 \<and> fx_patches fx = 1
         \<and> character_label fx ''joining'' = Some ''Allocated'' \<and> sm_count (fx_sessions fx) = 1)"

definition concurrent_cold_queries_signal_once_wait_for_ready_and_assign :: "socket_addr \<Rightarrow> socket_addr \<Rightarrow> bool" where
  "concurrent_cold_queries_signal_once_wait_for_ready_and_assign c1 c2 \<longleftrightarrow>
     (let cold = fixture_new None 5;
          first = after cold (access ''tutorial'' ''first'') c1;
          second = after cold (access ''tutorial'' ''second'') c2;
          waiting = replay (snd (second [])) (replay (snd (first [])) cold);
          starting = set_pod (example_pod False False) waiting;
          looked = replay (snd (second [woken_by cold starting])) (replay (snd (first [woken_by cold starting])) starting);
          ready = set_pod (example_pod True False) looked;
          (reply1, es1) = first [woken_by cold starting, woken_by starting ready];
          taken = replay es1 ready;
          (reply2, es2) = second [woken_by cold starting, woken_by starting taken];
          fx = replay es2 taken
      in fx_demands waiting = 1 \<and> fx_groups waiting = [''example-backend''] \<and> fx_patches looked = 0
         \<and> list_all (\<lambda>r. has_status r ''Allocated'') [reply1, reply2]
         \<and> fx_demands fx = 1
         \<and> character_label fx ''first'' = Some ''Allocated'' \<and> character_label fx ''second'' = Some ''Allocated'')"

definition player_arriving_during_startup_shares_pending_server :: "socket_addr \<Rightarrow> socket_addr \<Rightarrow> bool" where
  "player_arriving_during_startup_shares_pending_server c1 c2 \<longleftrightarrow>
     (let cold = fixture_new None 5;
          first = after cold (access ''tutorial'' ''first'') c1;
          waiting = replay (snd (first [])) cold;
          pending = set_pod pending_pod waiting;
          looked = replay (snd (first [woken_by cold pending])) pending;
          second = after looked (access ''tutorial'' ''second'') c2;
          shared = replay (snd (second [])) looked;
          gated = set_pod (example_pod True True) shared;
          both = replay (snd (second [woken_by looked gated])) (replay (snd (first [woken_by cold pending, woken_by pending gated])) gated);
          ready = set_pod (example_pod True False) both;
          (reply1, es1) = first [woken_by cold pending, woken_by pending gated, woken_by gated ready];
          taken = replay es1 ready;
          (reply2, es2) = second [woken_by looked gated, woken_by gated taken];
          fx = replay es2 taken
      in fx_demands both = 1 \<and> fx_patches both = 0 \<and> sm_count (fx_sessions both) = 0
         \<and> list_all (\<lambda>r. has_status r ''Allocated'') [reply1, reply2]
         \<and> fx_demands fx = 1 \<and> fx_patches fx = 2
         \<and> character_label fx ''first'' = Some ''Allocated'' \<and> character_label fx ''second'' = Some ''Allocated'')"

definition queued_startup_assignments_respect_new_server_capacity :: "socket_addr \<Rightarrow> socket_addr \<Rightarrow> bool" where
  "queued_startup_assignments_respect_new_server_capacity c1 c2 \<longleftrightarrow>
     (let cold = configured None ((example_capacity 1)\<lparr>cfg_max_characters_per_server := 1\<rparr>);
          first = after cold (access ''tutorial'' ''first'') c1;
          second = after cold (access ''tutorial'' ''second'') c2;
          waiting = replay (snd (second [])) (replay (snd (first [])) cold);
          ready = set_pod (example_pod True False) waiting;
          (reply1, es1) = first [woken_by cold ready];
          taken = replay es1 ready;
          (reply2, es2) = second [woken_by cold taken, DeadlinePassed];
          fx = replay es2 taken
      in has_status reply1 ''Allocated'' \<and> has_error reply2 ''Server startup timed out''
         \<and> fx_demands fx = 1 \<and> fx_patches fx = 1
         \<and> character_label fx ''first'' = Some ''Allocated'' \<and> character_label fx ''second'' = None)"

definition startup_timeout_leaves_no_assignment_or_route :: "socket_addr \<Rightarrow> bool" where
  "startup_timeout_leaves_no_assignment_or_route client \<longleftrightarrow>
     (let cold = fixture_new None 1;
          query = after cold (access ''tutorial'' ''joining'') client;
          fx = replay (snd (query [DeadlinePassed])) (replay (snd (query [])) cold)
      in has_error (fst (query [DeadlinePassed])) ''Server startup timed out''
         \<and> fx_patches fx = 0 \<and> sm_count (fx_sessions fx) = 0)"

definition disconnected_cold_query_is_cancelled_and_later_demand_can_signal :: "socket_addr \<Rightarrow> socket_addr \<Rightarrow> bool" where
  "disconnected_cold_query_is_cancelled_and_later_demand_can_signal c1 c2 \<longleftrightarrow>
     (let cold = fixture_new None 5;
          leaving = after cold (access ''tutorial'' ''leaving'') c1;
          gone = leaves (replay (snd (leaving [ClientLeft])) (replay (snd (leaving [])) cold));
          query = after gone (access ''tutorial'' ''next'') c2;
          waiting = replay (snd (query [])) gone;
          ready = set_pod (example_pod True False) waiting;
          (reply, es) = query [woken_by gone ready];
          fx = replay es ready
      in fst (leaving [ClientLeft]) = NoReply \<and> fx_demands waiting = 2
         \<and> has_status reply ''Allocated'' \<and> fx_patches fx = 1)"

definition native_ready_pod_waits_for_controller_to_clear_process_readiness_gate :: "socket_addr \<Rightarrow> bool" where
  "native_ready_pod_waits_for_controller_to_clear_process_readiness_gate client \<longleftrightarrow>
     (let gated = fixture_new (Some (example_pod True True)) 5;
          query = after gated (access ''tutorial'' ''joining'') client;
          waiting = replay (snd (query [])) gated;
          ready = set_pod (example_pod True False) waiting
      in fst (query []) = StillWaiting \<and> fx_patches waiting = 0
         \<and> has_status (fst (query [woken_by gated ready])) ''Allocated'')"

definition concurrent_drain_patch_conflict_never_installs_route :: "socket_addr \<Rightarrow> bool" where
  "concurrent_drain_patch_conflict_never_installs_route client \<longleftrightarrow>
     (let fx = (fixture_new (Some (example_pod True False)) 5)\<lparr>fx_conflict := True\<rparr>;
          (reply, es) = after fx (access ''tutorial'' ''joining'') client []
      in has_error reply ''Unable to establish route'' \<and> sm_count (fx_sessions (replay es fx)) = 0)"

text \<open>A status other than \<open>202\<close> refuses the query.\<close>

definition refused :: "fixture \<Rightarrow> cold_event list" where
  "refused fx = (case post_demand True (Some (fx_status fx)) of Inl e \<Rightarrow> [DemandRefused e] | Inr _ \<Rightarrow> [])"

definition controller_rejects_unpublished_passthrough_group :: "socket_addr \<Rightarrow> bool" where
  "controller_rejects_unpublished_passthrough_group client \<longleftrightarrow>
     (let cold = (fixture_new None 5)\<lparr>fx_status := 404\<rparr>;
          query = after cold (access ''unpublished'' ''joining'') client;
          fx = replay (snd (query (refused cold))) (replay (snd (query [])) cold)
      in has_error (fst (query (refused cold))) ''Unknown backend group''
         \<and> fx_groups fx = [''unpublished''] \<and> fx_demands fx = 1 \<and> fx_patches fx = 0 \<and> sm_count (fx_sessions fx) = 0)"

definition character_lookup_does_not_signal :: "socket_addr \<Rightarrow> bool" where
  "character_lookup_does_not_signal client \<longleftrightarrow>
     (let fx = fixture_new None 5;
          (reply, es) = after fx (CharacterList ''tutorial'' []) client []
      in reply = Replied (CharacterListReply []) \<and> fx_demands (replay es fx) = 0)"

definition cold_map_passes_through_with_empty_aliases_and_waits_for_ready :: "socket_addr \<Rightarrow> bool" where
  "cold_map_passes_through_with_empty_aliases_and_waits_for_ready client \<longleftrightarrow>
     (let cold = configured None (capacity_config_with [] 5);
          query = after cold (access ''tutorial'' ''joining'') client;
          waiting = replay (snd (query [])) cold;
          ready = set_pod (example_pod True False) waiting;
          (reply, es) = query [woken_by cold ready];
          fx = replay es ready
      in fx_groups waiting = [''tutorial''] \<and> fx_patches waiting = 0 \<and> has_status reply ''Allocated''
         \<and> fx_demands fx = 1 \<and> fx_patches fx = 1)"

definition controller_rejections_return_specific_errors_without_assignment :: "socket_addr \<Rightarrow> bool" where
  "controller_rejections_return_specific_errors_without_assignment client \<longleftrightarrow>
     list_all (\<lambda>(status, error).
       let cold = (fixture_new None 5)\<lparr>fx_status := status\<rparr>;
           query = after cold (access ''tutorial'' ''joining'') client;
           fx = replay (snd (query (refused cold))) (replay (snd (query [])) cold)
       in has_error (fst (query (refused cold))) error \<and> fx_demands fx = 1 \<and> fx_patches fx = 0)
     [(404, ''Unknown backend group''), (503, ''Backend group is under maintenance''), (200, ''Capacity demand unavailable'')]"

definition cancelling_one_cold_waiter_preserves_other_waiter_and_single_signal :: "socket_addr \<Rightarrow> socket_addr \<Rightarrow> bool" where
  "cancelling_one_cold_waiter_preserves_other_waiter_and_single_signal c1 c2 \<longleftrightarrow>
     (let cold = fixture_new None 5;
          leaving = after cold (access ''tutorial'' ''leaving'') c1;
          remaining = after cold (access ''tutorial'' ''remaining'') c2;
          waiting = replay (snd (remaining [])) (replay (snd (leaving [])) cold);
          gone = leaves (replay (snd (leaving [ClientLeft])) waiting);
          ready = set_pod (example_pod True False) gone;
          (reply, es) = remaining [woken_by cold ready];
          fx = replay es ready
      in has_status reply ''Allocated'' \<and> fx_demands fx = 1 \<and> fx_patches fx = 1 \<and> character_label fx ''leaving'' = None)"

definition gameplay_text :: "u8 list" where
  "gameplay_text = map (\<lambda>c. word_of_nat (of_char c)) ''ordinary-gameplay''"

definition cold_start_tcp_assignment_then_plain_udp_round_trip :: "u16 \<Rightarrow> u16 \<Rightarrow> socket_addr \<Rightarrow> socket_addr \<Rightarrow> bool" where
  "cold_start_tcp_assignment_then_plain_udp_round_trip data_port backend_port tcp udp \<longleftrightarrow>
     (let cold = configured None ((example_capacity 5)\<lparr>cfg_data_port := Some data_port\<rparr>);
          query = after cold (access ''tutorial'' ''joining'') tcp;
          ready = set_pod (server_pod backend_port True False) (replay (snd (query [])) cold);
          (reply, es) = query [woken_by cold ready];
          fx = replay es ready
      in (case reply of
            Replied (Success status _ ports) \<Rightarrow> status = ''Allocated'' \<and> hm_get ports ''default'' = Some data_port
          | _ \<Rightarrow> False)
         \<and> (case handle_udp_data_packet (fx_config fx) (api_of fx) (fixture_network True) 0 udp gameplay_text data_port
                (proxy_new (fx_config fx) (fx_sessions fx) None) of
              (Inr _, [Datagram upstream target payload], proxy) \<Rightarrow>
                target = addr_v4 127 0 0 1 backend_port \<and> payload = gameplay_text
                \<and> (case receive_turn (st_sockets (px_store proxy)) upstream (Received reply_bytes) of
                     TaskForwards reply_to bytes \<Rightarrow>
                       sa_ip reply_to = sa_ip udp \<and> sa_port reply_to = sa_port udp \<and> bytes = reply_bytes
                   | _ \<Rightarrow> False)
            | _ \<Rightarrow> False))"

definition readiness_change_during_callback_is_not_missed :: "socket_addr \<Rightarrow> bool" where
  "readiness_change_during_callback_is_not_missed client \<longleftrightarrow>
     (let cold = (fixture_new None 5)\<lparr>fx_ready_on_demand := True\<rparr>;
          query = after cold (access ''tutorial'' ''joining'') client;
          ready = replay (snd (query [])) cold;
          (reply, es) = query [woken_by cold ready]
      in has_status reply ''Allocated'' \<and> fx_demands (replay es ready) = 1)"

text \<open>A callback that never answers: the request ends at the flight's deadline.\<close>

definition startup_deadline_also_bounds_a_stalled_callback :: "socket_addr \<Rightarrow> bool" where
  "startup_deadline_also_bounds_a_stalled_callback client \<longleftrightarrow>
     (let cold = fixture_new None 1;
          query = after cold (access ''tutorial'' ''joining'') client;
          (reply, es) = query [DemandRefused Timeout]
      in has_error reply ''Server startup timed out''
         \<and> sm_count (fx_sessions (replay es (replay (snd (query [])) cold))) = 0)"


section \<open>Evaluation\<close>

abbreviation cap_server :: "config \<Rightarrow> query_server" where
  "cap_server cfg \<equiv> \<lparr>qs_config = cfg, qs_codecs = test_codecs, qs_decode = example_decode\<rparr>"

definition cap_env :: "config \<Rightarrow> socket_addr \<Rightarrow> query_request \<Rightarrow> access_env" where
  "cap_env cfg client request = access_env_of (cap_server cfg) client request fixture_mapping"

lemma cap_env_fields [simp]:
  "ae_config (cap_env cfg client request) = cfg" "ae_codecs (cap_env cfg client request) = test_codecs"
  "ae_decode (cap_env cfg client request) = example_decode" "ae_client (cap_env cfg client request) = client"
  "ae_mapping (cap_env cfg client request) = fixture_mapping"
  "ae_map (cap_env cfg client request) = fst (access_params request)"
  "ae_ids (cap_env cfg client request) = fst (snd (access_params request))"
  "ae_character (cap_env cfg client request) = snd (snd (access_params request))"
  by (simp_all add: cap_env_def access_env_of_def split: prod.splits)

text \<open>The configurations of the tests differ in the demand, the capacity and the data port.\<close>

definition cap_cfg :: "capacity_demand_config \<Rightarrow> nat \<Rightarrow> u16 \<Rightarrow> config" where
  "cap_cfg demand n port = example_config\<lparr>cfg_capacity_demand := Some demand, cfg_max_characters_per_server := n,
     cfg_data_port := Some port\<rparr>"

lemma cap_cfg_fields [simp]:
  "cfg_capacity_demand (cap_cfg demand n port) = Some demand" "cfg_max_characters_per_server (cap_cfg demand n port) = n"
  "cfg_data_port (cap_cfg demand n port) = Some port"
  by (simp_all add: cap_cfg_def)

lemma cap_cfg_of:
  "capacity_config_with groups timeout = cap_cfg \<lparr>cd_endpoint = ''http://127.0.0.1/v1alpha1/demand'', cd_backend_groups = groups,
     cd_boot_timeout_seconds = timeout\<rparr> 128 7777"
  "(cap_cfg demand n port)\<lparr>cfg_max_characters_per_server := k\<rparr> = cap_cfg demand k port"
  "(cap_cfg demand n port)\<lparr>cfg_data_port := Some q\<rparr> = cap_cfg demand n q"
  by (simp_all add: cap_cfg_def capacity_config_with_def example_config_def)

text \<open>How an outcome becomes a reply.\<close>

definition replied :: "access_outcome access \<Rightarrow> query_result \<times> query_effect list" where
  "replied m = (case m of (result, es) \<Rightarrow>
     (case result of
        Inr (Answered response) \<Rightarrow> Replied response
      | Inr Waiting \<Rightarrow> StillWaiting
      | Inl (DemandFailed Cancelled) \<Rightarrow> NoReply
      | Inl Panic \<Rightarrow> NoReply
      | Inl (DemandFailed e) \<Rightarrow> Replied (ErrorReply (show_demand_error e))
      | Inl _ \<Rightarrow> Replied (ErrorReply ''Unable to establish route''), es))"

definition snapshot_of :: "fixture \<Rightarrow> dynamic_object list \<times> string" where
  "snapshot_of fx = (case fx_pod fx of None \<Rightarrow> [] | Some r \<Rightarrow> [r], show_nat (fx_version fx))"

lemma cap_snapshot: "read_snapshot (cap_env (cap_cfg demand n port) client request) (api_of fx) = Inr (snapshot_of fx)"
  by (simp add: read_snapshot_def query_resources_snapshot_def api_of_def on_list_def snapshot_of_def cap_cfg_def example_config_def
      access_status_def)

lemma cap_process:
  assumes "valid_access (access_params request)" and cfg: "cfg = cap_cfg demand n port"
  shows "process_query (cap_server cfg) request client (api_of fx) 0 events =
    (let env = cap_env cfg client request in
     replied (drop_guard (do_then (take_lock env) (\<lambda>_. do_then (emit (ListPods (pods_request env))) (\<lambda>_.
       access_loop env False (api_of fx) 0 (snapshot_of fx) events)))))"
proof -
  have m: "hm_get (cfg_resource_query_mapping (cap_cfg demand n port)) (de_resource_type (cfg_default_endpoint (cap_cfg demand n port)))
      = Some fixture_mapping" "rm_group fixture_mapping = []" "rm_resource fixture_mapping = ''pods''"
    by (simp_all add: cap_cfg_def example_config_def fixture_mapping_def)
  show ?thesis using assms(1)
    by (simp add: process_query_def process_access_def m cfg cap_snapshot [unfolded cap_env_def] Let_def replied_def cap_env_def)
qed

text \<open>Pods without room for a query: none, not ready, or draining.\<close>

definition idle_pod :: "config \<Rightarrow> string \<Rightarrow> dynamic_object \<Rightarrow> bool" where
  "idle_pod cfg c r \<longleftrightarrow> \<not> pod_ready (read_pod r) \<or> pod_draining (read_pod r)
     \<or> \<not> has_room cfg c (r, read_pod r, characters_on_pod test_codecs cfg (read_pod r) [] 0)"

lemma idle_round:
  assumes "case fx_pod fx of None \<Rightarrow> True | Some r \<Rightarrow> idle_pod cfg c r" and "snd (snd (access_params request)) = Some c"
  shows "access_round (cap_env cfg client request) api 0 (fst (snapshot_of fx)) = (Inr None, [])"
  using assms
  by (auto simp: access_round_def snapshot_of_def idle_pod_def choose_candidate_def eligible_candidates_def first_least_def
      example_decode_def lift_def split: option.splits)

lemma read_pod_version [simp]:
  "pod_ready (read_pod (r\<lparr>do_metadata := (do_metadata r)\<lparr>om_resource_version := v\<rparr>\<rparr>)) = pod_ready (read_pod r)"
  "pod_draining (read_pod (r\<lparr>do_metadata := (do_metadata r)\<lparr>om_resource_version := v\<rparr>\<rparr>)) = pod_draining (read_pod r)"
  by (simp_all add: read_pod_def pod_ready_def pod_draining_def)

lemma example_pods:
  "pod_ready (read_pod (server_pod b r d)) = r" "pod_draining (read_pod (server_pod b r d)) = d"
  "\<not> pod_ready (read_pod pending_pod)"
  by (cases r; cases d; simp add: read_pod_def server_pod_def pending_pod_def pod_ready_def pod_draining_def
      DRAIN_LABEL_def text_at_def)+

text \<open>The ready Pod with labels \<open>labels\<close> at version \<open>v\<close>.\<close>

definition ready_pod :: "u16 \<Rightarrow> string \<Rightarrow> (string, string) hashmap \<Rightarrow> dynamic_object" where
  "ready_pod b v labels = (server_pod b True False)\<lparr>do_metadata :=
     (do_metadata (server_pod b True False))\<lparr>om_resource_version := Some v, om_labels := Some labels\<rparr>\<rparr>"

definition labels_with :: "string list \<Rightarrow> (string, string) hashmap" where
  "labels_with cs = fold (\<lambda>c. hm_insert (character_key c) ''Allocated'') cs
     [(''app'', ''game-server''), (''map'', ''tutorial''), (''udp-director.io/draining'', ''false'')]"

lemma labels_with_get:
  "hm_get (labels_with cs) (character_key c) = (if c \<in> set cs then Some ''Allocated'' else None)"
  "hm_get (labels_with cs) DRAIN_LABEL = Some ''false''"
  "hm_insert (character_key c) ''Allocated'' (labels_with cs) = labels_with (cs @ [c])"
proof -
  show "hm_insert (character_key c) ''Allocated'' (labels_with cs) = labels_with (cs @ [c])" by (simp add: labels_with_def)
  show "hm_get (labels_with cs) (character_key c) = (if c \<in> set cs then Some ''Allocated'' else None)"
    by (induction cs rule: rev_induct) (auto simp: labels_with_def character_key_def)
  show "hm_get (labels_with cs) DRAIN_LABEL = Some ''false''"
    by (induction cs rule: rev_induct) (auto simp: labels_with_def character_key_def DRAIN_LABEL_def)
qed

abbreviation label_patch :: "string \<Rightarrow> string \<Rightarrow> patch_request" where
  "label_patch v c \<equiv> \<lparr>pr_namespace = ''game-servers'', pr_pod = ''example-server'', pr_resource_version = v,
     pr_label = character_key c, pr_value = ''Allocated''\<rparr>"

lemma ready_pod_meta [simp]:
  "om_name (do_metadata (ready_pod b v l)) = Some ''example-server''" "om_uid (do_metadata (ready_pod b v l)) = Some ''opaque-example''"
  "om_resource_version (do_metadata (ready_pod b v l)) = Some v" "om_labels (do_metadata (ready_pod b v l)) = Some l"
  "om_annotations (do_metadata (ready_pod b v l)) = None" "pod_metadata (read_pod r) = do_metadata r"
  by (simp_all add: ready_pod_def server_pod_def read_pod_def)

lemma ready_pod_ready: "pod_ready (read_pod (ready_pod b v l))"
  by (simp add: ready_pod_def server_pod_def read_pod_def pod_ready_def text_at_def)

lemma ready_pod_backend:
  "backend_ports api (cap_cfg demand n port) fixture_mapping (ready_pod b v l) name = Inr (''127.0.0.1'', [(''default'', b)])"
proof -
  have "extract_direct_target (ready_pod b v l) fixture_mapping ''status.podIP'' = Inr (''127.0.0.1'', b)"
    using backend_port_read [of b]
    by (simp add: extract_direct_target_def fixture_mapping_def ready_pod_def server_pod_def extract_address_def
        extract_json_path_def path_part_def extract_port_def status_ports_def container_ports_def del: port_of_number.simps)
  then show ?thesis
    by (simp add: backend_ports_def map_err_def extract_target_info_def)
       (simp add: fixture_mapping_def cap_cfg_def example_config_def get_data_ports_def)
qed

lemma served_round:
  assumes "hm_get l DRAIN_LABEL = Some ''false''"
    and chars: "characters_on_pod test_codecs (cap_cfg demand n port) (read_pod (ready_pod b v l)) [] 0 = chars"
    and room: "length chars < n" and new: "\<not> has_character c chars"
  shows "access_round (cap_env (cap_cfg demand n port) client (access m c)) api 0 [ready_pod b v l] =
    (case api_patch api (label_patch v c) of
       Inl e \<Rightarrow> (Inl (KubeFailed e), [PatchLabel (label_patch v c)])
     | Inr _ \<Rightarrow> (Inr (Some (Answered (Success ''Allocated'' ''opaque-example'' [(''default'', port)]))),
         [PatchLabel (label_patch v c), InstallRoute client ''127.0.0.1'' [((port, Udp), b)]]))"
proof -
  let ?env = "cap_env (cap_cfg demand n port) client (access m c)" and ?r = "ready_pod b v l"
  have drain: "\<not> pod_draining (read_pod ?r)" using assms(1) by (simp add: pod_draining_def)
  have unused: "\<not> shows_used c chars" using new by (auto simp: shows_used_def has_character_def list_ex_iff)
  have "build_candidates ?env 0 [?r] = Inr [(?r, read_pod ?r, chars)]"
    using chars by (simp add: example_decode_def ready_pod_ready)
  moreover have "choose_candidate ?env c [(?r, read_pod ?r, chars)] = Some (?r, read_pod ?r, chars)"
    using room drain by (simp add: choose_candidate_def eligible_candidates_def has_room_def first_least_def)
  moreover have "write_label api ?env c (?r, read_pod ?r, chars) =
      (case api_patch api (label_patch v c) of Inl e \<Rightarrow> Inl (KubeFailed e) | Inr _ \<Rightarrow> Inr (), [PatchLabel (label_patch v c)])"
    using drain unused by (simp add: write_label_def allocate_request_def send_patch_def lift_def allocation_key_def
        character_key_def cap_cfg_def example_config_def split: sum.splits)
  moreover have "get_data_ports (cap_cfg demand n port) = [\<lparr>dp_port = port, dp_protocol = Udp, dp_name = ''default''\<rparr>]"
    by (simp add: get_data_ports_def cap_cfg_def example_config_def)
  ultimately show ?thesis
    by (simp add: access_round_def finish_access_def ready_pod_backend lift_def split: sum.splits del: build_candidates.simps)
qed

lemma few_characters:
  "characters_on_pod test_codecs (cap_cfg demand n port) (read_pod (ready_pod b v (labels_with []))) [] 0 = []"
  "valid_character_id c \<Longrightarrow> characters_on_pod test_codecs (cap_cfg demand n port) (read_pod (ready_pod b v (labels_with [c]))) [] 0
     = [\<lparr>ch_id = c, ch_status = Allocated, ch_disconnected_at = None\<rparr>]"
  by (simp_all add: characters_on_pod_def List.map_filter_def character_of_label_def character_prefix_def cap_cfg_def
      example_config_def status_of_label_def labels_with_def character_key_def)

subsection \<open>Queries event by event\<close>

definition idle :: "config \<Rightarrow> string \<Rightarrow> fixture \<Rightarrow> bool" where
  "idle cfg c fx \<longleftrightarrow> (case fx_pod fx of None \<Rightarrow> True | Some r \<Rightarrow> idle_pod cfg c r)"

definition noticed :: "fixture \<Rightarrow> fixture \<Rightarrow> bool" where
  "noticed fx fx' \<longleftrightarrow> on_watch (show_nat (fx_version fx)) fx' = [OtherEvent]"

fun steps :: "fixture \<Rightarrow> fixture list \<Rightarrow> cold_event list" where
  "steps fx [] = []"
| "steps fx (fx' # fxs) = woken_by fx fx' # steps fx' fxs"

fun unserved :: "config \<Rightarrow> string \<Rightarrow> fixture \<Rightarrow> fixture list \<Rightarrow> bool" where
  "unserved cfg c fx [] = idle cfg c fx"
| "unserved cfg c fx (fx' # fxs) \<longleftrightarrow> idle cfg c fx \<and> noticed fx fx' \<and> unserved cfg c fx' fxs"

abbreviation version_of :: "fixture \<Rightarrow> string" where
  "version_of fx \<equiv> show_nat (fx_version fx)"

definition prefixed :: "query_effect list \<Rightarrow> 'a access \<Rightarrow> 'a access" where
  "prefixed es m = (fst m, es @ snd m)"

abbreviation look :: "access_env \<Rightarrow> query_effect list" where
  "look env \<equiv> [LockAssignments, ListPods (pods_request env)]"

abbreviation query_env :: "capacity_demand_config \<Rightarrow> nat \<Rightarrow> u16 \<Rightarrow> socket_addr \<Rightarrow> string \<Rightarrow> string \<Rightarrow> access_env" where
  "query_env demand n port client m c \<equiv> cap_env (cap_cfg demand n port) client (access m c)"

lemma start_waits: "start_waiting (query_env demand n port client m c) signalled
    = (Inr True, UnlockAssignments # (if signalled then [] else [SignalDemand (demand_group demand m)]))"
  by (simp add: start_waiting_def lift_def)

lemma loop_idle:
  assumes "idle (cap_cfg demand n port) c fx" and env: "env = query_env demand n port client m c"
  shows "access_loop env signalled (api_of fx) 0 (snapshot_of fx) events
    = prefixed (snd (start_waiting env signalled)) (cold_wait env (version_of fx) events)"
proof -
  have "access_round env (api_of fx) 0 (fst (snapshot_of fx)) = (Inr None, [])"
    unfolding env by (rule idle_round) (use assms in \<open>simp_all add: idle_def\<close>)
  then show ?thesis by (simp add: access_loop.simps start_waits prefixed_def env) (simp add: snapshot_of_def)
qed

lemma wait_wakes:
  assumes "noticed fx fx'" and env: "env = query_env demand n port client m c"
  shows "cold_wait env (version_of fx) (woken_by fx fx' # events)
    = prefixed (look env) (access_loop env True (api_of fx') 0 (snapshot_of fx') events)"
  using assms(1) cap_snapshot [where demand = demand and n = n and port = port and client = client and request = "access m c" and fx = fx']
  by (simp add: woken_by_def access_loop.simps noticed_def wait_for_pod_change_def prefixed_def env del: cap_cfg_fields)

lemma wait_steps:
  assumes env: "env = query_env demand n port client m c"
  shows "unserved (cap_cfg demand n port) c fx fxs \<Longrightarrow> cold_wait env (version_of fx) (steps fx fxs @ events)
     = prefixed (concat (replicate (length fxs) (look env @ [UnlockAssignments]))) (cold_wait env (version_of (last (fx # fxs))) events)"
proof (induction fxs arbitrary: fx)
  case (Cons fx' fxs)
  then have "idle (cap_cfg demand n port) c fx'" by (cases fxs) simp_all
  with Cons show ?case by (simp add: wait_wakes [OF _ env] loop_idle [OF _ env] prefixed_def) (simp add: env start_waits)
qed (simp add: prefixed_def)

text \<open>What a query has done while it waits, with the lock given back.\<close>

definition looks :: "access_env \<Rightarrow> string \<Rightarrow> nat \<Rightarrow> query_effect list" where
  "looks env grp k = look env @ [UnlockAssignments, SignalDemand grp] @ concat (replicate k (look env @ [UnlockAssignments]))"

lemma looks_unlocked: "holds_lock (looks env grp k @ es) = holds_lock es"
proof -
  let ?f = "\<lambda>e held. case e of LockAssignments \<Rightarrow> True | UnlockAssignments \<Rightarrow> False | _ \<Rightarrow> held"
  have "fold ?f (concat (replicate k (look env @ [UnlockAssignments]))) False = False" by (induction k) simp_all
  then show ?thesis by (simp add: holds_lock_def looks_def)
qed

lemma waiting_query_run:
  assumes valid: "valid_character_id m" "valid_character_id c" and fx: "fx_config fx = cap_cfg demand n port"
    and waits: "unserved (cap_cfg demand n port) c fx fxs" and env: "env = query_env demand n port client m c"
  shows "process_query (cap_server (fx_config fx)) (access m c) client (api_of fx) 0 (steps fx fxs @ events) =
    (let r = replied (drop_guard (cold_wait env (version_of (last (fx # fxs))) events))
     in (fst r, looks env (demand_group demand m) (length fxs) @ snd r))"
proof -
  have idle: "idle (cap_cfg demand n port) c fx" using waits by (cases fxs) simp_all
  have access: "valid_access (access_params (access m c))" using valid by (simp add: valid_access_def)
  let ?w = "cold_wait env (version_of (last (fx # fxs))) events"
  have "process_query (cap_server (fx_config fx)) (access m c) client (api_of fx) 0 (steps fx fxs @ events)
      = replied (drop_guard (fst ?w, looks env (demand_group demand m) (length fxs) @ snd ?w))"
    unfolding fx cap_process [OF access refl] Let_def env [symmetric] loop_idle [OF idle env] wait_steps [OF env waits]
    by (simp add: prefixed_def take_lock_def looks_def) (simp add: env start_waits)
  also have "drop_guard (fst ?w, looks env (demand_group demand m) (length fxs) @ snd ?w)
      = prefixed (looks env (demand_group demand m) (length fxs)) (drop_guard ?w)"
    by (simp add: drop_guard_def looks_unlocked prefixed_def split: prod.splits)
  finally show ?thesis by (simp add: replied_def prefixed_def Let_def split: prod.splits)
qed

lemma after_start:
  assumes "valid_character_id m" "valid_character_id c" "fx_config fx = cap_cfg demand n port" "idle (cap_cfg demand n port) c fx"
    and env: "env = query_env demand n port client m c"
  shows "after fx (access m c) client [] = (StillWaiting, looks env (demand_group demand m) 0)"
  using waiting_query_run [where fxs = "[]" and events = "[]", OF assms(1-3) _ env] assms(4)
  by (simp add: after_def Let_def replied_def drop_guard_def lift_def holds_lock_def)

lemma after_event:
  assumes "valid_character_id m" "valid_character_id c" "fx_config fx = cap_cfg demand n port" "unserved (cap_cfg demand n port) c fx fxs"
    and env: "env = query_env demand n port client m c"
  shows "after fx (access m c) client (steps fx fxs @ [e])
    = replied (drop_guard (cold_wait env (version_of (last (fx # fxs))) [e]))"
  using waiting_query_run [where events = "[]", OF assms] waiting_query_run [where events = "[e]", OF assms]
  by (simp add: after_def Let_def replied_def drop_guard_def lift_def holds_lock_def split: prod.splits)

subsection \<open>The fixture as a value\<close>

abbreviation fixt where
  "fixt po v d gs k st cf rd cfg fl ss \<equiv> \<lparr>fx_pod = po, fx_version = v, fx_demands = d, fx_groups = gs, fx_patches = k,
     fx_status = st, fx_conflict = cf, fx_ready_on_demand = rd, fx_config = cfg, fx_flights = fl, fx_sessions = ss\<rparr>"

lemma set_pod_value:
  "set_pod (server_pod b True False) (fixt po v d gs k st cf rd cfg fl ss)
     = fixt (Some (ready_pod b (show_nat (Suc v)) (labels_with []))) (Suc v) d gs k st cf rd cfg fl ss"
  by (simp add: set_pod_def ready_pod_def) (simp add: server_pod_def labels_with_def)

definition versioned :: "dynamic_object \<Rightarrow> nat \<Rightarrow> dynamic_object" where
  "versioned r v = r\<lparr>do_metadata := (do_metadata r)\<lparr>om_resource_version := Some (show_nat v)\<rparr>\<rparr>"

lemma set_pod_versioned:
  "set_pod (server_pod b False dr) (fixt po v d gs k st cf rd cfg fl ss)
     = fixt (Some (versioned (server_pod b False dr) (Suc v))) (Suc v) d gs k st cf rd cfg fl ss"
  "set_pod (server_pod b r True) (fixt po v d gs k st cf rd cfg fl ss)
     = fixt (Some (versioned (server_pod b r True) (Suc v))) (Suc v) d gs k st cf rd cfg fl ss"
  "set_pod pending_pod (fixt po v d gs k st cf rd cfg fl ss) = fixt (Some (versioned pending_pod (Suc v))) (Suc v) d gs k st cf rd cfg fl ss"
  by (simp_all add: set_pod_def versioned_def)

lemma idle_values:
  "idle cfg c (fixt None v d gs k st cf rd cfg' fl ss)"
  "idle cfg c (fixt (Some (versioned (server_pod b False dr) u)) v d gs k st cf rd cfg' fl ss)"
  "idle cfg c (fixt (Some (versioned (server_pod b r True) u)) v d gs k st cf rd cfg' fl ss)"
  "idle cfg c (fixt (Some (server_pod b r True)) v d gs k st cf rd cfg' fl ss)"
  "idle cfg c (fixt (Some (versioned pending_pod u)) v d gs k st cf rd cfg' fl ss)"
  by (simp_all add: idle_def idle_pod_def versioned_def example_pods)

lemma show_nat_eq: "show_nat a = show_nat b \<longleftrightarrow> a = b"
  using show_nat_value by metis

lemma noticed_values:
  "u \<noteq> fx_version fx \<Longrightarrow> noticed fx (fixt (Some (versioned r u)) v d gs k st cf rd cfg fl ss)"
  "u \<noteq> fx_version fx \<Longrightarrow> noticed fx (fixt (Some (ready_pod b (show_nat u) l)) v d gs k st cf rd cfg fl ss)"
  by (simp_all add: noticed_def on_watch_def versioned_def show_nat_eq)

text \<open>The flights: one with \<open>h\<close> holders.\<close>

definition flight_of :: "capacity_demand_config \<Rightarrow> string \<Rightarrow> nat \<Rightarrow> nat \<Rightarrow> capacity_demand" where
  "flight_of demand grp st h = \<lparr>cap_flights = [(grp, 0)], cap_heap = [\<lparr>fl_endpoint = cd_endpoint demand, fl_group = grp,
     fl_deadline = unat (cd_boot_timeout_seconds demand) * 1000000000, fl_holders = h, fl_accepted = Some (post_demand True (Some st))\<rparr>],
     cap_poisoned = False, cap_posts = [0]\<rparr>"

definition short_timeout :: "capacity_demand_config \<Rightarrow> bool" where
  "short_timeout demand \<longleftrightarrow> unat (cd_boot_timeout_seconds demand) < 9223372036854775808"

lemma in_range: "short_timeout demand \<Longrightarrow>
    instant_add 0 (cd_boot_timeout_seconds demand) = Some (unat (cd_boot_timeout_seconds demand) * 1000000000)"
  by (simp add: instant_add_def Let_def short_timeout_def)

lemma take_part_values:
  "short_timeout demand \<Longrightarrow> take_part grp (fixt po v d gs k st cf rd (cap_cfg demand n port) demand_new ss)
     = on_demand grp (fixt po v d gs k st cf rd (cap_cfg demand n port) (flight_of demand grp st 1) ss)"
  "take_part grp (fixt po v d gs k st cf rd (cap_cfg demand n port) (flight_of demand grp st (Suc h)) ss)
     = fixt po v d gs k st cf rd (cap_cfg demand n port) (flight_of demand grp st (Suc (Suc h))) ss"
  "leaves (fixt po v d gs k st cf rd cfg (flight_of demand grp st (Suc h)) ss)
     = fixt po v d gs k st cf rd cfg (flight_of demand grp st h) ss"
  by (simp_all add: take_part_def signal_def demand_new_def retain_live_def Let_def in_range await_accepted_def flight_of_def
      strong_count_def hold_def leaves_def release_def)

lemma take_part_anew:
  assumes "short_timeout demand"
  shows "\<exists>fl. take_part grp (fixt po v d gs k st cf rd (cap_cfg demand n port) (flight_of demand grp st 0) ss)
     = on_demand grp (fixt po v d gs k st cf rd (cap_cfg demand n port) fl ss)"
  using in_range [OF assms]
  by (simp add: take_part_def signal_def retain_live_def Let_def await_accepted_def flight_of_def strong_count_def) blast

lemma on_demand_value:
  "on_demand grp (fixt po v d gs k st cf False cfg fl ss) = fixt po v (Suc d) (gs @ [grp]) k st cf False cfg fl ss"
  "on_demand grp (fixt po v d gs k st cf True cfg fl ss)
     = fixt (Some (ready_pod 7777 (show_nat (Suc v)) (labels_with []))) (Suc v) (Suc d) (gs @ [grp]) k st cf True cfg fl ss"
  by (simp_all add: on_demand_def set_pod_value)

lemma replay_looks:
  "replay (looks env grp 0) fx = take_part grp fx" "replay [] fx = fx"
  "replay [LockAssignments, ListPods req, UnlockAssignments] fx = fx" "replay [ListPods req] fx = fx"
  "fx_sessions (replay [LockAssignments, ListPods req, PatchLabel pr, UnlockAssignments] fx) = fx_sessions (snd (on_patch pr fx))"
  by (simp_all add: replay_def looks_def apply_effect_def)

lemma on_patch_sessions: "fx_sessions (snd (on_patch pr fx)) = fx_sessions fx"
  by (simp add: on_patch_def set_pod_def Let_def split: option.splits)

lemma replay_served:
  "replay [LockAssignments, ListPods req, PatchLabel (label_patch u c), InstallRoute client ip routes, UnlockAssignments]
     (fixt (Some (ready_pod b u (labels_with cs))) v d gs k st False rd cfg fl ss) =
   fixt (Some (ready_pod b (show_nat (Suc v)) (labels_with (cs @ [c])))) (Suc v) d gs (Suc k) st False rd cfg fl
     (upsert_multi_port 0 client ip routes ss)"
  by (simp add: replay_def apply_effect_def on_patch_def set_pod_def ready_pod_def labels_with_get)

lemma character_label_value:
  "character_label (fixt (Some (ready_pod b u (labels_with cs))) v d gs k st cf rd cfg fl ss) c
     = (if c \<in> set cs then Some ''Allocated'' else None)"
  by (simp add: character_label_def labels_with_get)

subsection \<open>Replies\<close>

abbreviation now_waits :: "access_env \<Rightarrow> string \<Rightarrow> cold_event list \<Rightarrow> query_result \<times> query_effect list" where
  "now_waits env v events \<equiv> replied (drop_guard (cold_wait env v events))"

lemma start_value:
  assumes "valid_character_id m" "valid_character_id c" "idle (cap_cfg demand n port) c (fixt po v d gs k st cf rd (cap_cfg demand n port) fl ss)"
  shows "after (fixt po v d gs k st cf rd (cap_cfg demand n port) fl ss) (access m c) client []
    = (StillWaiting, looks (query_env demand n port client m c) (demand_group demand m) 0)"
  by (rule after_start [OF assms(1,2) _ assms(3)]) simp_all

lemma event_values:
  assumes "valid_character_id m" "valid_character_id c" "fx_config fx = cap_cfg demand n port" and idle: "idle (cap_cfg demand n port) c fx"
  shows "after fx (access m c) client [e] = now_waits (query_env demand n port client m c) (version_of fx) [e]"
    "noticed fx fx1 \<Longrightarrow> idle (cap_cfg demand n port) c fx1 \<Longrightarrow>
       after fx (access m c) client [woken_by fx fx1, e] = now_waits (query_env demand n port client m c) (version_of fx1) [e]"
    "noticed fx fx1 \<Longrightarrow> idle (cap_cfg demand n port) c fx1 \<Longrightarrow> noticed fx1 fx2 \<Longrightarrow> idle (cap_cfg demand n port) c fx2 \<Longrightarrow>
       after fx (access m c) client [woken_by fx fx1, woken_by fx1 fx2, e] = now_waits (query_env demand n port client m c) (version_of fx2) [e]"
  using after_event [OF assms(1-3), where fxs = "[]"] after_event [OF assms(1-3), where fxs = "[fx1]"]
    after_event [OF assms(1-3), where fxs = "[fx1, fx2]"] idle by simp_all

lemma end_values:
  "now_waits env v [DeadlinePassed] = (Replied (ErrorReply ''Server startup timed out''), [])"
  "now_waits env v [ClientLeft] = (NoReply, [])"
  "now_waits env v [DemandRefused UnknownGroup] = (Replied (ErrorReply ''Unknown backend group''), [])"
  "now_waits env v [DemandRefused Maintenance] = (Replied (ErrorReply ''Backend group is under maintenance''), [])"
  "now_waits env v [DemandRefused Unavailable] = (Replied (ErrorReply ''Capacity demand unavailable''), [])"
  "now_waits env v [DemandRefused Timeout] = (Replied (ErrorReply ''Server startup timed out''), [])"
  by (simp_all add: replied_def drop_guard_def lift_def holds_lock_def)

lemma woken_idle_value:
  assumes "noticed fx fx'" "idle (cap_cfg demand n port) c fx'" and "v = version_of fx"
  shows "now_waits (query_env demand n port client m c) v [woken_by fx fx']
    = (StillWaiting, look (query_env demand n port client m c) @ [UnlockAssignments])"
  using assms by (simp add: wait_wakes [OF _ refl] loop_idle [OF _ refl] prefixed_def start_waits replied_def drop_guard_def
      lift_def holds_lock_def)

abbreviation served :: "u16 \<Rightarrow> query_result" where
  "served port \<equiv> Replied (Success ''Allocated'' ''opaque-example'' [(''default'', port)])"

abbreviation serving :: "access_env \<Rightarrow> string \<Rightarrow> string \<Rightarrow> socket_addr \<Rightarrow> u16 \<Rightarrow> u16 \<Rightarrow> query_effect list" where
  "serving env u c client port b \<equiv> [LockAssignments, ListPods (pods_request env), PatchLabel (label_patch u c),
     InstallRoute client ''127.0.0.1'' [((port, Udp), b)], UnlockAssignments]"

definition can_serve :: "capacity_demand_config \<Rightarrow> nat \<Rightarrow> u16 \<Rightarrow> string \<Rightarrow> fixture \<Rightarrow> u16 \<Rightarrow> string \<Rightarrow> (string, string) hashmap \<Rightarrow> bool" where
  "can_serve demand n port c fx b u l \<longleftrightarrow> fx_pod fx = Some (ready_pod b u l) \<and> hm_get l DRAIN_LABEL = Some ''false''
     \<and> length (characters_on_pod test_codecs (cap_cfg demand n port) (read_pod (ready_pod b u l)) [] 0) < n
     \<and> \<not> has_character c (characters_on_pod test_codecs (cap_cfg demand n port) (read_pod (ready_pod b u l)) [] 0)"

lemma serves_round:
  assumes "can_serve demand n port c fx b u l"
  shows "access_round (query_env demand n port client m c) (api_of fx) 0 (fst (snapshot_of fx)) =
    (if fx_conflict fx then (Inl (KubeFailed (ApiError 409)), [PatchLabel (label_patch u c)])
     else (Inr (Some (Answered (Success ''Allocated'' ''opaque-example'' [(''default'', port)]))),
       [PatchLabel (label_patch u c), InstallRoute client ''127.0.0.1'' [((port, Udp), b)]]))"
proof -
  have "fst (snapshot_of fx) = [ready_pod b u l]" using assms by (simp add: can_serve_def snapshot_of_def)
  moreover have "api_patch (api_of fx) (label_patch u c) = (if fx_conflict fx then Inl (ApiError 409) else Inr ())"
    using assms by (simp add: can_serve_def api_of_def on_patch_def)
  ultimately show ?thesis using served_round [OF _ refl, where l = l and n = n and demand = demand and port = port and b = b and v = u and c = c] assms by (simp add: can_serve_def)
qed

lemma woken_served_value:
  assumes "noticed fx fx'" "can_serve demand n port c fx' b u l" "\<not> fx_conflict fx'" and "v = version_of fx"
  shows "now_waits (query_env demand n port client m c) v [woken_by fx fx']
    = (served port, serving (query_env demand n port client m c) u c client port b)"
  using assms by (simp add: wait_wakes [OF _ refl] access_loop.simps serves_round [OF assms(2)] prefixed_def replied_def drop_guard_def
      lift_def holds_lock_def)

lemma hot_value:
  assumes valid: "valid_character_id m" "valid_character_id c" and cfg: "fx_config fx = cap_cfg demand n port"
    and s: "can_serve demand n port c fx b u l"
  shows "after fx (access m c) client [] = (if fx_conflict fx
     then (Replied (ErrorReply ''Unable to establish route''),
       look (query_env demand n port client m c) @ [PatchLabel (label_patch u c), UnlockAssignments])
     else (served port, serving (query_env demand n port client m c) u c client port b))"
proof -
  have access: "valid_access (access_params (access m c))" using valid by (simp add: valid_access_def)
  show ?thesis unfolding after_def Let_def cfg
    by (simp add: cap_process [OF access refl] access_loop.simps serves_round [OF s] take_lock_def replied_def drop_guard_def
        lift_def holds_lock_def Let_def)
qed

text \<open>The Pod with room, and the Pod that has been given away where there is no more room.\<close>

lemma serves_values:
  "n > 0 \<Longrightarrow> can_serve demand n port c (fixt (Some (ready_pod b u (labels_with []))) v d gs k st cf rd cfg fl ss) b u (labels_with [])"
  "n > 1 \<Longrightarrow> c \<noteq> c' \<Longrightarrow> valid_character_id c' \<Longrightarrow>
     can_serve demand n port c (fixt (Some (ready_pod b u (labels_with [c']))) v d gs k st cf rd cfg fl ss) b u (labels_with [c'])"
  by (simp_all add: can_serve_def labels_with_get few_characters has_character_def)

lemma full_idle:
  "c \<noteq> c' \<Longrightarrow> valid_character_id c' \<Longrightarrow>
     idle (cap_cfg demand (Suc 0) port) c (fixt (Some (ready_pod b u (labels_with [c']))) v d gs k st cf rd cfg fl ss)"
  by (simp add: idle_def idle_pod_def has_room_def few_characters has_character_def)

lemma woken_values:
  "noticed fx (fixt (Some (ready_pod b u (labels_with []))) v d gs k st False rd cfg fl ss) \<Longrightarrow> n > 0 \<Longrightarrow> w = version_of fx \<Longrightarrow>
     now_waits (query_env demand n port client m c) w [woken_by fx (fixt (Some (ready_pod b u (labels_with []))) v d gs k st False rd cfg fl ss)]
       = (served port, serving (query_env demand n port client m c) u c client port b)"
  "noticed fx (fixt (Some (ready_pod b u (labels_with [c']))) v d gs k st False rd cfg fl ss) \<Longrightarrow> n > 1 \<Longrightarrow> c \<noteq> c' \<Longrightarrow>
     valid_character_id c' \<Longrightarrow> w = version_of fx \<Longrightarrow>
     now_waits (query_env demand n port client m c) w [woken_by fx (fixt (Some (ready_pod b u (labels_with [c']))) v d gs k st False rd cfg fl ss)]
       = (served port, serving (query_env demand n port client m c) u c client port b)"
  by (erule woken_served_value [OF _ serves_values(1)], simp_all only: fixture.select_convs simp_thms)
     (erule woken_served_value [OF _ serves_values(2)], simp_all only: fixture.select_convs simp_thms)

lemma hot_values:
  assumes "valid_character_id m" "valid_character_id c" "n > 0"
  shows "after (fixt (Some (ready_pod b u (labels_with []))) v d gs k st cf rd (cap_cfg demand n port) fl ss) (access m c) client [] = (if cf
     then (Replied (ErrorReply ''Unable to establish route''),
       look (query_env demand n port client m c) @ [PatchLabel (label_patch u c), UnlockAssignments])
     else (served port, serving (query_env demand n port client m c) u c client port b))"
  using hot_value [OF assms(1,2), OF _ serves_values(1)] assms(3) by simp

lemma lookup_value:
  "after (fixt None v d gs k st cf rd (cap_cfg demand n port) fl ss) (CharacterList ''tutorial'' []) client []
     = (Replied (CharacterListReply []), [ListPods (pods_request (cap_env (cap_cfg demand n port) client (CharacterList ''tutorial'' [])))])"
proof -
  have access: "valid_access (access_params (CharacterList ''tutorial'' []))" by (simp add: valid_access_def friend_id)
  show ?thesis unfolding after_def Let_def fixture.select_convs
    by (simp add: cap_process [OF access refl] access_loop.simps access_round_def take_lock_def replied_def drop_guard_def
        lift_def holds_lock_def Let_def snapshot_of_def)
qed

lemma test_ids:
  "valid_character_id ''joining''" "valid_character_id ''first''" "valid_character_id ''second''" "valid_character_id ''leaving''"
  "valid_character_id ''next''" "valid_character_id ''remaining''" "valid_character_id ''unpublished''"
  by (simp_all add: valid_character_id_def is_ascii_alphanumeric_def)

lemma one_text: "show_nat (Suc 0) = ''1''"
  by code_simp

lemma new_pod:
  "fixture_new None t = fixt None 1 0 [] 0 202 False False (example_capacity t) demand_new store_new"
  "fixture_new (Some (example_pod r True)) t = fixt (Some (example_pod r True)) 1 0 [] 0 202 False False (example_capacity t) demand_new store_new"
  "fixture_new (Some (example_pod True False)) t
     = fixt (Some (ready_pod 7777 (show_nat 1) (labels_with []))) 1 0 [] 0 202 False False (example_capacity t) demand_new store_new"
  by (simp_all add: fixture_new_def configured_def) (simp add: ready_pod_def server_pod_def labels_with_def one_text)

lemma upsert_one: "sm_count (upsert_multi_port now client ip routes store_new) = 1"
  by (simp add: upsert_count) (simp add: store_new_def sm_get_def sm_count_def)

lemma no_sessions: "sm_count store_new = 0"
  by (simp add: store_new_def sm_count_def)

lemmas test_values = new_pod configured_def full_idle post_demand_def cap_cfg_of start_value event_values end_values woken_idle_value woken_values hot_values lookup_value
  set_pod_value set_pod_versioned idle_values noticed_values take_part_values on_demand_value replay_looks on_patch_sessions replay_served
  character_label_value upsert_one no_sessions test_ids friend_id has_status_def has_error_def demand_group_def
  short_timeout_def refused_def

subsection \<open>The tests pass\<close>

lemma hot_test: "hot_access_assigns_without_signaling client"
  unfolding hot_access_assigns_without_signaling_def Let_def by (simp add: test_values del: cold_wait.simps)

lemma timeout_test: "startup_timeout_leaves_no_assignment_or_route client"
  unfolding startup_timeout_leaves_no_assignment_or_route_def Let_def by (simp add: test_values del: cold_wait.simps)

lemma gate_test: "native_ready_pod_waits_for_controller_to_clear_process_readiness_gate client"
  unfolding native_ready_pod_waits_for_controller_to_clear_process_readiness_gate_def Let_def by (simp add: test_values del: cold_wait.simps)

lemma conflict_test: "concurrent_drain_patch_conflict_never_installs_route client"
  unfolding concurrent_drain_patch_conflict_never_installs_route_def Let_def by (simp add: test_values del: cold_wait.simps)

lemma concurrent_test: "concurrent_cold_queries_signal_once_wait_for_ready_and_assign c1 c2"
  unfolding concurrent_cold_queries_signal_once_wait_for_ready_and_assign_def Let_def by (simp add: test_values del: cold_wait.simps)

lemma arriving_test: "player_arriving_during_startup_shares_pending_server c1 c2"
  unfolding player_arriving_during_startup_shares_pending_server_def Let_def by (simp add: test_values del: cold_wait.simps)

lemma capacity_test: "queued_startup_assignments_respect_new_server_capacity c1 c2"
  unfolding queued_startup_assignments_respect_new_server_capacity_def Let_def by (simp add: test_values del: cold_wait.simps)

lemma rejected_test: "controller_rejects_unpublished_passthrough_group client"
  unfolding controller_rejects_unpublished_passthrough_group_def Let_def by (simp add: test_values del: cold_wait.simps)

lemma lookup_test: "character_lookup_does_not_signal client"
  unfolding character_lookup_does_not_signal_def Let_def by (simp add: test_values del: cold_wait.simps)

lemma aliases_test: "cold_map_passes_through_with_empty_aliases_and_waits_for_ready client"
  unfolding cold_map_passes_through_with_empty_aliases_and_waits_for_ready_def Let_def by (simp add: test_values del: cold_wait.simps)

lemma rejections_test: "controller_rejections_return_specific_errors_without_assignment client"
  unfolding controller_rejections_return_specific_errors_without_assignment_def Let_def by (simp add: test_values del: cold_wait.simps)

lemma cancelling_test: "cancelling_one_cold_waiter_preserves_other_waiter_and_single_signal c1 c2"
  unfolding cancelling_one_cold_waiter_preserves_other_waiter_and_single_signal_def Let_def by (simp add: test_values del: cold_wait.simps)

lemma callback_test: "readiness_change_during_callback_is_not_missed client"
  unfolding readiness_change_during_callback_is_not_missed_def Let_def by (simp add: test_values del: cold_wait.simps)

lemma stalled_test: "startup_deadline_also_bounds_a_stalled_callback client"
  unfolding startup_deadline_also_bounds_a_stalled_callback_def Let_def by (simp add: test_values del: cold_wait.simps)

lemma disconnected_test: "disconnected_cold_query_is_cancelled_and_later_demand_can_signal c1 c2"
proof -
  let ?d = "\<lparr>cd_endpoint = ''http://127.0.0.1/v1alpha1/demand'', cd_backend_groups = [(''tutorial'', ''example-backend'')],
    cd_boot_timeout_seconds = 5\<rparr>"
  obtain fl where "take_part ''example-backend'' (fixt None (Suc 0) (Suc 0) [''example-backend''] 0 202 False False
      (cap_cfg ?d 128 7777) (flight_of ?d ''example-backend'' 202 0) store_new)
    = on_demand ''example-backend'' (fixt None (Suc 0) (Suc 0) [''example-backend''] 0 202 False False (cap_cfg ?d 128 7777) fl store_new)"
  proof -
    have "short_timeout ?d" by (simp add: short_timeout_def)
    from take_part_anew [OF this] show ?thesis using that by blast
  qed
  then show ?thesis
    unfolding disconnected_cold_query_is_cancelled_and_later_demand_can_signal_def Let_def
    by (simp add: test_values del: cold_wait.simps)
qed

lemma round_trip_value:
  assumes ip: "sa_ip tcp = IPv4 127 0 0 1" "sa_ip udp = IPv4 127 0 0 1"
  shows "case handle_udp_data_packet cfg' api (fixture_network True) clock udp bytes data_port
      (proxy_new cfg (upsert_multi_port 0 tcp ''127.0.0.1'' [((data_port, Udp), b)] store_new) None) of
      (Inr _, [Datagram upstream target payload], proxy) \<Rightarrow>
        target = addr_v4 127 0 0 1 b \<and> payload = bytes
        \<and> (case receive_turn (st_sockets (px_store proxy)) upstream (Received reply) of
             TaskForwards reply_to bytes \<Rightarrow> sa_ip reply_to = sa_ip udp \<and> sa_port reply_to = sa_port udp \<and> bytes = reply
           | _ \<Rightarrow> False)
    | _ \<Rightarrow> False"
proof -
  obtain sid px' reply_to where
    "handle_udp_data_packet cfg' api (fixture_network True) clock udp bytes data_port
      (proxy_new cfg (upsert_multi_port 0 tcp ''127.0.0.1'' [((data_port, Udp), b)] store_new) None)
      = (Inr (), [Datagram sid (addr_v4 127 0 0 1 b) bytes], px')"
    "receive_turn (st_sockets (px_store px')) sid (Received reply) = TaskForwards reply_to reply"
    "sa_ip reply_to = sa_ip udp" "sa_port reply_to = sa_port udp"
    using local_round_trip [OF local_route(2) local_route(1) [OF ip(2,1)]] by blast
  then show ?thesis by simp
qed

lemma round_trip_test:
  assumes ip: "sa_ip tcp = IPv4 127 0 0 1" "sa_ip udp = IPv4 127 0 0 1"
  shows "cold_start_tcp_assignment_then_plain_udp_round_trip data_port backend_port tcp udp"
  unfolding cold_start_tcp_assignment_then_plain_udp_round_trip_def Let_def
  using round_trip_value [OF ip] by (simp add: test_values del: cold_wait.simps)

end
