(* ===== verification/MetricValues.thy ===== *)
theory MetricValues
  imports Metrics
begin

text \<open>
  What the metrics of \<open>src/metrics.rs\<close> count: the value of a gauge or counter after a list of library calls, as
  the Prometheus library documents it (64-bit, wrapping), and what that makes of the recording functions. The test
  of \<open>metrics.rs\<close> is run over it.
\<close>

section \<open>Values\<close>

fun apply_op :: "'f metric_op \<Rightarrow> u64 \<Rightarrow> u64" where
  "apply_op Inc v = v + 1"
| "apply_op (IncBy n) v = v + n"
| "apply_op Dec v = v - 1"
| "apply_op (SetInt n) v = n"
| "apply_op (SetFloat _) v = v"
| "apply_op (Observe _) v = v"

fun apply_calls :: "metric \<Rightarrow> string list \<Rightarrow> 'f metric_call list \<Rightarrow> u64 \<Rightarrow> u64" where
  "apply_calls m vals [] v = v"
| "apply_calls m vals ((m', vals', op) # cs) v =
     apply_calls m vals cs (if m' = m \<and> vals' = vals then apply_op op v else v)"

definition meter :: "metric \<Rightarrow> string list \<Rightarrow> 'f metric_call list \<Rightarrow> u64" where
  "meter m vals cs = apply_calls m vals cs 0"

lemma apply_calls_append: "apply_calls m vals (cs @ ds) v = apply_calls m vals ds (apply_calls m vals cs v)"
  by (induction m vals cs v rule: apply_calls.induct) simp_all

definition count_recordings :: "('f recording \<Rightarrow> bool) \<Rightarrow> 'f recording list \<Rightarrow> nat" where
  "count_recordings P rs = length (filter P rs)"

fun is_start :: "'f recording \<Rightarrow> bool" where
  "is_start (SessionStart _) = True"
| "is_start _ = False"

fun is_end :: "'f recording \<Rightarrow> bool" where
  "is_end (SessionEnd _ _) = True"
| "is_end _ = False"

fun received_from :: "string \<Rightarrow> 'f recording \<Rightarrow> u64" where
  "received_from src (PacketReceived src' n) = (if src' = src then n else 0)"
| "received_from src _ = 0"

lemmas recording_defs = record_session_start_def record_session_end_def record_packet_received_def record_packet_sent_def
  record_query_request_def record_k8s_query_def record_error_def update_default_endpoint_available_def
  update_available_resources_def

text \<open>The effect of one recording.\<close>

lemma apply_recording:
  "apply_calls ACTIVE_SESSIONS [] (calls_of as_f64 r) v = v + (if is_start r then 1 else 0) - (if is_end r then 1 else 0)"
  "apply_calls TOTAL_SESSIONS [ty] (calls_of as_f64 r) v = v + (if r = SessionStart ty then 1 else 0)"
  "apply_calls BYTES_RECEIVED [src] (calls_of as_f64 r) v = v + received_from src r"
  by (cases r; simp add: recording_defs metric_defs)+

section \<open>Properties\<close>

text \<open>
  C38. The metrics count what they say: after any sequence of recordings the gauge of active sessions is the number of
  sessions started less the number ended, the counter of a session type is the number of its sessions started, and
  the received bytes of a source are the sum of its packets' sizes, all modulo \<open>2 ^ 64\<close>.
\<close>

theorem recorded_values:
  "meter ACTIVE_SESSIONS [] (concat (map (calls_of as_f64) rs))
     = of_nat (count_recordings is_start rs) - of_nat (count_recordings is_end rs)
   \<and> meter TOTAL_SESSIONS [ty] (concat (map (calls_of as_f64) rs)) = of_nat (count_recordings (\<lambda>r. r = SessionStart ty) rs)
   \<and> meter BYTES_RECEIVED [src] (concat (map (calls_of as_f64) rs)) = sum_list (map (received_from src) rs)"
proof -
  have "apply_calls ACTIVE_SESSIONS [] (concat (map (calls_of as_f64) rs)) v
      = v + of_nat (count_recordings is_start rs) - of_nat (count_recordings is_end rs)" for v
    by (induction rs arbitrary: v) (simp_all add: apply_calls_append apply_recording count_recordings_def)
  moreover have "apply_calls TOTAL_SESSIONS [ty] (concat (map (calls_of as_f64) rs)) v
      = v + of_nat (count_recordings (\<lambda>r. r = SessionStart ty) rs)" for v
    by (induction rs arbitrary: v) (simp_all add: apply_calls_append apply_recording count_recordings_def)
  moreover have "apply_calls BYTES_RECEIVED [src] (concat (map (calls_of as_f64) rs)) v
      = v + sum_list (map (received_from src) rs)" for v
    by (induction rs arbitrary: v) (simp_all add: apply_calls_append apply_recording)
  ultimately show ?thesis by (simp add: meter_def)
qed

section \<open>The test of the module\<close>

definition test_recordings :: "'f \<Rightarrow> 'f recording list" where
  "test_recordings d =
     [SessionStart ''query'', SessionEnd ''query'' d, PacketReceived ''client'' 1024, PacketSent ''server'' 512,
      QueryRequest ''success'' d, K8sQuery ''gameserver'' ''success'' d, ErrorSeen ''timeout'' ''proxy'',
      EndpointAvailable True, ResourcesAvailable ''gameserver'' ''default'' 5]"

definition test_metrics_recording ::
  "prometheus \<Rightarrow> (u64 \<Rightarrow> 'f) \<Rightarrow> 'f \<Rightarrow> (metric list \<Rightarrow> string option) \<Rightarrow> (string \<Rightarrow> bool) \<Rightarrow> bool" where
  "test_metrics_recording lib as_f64 d encode utf8 \<longleftrightarrow>
     (let calls = (\<lambda>rs. concat (map (calls_of as_f64) rs)); rs = test_recordings d in
      meter ACTIVE_SESSIONS [] (calls (take 1 rs)) = 1
      \<and> meter ACTIVE_SESSIONS [] (calls (take 2 rs)) = 0
      \<and> meter DEFAULT_ENDPOINT_AVAILABLE [] (calls rs) = 1
      \<and> (case and_then (run_calls lib (calls rs) []) (gather_metrics encode utf8) of
           Inl _ \<Rightarrow> False
         | Inr page \<Rightarrow> page \<noteq> [] \<and> (\<exists>pre post. page = pre @ ''udp_director_active_sessions'' @ post)))"

text \<open>What the text encoder promises: a page that names every registered family.\<close>

definition encoder_documented :: "(metric list \<Rightarrow> string option) \<Rightarrow> (string \<Rightarrow> bool) \<Rightarrow> bool" where
  "encoder_documented encode utf8 \<longleftrightarrow> (\<forall>registered. \<exists>page. encode registered = Some page \<and> utf8 page
     \<and> (\<forall>m\<in>set registered. \<exists>pre post. page = pre @ m_name m @ post))"

lemma metrics_test:
  assumes lib: "documented lib" and enc: "encoder_documented encode utf8"
  shows "test_metrics_recording lib as_f64 d encode utf8"
proof -
  let ?calls = "concat (map (calls_of as_f64) (test_recordings d))"
  have typed: "list_all well_typed ?calls"
    using calls_well_typed [of as_f64] unfolding list_all_iff by auto
  have "registry_ok []" by (simp add: registry_ok_def)
  from run_calls_ok [OF lib typed this] obtain registered where
    run: "run_calls lib ?calls [] = Inr registered" and reg: "set registered = fst ` set ?calls" by auto
  have "ACTIVE_SESSIONS \<in> set registered"
    unfolding reg by (simp add: test_recordings_def record_session_start_def)
  then obtain page where page: "encode registered = Some page" "utf8 page"
    "\<exists>pre post. page = pre @ ''udp_director_active_sessions'' @ post"
    using enc unfolding encoder_documented_def by (metis ACTIVE_SESSIONS_def metric.select_convs(1))
  have "meter ACTIVE_SESSIONS [] (concat (map (calls_of as_f64) (take 1 (test_recordings d)))) = 1"
    "meter ACTIVE_SESSIONS [] (concat (map (calls_of as_f64) (take 2 (test_recordings d)))) = 0"
    "meter DEFAULT_ENDPOINT_AVAILABLE [] ?calls = 1"
    by (simp_all add: meter_def test_recordings_def recording_defs metric_defs)
  moreover have "page \<noteq> []" using page(3) by auto
  ultimately show ?thesis
    using page by (simp add: test_metrics_recording_def run gather_metrics_def Let_def)
qed

end
