(* ===== verification/Spec2Isabelle.thy ===== *)
theory Spec2Isabelle
  imports Program Allocation Shutdown ColdStart DefaultRoutes TcpConnections Conformance CapacityTests MetricValues
begin

text \<open>
  A verification library for udp-director, a Kubernetes proxy for game traffic, written in Rust under
  \<open>src/src\<close>. A client first asks the query port over TCP for a server of a map; the director chooses a
  Pod, writes the character's label to it and installs a route for the client's IP address. Packets
  and connections that the client then sends to a data port are forwarded along the route. A client
  without a route gets one to a configured default endpoint with its first packet.

  \<^bold>\<open>Parts and theories.\<close> The theories follow the modules of the program; each opens with what it holds.

  \<^item> \<open>Prelude\<close>: hash maps as association lists with distinct keys (\<open>hm_get\<close>, \<open>hm_insert\<close>, \<open>hm_remove\<close>,
    \<open>hm_wf\<close>), results \<open>error + 'a\<close> with \<open>and_then\<close>, \<open>ok_or\<close>, \<open>ensure\<close>, integer types, and the facts the
    other theories share.
  \<^item> \<open>RustText\<close>, \<open>NetAddr\<close>, \<open>Json\<close>: what the program uses of the Rust library and of \<open>serde_json\<close>:
    splitting, slicing (which may panic), printing and parsing of integers and socket addresses, JSON
    values. Strings are UTF-8 byte strings, as in Rust.
  \<^item> \<open>Errors\<close>: every error the modelled functions return, and \<open>Panic\<close> for an unwinding task.
  \<^item> \<open>Config\<close> (\<open>config.rs\<close>): the configuration, its defaults and its validation.
  \<^item> \<open>K8sClient\<close> (\<open>k8s_client.rs\<close>): JSON paths, addresses, ports, list requests, the watch, the label write.
  \<^item> \<open>Characters\<close> (\<open>characters.rs\<close>): the characters that a Pod's labels show at a time.
  \<^item> \<open>Reachable\<close>: the contract of the step relations: invariants and simulation.
  \<^item> \<open>Selection\<close>: the contract of taking the first element of a stable sort by a key (a locale and its
    interpretation), on which both the query server and the load balancer rest.
  \<^item> \<open>LoadBalancer\<close> (\<open>load_balancer.rs\<close>): session counts and the two strategies.
  \<^item> \<open>Session\<close> (\<open>session.rs\<close>): the session table, the upstream sockets with their receive tasks, cleanup.
  \<^item> \<open>Demand\<close> (\<open>demand.rs\<close>): the startup signal that concurrent cold queries share.
  \<^item> \<open>SessionSpec\<close>: leases per client IP, the specification the session table refines, and the end of receive tasks.
  \<^item> \<open>Shutdown\<close> (\<open>session.rs\<close>, \<open>main.rs\<close>): clearing the table at shutdown, next to the tasks that go on.
  \<^item> \<open>QueryServer\<close> and \<open>Access\<close> (\<open>query_server.rs\<close>): the query handler, and its properties; \<open>Requests\<close> has
    those of reading a request.
  \<^item> \<open>ColdStart\<close>: the concurrent cold queries of one director, at the assignment lock and the shared flights.
  \<^item> \<open>Allocation\<close>: many directors on one cluster, and the atomic allocation that their label writes refine.
  \<^item> \<open>Wire\<close> (\<open>query_server.rs\<close>, \<open>characters.rs\<close>, \<open>examples/client_example.rs\<close>): the JSON of requests and replies, and
    the example client.
  \<^item> \<open>Proxy\<close> (\<open>proxy.rs\<close>): default sessions, UDP packets, TCP connections.
  \<^item> \<open>DefaultRoutes\<close> (\<open>proxy.rs\<close>, \<open>resource_monitor.rs\<close>): concurrent first packets beside the monitor, on a cluster that
    changes.
  \<^item> \<open>TcpConnections\<close> (\<open>proxy.rs\<close>): TCP connections that stay open while every other handler runs.
  \<^item> \<open>ResourceMonitor\<close> (\<open>resource_monitor.rs\<close>): the check that invalidates the default endpoint cache.
  \<^item> \<open>Listeners\<close>: binding the ports, and the receive and accept loops of \<open>proxy.rs\<close>, \<open>query_server.rs\<close> and
    \<open>metrics_server.rs\<close>.
  \<^item> \<open>Metrics\<close> (\<open>metrics.rs\<close>, \<open>metrics_server.rs\<close>): the metric families, the recording functions, the text page;
    \<open>MetricValues\<close> has the values that recordings add up to.
  \<^item> \<open>Startup\<close> (\<open>main.rs\<close>): the check of the default endpoint, as the list of what it reports.
  \<^item> \<open>Director\<close> (\<open>main.rs\<close>): the wiring, a step relation of whole handlers, and properties that span parts.
  \<^item> \<open>Program\<close> (\<open>main.rs\<close>): the program from loading its configuration to its exit, around the director.
  \<^item> \<open>Conformance\<close>, \<open>AccessTests\<close>, \<open>CapacityTests\<close>: the repository's tests as executable definitions over the model, each
    proved true: those of \<open>session.rs\<close>, \<open>load_balancer.rs\<close> and \<open>k8s_client.rs\<close>; of \<open>proxy.rs\<close>, \<open>query_server.rs\<close>,
    \<open>characters.rs\<close> and \<open>config.rs\<close>; of \<open>capacity_tests.rs\<close>. A test's HTTP server is a state with one function per request.

  \<^bold>\<open>How state and effects correspond.\<close> A struct is a record with the same fields in the same order, less
  handles to libraries; an enum is a datatype. Shared maps behind \<open>Arc\<close> are fields of an explicit state:
  \<open>session_store\<close> is the \<open>DashMap\<close> of sessions with the heap of upstream sockets, so that two table
  entries that share a socket, or a socket that no entry refers to, can be expressed;
  \<open>capacity_demand\<close> has the flights in a heap with their strong counts. A handler takes the state and
  returns it updated with its result. The query handler, whose order of actions is what matters, instead
  returns the list of its effects in order (\<open>query_effect\<close>: lock, unlock, list, signal, label write, route);
  \<open>apply_effects\<close> runs the routes on a session table. The panics that the program text can reach (a slice
  out of range, time arithmetic, a poisoned mutex) are the error \<open>Panic\<close>.

  \<^bold>\<open>Parameters.\<close> Code outside the repository is an argument: the API server (\<open>k8s_api\<close>: its answer to a list
  request, to a label write, to a Service list), the decoding of a Pod, the RFC 3339 and YAML parsers, the
  parse of a request's bytes, the network (a socket bound or not, a datagram sent or not), the HTTP
  exchange of a startup signal, which ports can be bound (\<open>port_binder\<close>), the Prometheus library
  (\<open>prometheus\<close>), and the clock, in nanoseconds. Properties hold for all of them;
  where one rests on documented behaviour, that is a hypothesis with a name (\<open>one_document\<close> for JSON,
  \<open>optimistic\<close> for label writes with a resource version, \<open>exclusive\<close> for ports in use, \<open>documented\<close> for metrics).

  \<^bold>\<open>Loops and concurrency.\<close> No fuel is used. A loop that waits for the outside world is a recursion
  over the script of what happens to it: the reads of a stream (\<open>read_request\<close>), the events of a waiting
  query (\<open>cold_wait\<close>, whose script may end while the query still waits: \<open>Waiting\<close>). A property
  that a query is served (\<open>cold_query_served\<close>) states the result for every script of that form. Tasks that
  share the session table interleave at its lock: \<open>table_step\<close> has one step per critical section, upsert being
  two, cleanup a scan and single removals, and \<open>clear_all\<close> one visit per session in each of its two passes;
  \<open>clear_step\<close> is the clearing at shutdown between the steps of the other tasks. \<open>whole_step\<close> and
  \<open>director_step\<close> run each handler to its end, and so does \<open>program_step\<close> with handlers and shutdown: what is
  proved over them is about counts, ports and phases, or says so; what the shutdown does to sessions and sockets
  is proved over \<open>clear_step\<close>.
  \<open>cold_step\<close> cuts concurrent queries where the assignment lock, a flight or a wait lets others run;
  \<open>default_step\<close> cuts first packets and the monitor's check at the cache lock, the API server's answers and the table's
  locks, \<open>connection_step\<close> TCP connections at the copying of their bytes; \<open>program_step\<close> interleaves the binds and the ends of the tasks with handlers and with \<open>main\<close>; in \<open>world_step\<close>
  whole queries of any number of directors meet at the API server, each with snapshots as old as it likes.
  Counters of type \<open>usize\<close> are natural numbers; ports, label arithmetic and timeouts are words of their width.

  \<^bold>\<open>What is shown.\<close>

  \<^item> Queries (\<open>Access\<close>): only an eligible and most preferred Pod of a snapshot the query itself read is
    granted, a route needs the label write accepted by the API in the state the query decided on, a label write is
    for the Pod decided on and no other, the assignment lock covers snapshot to route and is not
    held while waiting, failed queries change no session, a woken query is served, errors stay opaque.
  \<^item> Allocation (\<open>Allocation\<close>): with many directors, each accepted label write is one atomic step on the Pod as it
    is stored then, so no slot is given away twice; what is written is read back as that character.
  \<^item> Sessions (\<open>Session\<close>, \<open>SessionSpec\<close>): the table implements leases; replies reach only the client socket they belong to under every interleaving;
    upsert and cleanup do exactly what they say when run whole; two races of their split critical sections;
    clearing the table ends the tasks of the sessions it finds, and what it can miss (\<open>Shutdown\<close>).
  \<^item> Traffic (\<open>Proxy\<close>, \<open>Director\<close>): packets follow the route, end to end from a query, where the route's address and port
    parse as a socket address, and are dropped where they do not (IPv6); default
    sessions are all or nothing; what the cache and concurrent first packets do to balancing; an open TCP
    connection does not keep its client's route (\<open>TcpConnections\<close>).
  \<^item> Concurrent first packets (\<open>DefaultRoutes\<close>): cache and routes hold only answers of the cluster, no first packet
    waits forever; and an answer under way during an invalidation
    is cached after it and stays until the cluster changes again.
  \<^item> The query port (\<open>Wire\<close>): which JSON objects are which request, and that replies can be told apart.
  \<^item> Balancing (\<open>LoadBalancer\<close>): both strategies against their arithmetic specification, the exact bound of
    eligibility, wrap-around; over a whole run the counts only grow, since the cleanup callback is never read.
  \<^item> The program (\<open>Program\<close>, \<open>Listeners\<close>, \<open>Startup\<close>): the ports decide whether it runs, not the order of the
    binds; well configured and with a Kubernetes client, only a signal ends it; the data proxy fails exactly at a port
    that is refused in its turn; the default target the startup check reports is what clients get, unless the
    monitor's first check, which empties the cache in any case, comes between them.
  \<^item> Metrics (\<open>Metrics\<close>): every recording is well typed for its family, and none panics; what the values of the gauges
    and counters are after any recordings (\<open>MetricValues\<close>).
  \<^item> Startup signals (\<open>Demand\<close>, \<open>ColdStart\<close>): one live flight per group, one request per flight, the answer
    shared by exactly the queries that wait, and no query stuck at the lock.
  \<^item> Data (\<open>Characters\<close>, \<open>K8sClient\<close>, \<open>Config\<close>): the visibility rule with its 120 second window, JSON
    paths against a reference semantics, ports within their range, validation as an equivalence.

  \<^bold>\<open>Interfaces.\<close> \<open>selection\<close> (least element of a stable sort), \<open>session_counter\<close> (counts per backend),
  \<open>route_table\<close> (routes per client), and \<open>step_invariant\<close> with \<open>simulation\<close> (what holds in every reachable
  state, and runs that are runs of a coarser relation) are locales, each interpreted on the model's own
  definitions in the theory of the component that provides it; the clients' properties use the interpreted facts.

  \<^bold>\<open>Not modelled.\<close> The formatting of log lines (the startup check is modelled by what it reports); the
  text encoding of metrics; the operating system's signals, of which only the arrival counts; the bytes copied over
  a spliced TCP connection; HTTP parsing on the metrics port; the construction of Kubernetes client handles, which only
  may fail; the real-time limits of the tests, whose waiting is the order of their steps in the model, and the test of
  \<open>resource_monitor.rs\<close>, which needs a cluster and asserts nothing. The API server is known by its documented answers: its storage, its watch delays and its own
  failures are whatever the parameters say.
\<close>

end
